(* ===== verification/Prelude.thy ===== *)
theory Prelude
  imports Main "HOL-Library.Sublist" "HOL-Library.AList"
begin

text \<open>
  Shared vocabulary of the development: the Python exceptions the note
  manager can raise, the result type of a Python call that may raise, the
  list operation \<open>list.pop(i)\<close>, the named theorem collections that the
  component theories fill, and generic lemmas on lists and association lists
  that several components use.
\<close>

named_theorems model_simps "equations that evaluate the modelled operations on concrete inputs"
named_theorems wf_intros "rules that establish the well-formedness invariants of the model"

section \<open>Python exceptions and results\<close>

text \<open>
  The exceptions that the code of \<^verbatim>\<open>src/\<close> can raise or catch.
  \<open>IOError\<close> stands for every \<^verbatim>\<open>OSError\<close> (\<^verbatim>\<open>IOError\<close> is its alias in
  Python 3); \<open>JSONDecodeError\<close> is the \<^verbatim>\<open>ValueError\<close> subclass of the
  \<^verbatim>\<open>json\<close> module.
\<close>

datatype py_exc =
    TypeError
  | AttributeError
  | KeyError
  | IOError
  | JSONDecodeError
  | UnicodeDecodeError
  | ValueError
  | EOFError
  | KeyboardInterrupt

type_synonym 'a py_result = "py_exc + 'a"

text \<open>\<^verbatim>\<open>except Exception\<close> catches every exception but \<^verbatim>\<open>KeyboardInterrupt\<close>
  (and \<^verbatim>\<open>SystemExit\<close>, which the model has as a separate outcome).\<close>

fun is_Exception :: "py_exc \<Rightarrow> bool" where
  "is_Exception KeyboardInterrupt = False"
| "is_Exception _ = True"

section \<open>\<^verbatim>\<open>list.pop(i)\<close>\<close>

text \<open>\<^verbatim>\<open>xs.pop(i)\<close> for an index \<open>0 \<le> i < len(xs)\<close>: the element at
  \<open>i\<close> is removed and the later ones move down by one.\<close>

definition pop_at :: "'a list \<Rightarrow> nat \<Rightarrow> 'a list" where
  "pop_at xs i = take i xs @ drop (Suc i) xs"

lemma pop_at_Cons_0 [simp]: "pop_at (x # xs) 0 = xs"
  by (simp add: pop_at_def)

lemma pop_at_Cons_Suc [simp]: "pop_at (x # xs) (Suc i) = x # pop_at xs i"
  by (simp add: pop_at_def)

lemma length_pop_at [simp]: "i < length xs \<Longrightarrow> length (pop_at xs i) = length xs - 1"
  by (simp add: pop_at_def)

lemma nth_pop_at:
  assumes "i < length xs" and "j < length xs - 1"
  shows "pop_at xs i ! j = (if j < i then xs ! j else xs ! Suc j)"
  using assms by (simp add: pop_at_def nth_append min_def)

lemma set_pop_at_subset: "set (pop_at xs i) \<subseteq> set xs"
  by (auto simp: pop_at_def dest: in_set_takeD in_set_dropD)

lemma list_all_pop_at [wf_intros]: "list_all P xs \<Longrightarrow> list_all P (pop_at xs i)"
  using set_pop_at_subset by (fastforce simp: list_all_iff)

lemma map_pop_at: "map f (pop_at xs i) = pop_at (map f xs) i"
  by (simp add: pop_at_def take_map drop_map)

lemma pop_at_append_length [simp]: "pop_at (xs @ [x]) (length xs) = xs"
  by (simp add: pop_at_def)

section \<open>Association lists as Python dicts\<close>

text \<open>
  \<^verbatim>\<open>dict(pairs)\<close>: a later pair for a key already present replaces the value
  and keeps the key at its first position; a new key goes to the end. This is
  \<open>AList.update\<close> folded over the pairs.
\<close>

definition dict_of_pairs :: "('k \<times> 'v) list \<Rightarrow> ('k \<times> 'v) list" where
  "dict_of_pairs ps = foldl (\<lambda>d (k, v). AList.update k v d) [] ps"

lemma distinct_foldl_update:
  "distinct (map fst d) \<Longrightarrow> distinct (map fst (foldl (\<lambda>d (k, v). AList.update k v d) d ps))"
  by (induction ps arbitrary: d) (auto simp: distinct_update)

lemma distinct_dict_of_pairs [wf_intros]: "distinct (map fst (dict_of_pairs ps))"
  by (simp add: dict_of_pairs_def distinct_foldl_update)

lemma foldl_update_distinct:
  "distinct (map fst (d @ ps)) \<Longrightarrow> foldl (\<lambda>d (k, v). AList.update k v d) d ps = d @ ps"
proof (induction ps arbitrary: d)
  case Nil
  then show ?case by simp
next
  case (Cons p ps)
  obtain k v where p: "p = (k, v)" by fastforce
  from Cons.prems p have "k \<notin> fst ` set d" by auto
  then have "AList.update k v d = d @ [(k, v)]"
    by (induction d) auto
  with Cons.prems Cons.IH [of "d @ [(k, v)]"] p show ?case by simp
qed

lemma dict_of_pairs_distinct [simp]:
  "distinct (map fst ps) \<Longrightarrow> dict_of_pairs ps = ps"
  using foldl_update_distinct [of "[]" ps] by (simp add: dict_of_pairs_def)

end
