(* ===== verification/PyStr.thy ===== *)
theory PyStr
  imports Prelude
begin

text \<open>
  The Python string built-ins the note manager calls: \<^verbatim>\<open>str.isspace\<close> (as used
  by \<^verbatim>\<open>str.strip()\<close>), \<^verbatim>\<open>str.strip()\<close>, \<^verbatim>\<open>str.lower()\<close>, the substring test
  \<^verbatim>\<open>a in b\<close> and \<^verbatim>\<open>int(s)\<close> on a decimal string. A Python \<^verbatim>\<open>str\<close> is a
  sequence of code points; an Isabelle \<open>char\<close> has 256 values, read here as
  the code points U+0000 to U+00FF (Latin-1). The tables below are Python's
  for exactly that range.
\<close>

section \<open>Whitespace and \<^verbatim>\<open>str.strip()\<close>\<close>

text \<open>\<^verbatim>\<open>Py_UNICODE_ISSPACE\<close> on U+0000..U+00FF: TAB, LF, VT, FF, CR, the
  separators U+001C..U+001F, SPACE, NEL (U+0085) and NO-BREAK SPACE (U+00A0).\<close>

definition py_isspace :: "char \<Rightarrow> bool" where
  "py_isspace c \<longleftrightarrow>
     (let n = of_char c :: nat in
      (9 \<le> n \<and> n \<le> 13) \<or> (28 \<le> n \<and> n \<le> 32) \<or> n = 133 \<or> n = 160)"

definition py_strip :: "string \<Rightarrow> string" where
  "py_strip s = rev (dropWhile py_isspace (rev (dropWhile py_isspace s)))"

lemma py_isspace_space [simp]: "py_isspace (CHR '' '')"
  by (simp add: py_isspace_def)

lemma dropWhile_eq_Nil_iff: "dropWhile P xs = [] \<longleftrightarrow> list_all P xs"
  by (simp add: list_all_iff)

lemma list_all_dropWhile_iff: "list_all P (dropWhile P xs) \<longleftrightarrow> dropWhile P xs = []"
  by (induction xs) auto

lemma py_strip_Nil_iff: "py_strip s = [] \<longleftrightarrow> list_all py_isspace s"
proof -
  have "py_strip s = [] \<longleftrightarrow> dropWhile py_isspace (rev (dropWhile py_isspace s)) = []"
    by (simp add: py_strip_def)
  also have "\<dots> \<longleftrightarrow> list_all py_isspace (dropWhile py_isspace s)"
    by (simp add: dropWhile_eq_Nil_iff list_all_iff)
  also have "\<dots> \<longleftrightarrow> list_all py_isspace s"
    by (metis list_all_dropWhile_iff dropWhile_eq_Nil_iff)
  finally show ?thesis .
qed

lemma py_strip_sublist: "sublist (py_strip s) s"
proof -
  have "suffix (dropWhile py_isspace s) s"
    by (simp add: suffix_dropWhile)
  moreover have "prefix (rev (dropWhile py_isspace (rev (dropWhile py_isspace s))))
                        (dropWhile py_isspace s)"
    by (metis prefix_order.eq_iff rev_rev_ident suffix_dropWhile suffix_to_prefix)
  ultimately show ?thesis
    by (metis py_strip_def prefix_imp_sublist sublist_order.dual_order.trans suffix_imp_sublist)
qed

lemma py_strip_no_lead: "py_strip s \<noteq> [] \<Longrightarrow> \<not> py_isspace (hd (py_strip s))"
proof -
  assume ne: "py_strip s \<noteq> []"
  let ?d = "dropWhile py_isspace s"
  have "?d \<noteq> []"
    using ne unfolding py_strip_def by (metis dropWhile.simps(1) rev.simps(1))
  then have hd_d: "\<not> py_isspace (hd ?d)" by (rule hd_dropWhile)
  have "prefix (py_strip s) ?d"
    by (metis py_strip_def prefix_order.eq_iff rev_rev_ident suffix_dropWhile suffix_to_prefix)
  with ne have "hd (py_strip s) = hd ?d"
    by (metis prefix_def hd_append2)
  with hd_d show ?thesis by simp
qed

lemma py_strip_no_trail: "py_strip s \<noteq> [] \<Longrightarrow> \<not> py_isspace (last (py_strip s))"
proof -
  assume ne: "py_strip s \<noteq> []"
  let ?r = "dropWhile py_isspace (rev (dropWhile py_isspace s))"
  have "?r \<noteq> []" using ne by (auto simp: py_strip_def)
  then have "\<not> py_isspace (hd ?r)" by (rule hd_dropWhile)
  moreover have "last (py_strip s) = hd ?r"
    using \<open>?r \<noteq> []\<close> by (simp add: py_strip_def last_rev)
  ultimately show ?thesis by simp
qed

section \<open>\<^verbatim>\<open>str.lower()\<close>\<close>

text \<open>Python's lower-case mapping on U+0000..U+00FF: \<open>A\<close>..\<open>Z\<close> and the
  Latin-1 capitals U+00C0..U+00DE except U+00D7 (the multiplication sign) move
  up by 32; every other character is its own lower case.\<close>

definition py_lower_char :: "char \<Rightarrow> char" where
  "py_lower_char c =
     (let n = of_char c :: nat in
      if (65 \<le> n \<and> n \<le> 90) \<or> (192 \<le> n \<and> n \<le> 222 \<and> n \<noteq> 215)
      then char_of (n + 32) else c)"

definition py_lower :: "string \<Rightarrow> string" where
  "py_lower s = map py_lower_char s"

lemma of_char_less_256: "(of_char c :: nat) < 256"
  using of_char_mod_256 [of c] by (metis mod_less_divisor zero_less_numeral)

lemma char_of_nat_eq_iff [model_simps]: "char_of n = c \<longleftrightarrow> (n::nat) mod 256 = of_char c"
  by (simp add: char_of_eq_iff take_bit_eq_mod)

lemma eq_char_of_nat_iff [model_simps]: "c = char_of n \<longleftrightarrow> (n::nat) mod 256 = of_char c"
  using char_of_nat_eq_iff [of n c] by auto

lemma py_lower_char_idem [simp]: "py_lower_char (py_lower_char c) = py_lower_char c"
  by (simp add: py_lower_char_def Let_def)

lemma py_lower_idem [simp]: "py_lower (py_lower s) = py_lower s"
  by (simp add: py_lower_def)

lemma length_py_lower [simp]: "length (py_lower s) = length s"
  by (simp add: py_lower_def)

lemma py_lower_append [simp]: "py_lower (s @ t) = py_lower s @ py_lower t"
  by (simp add: py_lower_def)

section \<open>The substring test \<^verbatim>\<open>needle in haystack\<close>\<close>

text \<open>CPython searches with a fast two-way algorithm; its result is that of
  the scan below, which tries every start position of the haystack in turn.\<close>

fun py_in :: "string \<Rightarrow> string \<Rightarrow> bool" where
  "py_in n [] \<longleftrightarrow> n = []"
| "py_in n (c # h) \<longleftrightarrow> prefix n (c # h) \<or> py_in n h"

lemma py_in_sublist: "py_in n h \<longleftrightarrow> sublist n h"
  by (induction h) (auto simp: sublist_Cons_right)

lemma py_in_Nil [simp]: "py_in [] h"
  by (simp add: py_in_sublist)

section \<open>\<^verbatim>\<open>sep.join(parts)\<close>\<close>

fun py_join :: "string \<Rightarrow> string list \<Rightarrow> string" where
  "py_join sep [] = []"
| "py_join sep [x] = x"
| "py_join sep (x # y # ys) = x @ sep @ py_join sep (y # ys)"

lemma py_join_Cons: "py_join sep (x # xs) = x @ concat (map (\<lambda>y. sep @ y) xs)"
  by (induction xs arbitrary: x) auto

section \<open>\<^verbatim>\<open>int(s)\<close> on a decimal string\<close>

text \<open>
  \<^verbatim>\<open>int(s)\<close> with base 10 strips whitespace, takes an optional sign and then
  decimal digits, where single underscores may separate two digits; anything
  else raises \<^verbatim>\<open>ValueError\<close> (\<open>None\<close> here). Within U+0000..U+00FF the only
  decimal digits are the ASCII ones.
\<close>

definition is_digit :: "char \<Rightarrow> bool" where
  "is_digit c \<longleftrightarrow> (48::nat) \<le> of_char c \<and> of_char c \<le> (57::nat)"

definition digit_val :: "char \<Rightarrow> nat" where
  "digit_val c = of_char c - 48"

fun py_digits_acc :: "nat \<Rightarrow> string \<Rightarrow> nat option" where
  "py_digits_acc n [] = Some n"
| "py_digits_acc n (c # r) =
     (if is_digit c then py_digits_acc (10 * n + digit_val c) r
      else if c = CHR ''_'' then
        (case r of
          d # r' \<Rightarrow> if is_digit d then py_digits_acc (10 * n + digit_val d) r' else None
        | [] \<Rightarrow> None)
      else None)"

definition py_digits :: "string \<Rightarrow> nat option" where
  "py_digits s =
     (case s of
       d # r \<Rightarrow> if is_digit d then py_digits_acc (digit_val d) r else None
     | [] \<Rightarrow> None)"

definition py_int :: "string \<Rightarrow> int option" where
  "py_int s =
     (case py_strip s of
       [] \<Rightarrow> None
     | c # r \<Rightarrow>
         if c = CHR ''-'' then map_option (\<lambda>n. - int n) (py_digits r)
         else if c = CHR ''+'' then map_option int (py_digits r)
         else map_option int (py_digits (c # r)))"

end
