(* ===== verification/Json.thy ===== *)
theory Json
  imports PyStr
begin

text \<open>
  The Python values that the note store holds and the encoder that writes them.
  \<^verbatim>\<open>Database.notes\<close> (src/database.py) is whatever \<^verbatim>\<open>json.load\<close> returned or
  a list of note dicts built by \<^verbatim>\<open>create_note\<close> (src/utils.py), so every value
  the program touches is a JSON value: the datatype \<open>json\<close> below. A dict is an
  association list in insertion order with distinct keys (the invariant
  \<open>wf_json\<close>). A JSON number with a fraction or exponent, and \<open>NaN\<close>,
  \<open>Infinity\<close>, \<open>-Infinity\<close>, are kept as their text (\<open>JFloat\<close>).

  The section on Python operations gives \<^verbatim>\<open>len(v)\<close>, truth value, \<^verbatim>\<open>v[key]\<close>
  and iteration on these values, with the exception each raises where the
  value has the wrong type. The last section is \<^verbatim>\<open>json.dump(v, f,
  ensure_ascii=False, indent=2)\<close> as called in \<^verbatim>\<open>Database.save\<close>.
\<close>

section \<open>JSON values\<close>

datatype json =
    JNull
  | JBool bool
  | JInt int
  | JFloat string
  | JStr string
  | JArray "json list"
  | JObject "(string \<times> json) list"

text \<open>Python dicts have distinct keys; every value the program builds or loads
  keeps this at every level.\<close>

fun wf_json :: "json \<Rightarrow> bool" where
  "wf_json (JArray vs) \<longleftrightarrow> (\<forall>v \<in> set vs. wf_json v)"
| "wf_json (JObject kvs) \<longleftrightarrow> distinct (map fst kvs) \<and> (\<forall>kv \<in> set kvs. wf_json (snd kv))"
| "wf_json _ \<longleftrightarrow> True"

section \<open>Python operations on values\<close>

text \<open>\<^verbatim>\<open>len(v)\<close>: lists, dicts and strings have a length; \<^verbatim>\<open>len\<close> of
  \<^verbatim>\<open>None\<close>, a bool or a number raises \<^verbatim>\<open>TypeError\<close>.\<close>

fun py_len :: "json \<Rightarrow> nat py_result" where
  "py_len (JArray vs) = Inr (length vs)"
| "py_len (JObject kvs) = Inr (length kvs)"
| "py_len (JStr s) = Inr (length s)"
| "py_len _ = Inl TypeError"

text \<open>Truth value (\<^verbatim>\<open>if not v\<close>): empty containers, the empty string,
  \<^verbatim>\<open>None\<close>, \<^verbatim>\<open>False\<close> and zero are false. A float is zero exactly when its
  mantissa has no digit other than \<open>0\<close>.\<close>

definition float_text_is_zero :: "string \<Rightarrow> bool" where
  "float_text_is_zero f \<longleftrightarrow>
     list_all (\<lambda>c. c \<in> set ''0.-+'') (takeWhile (\<lambda>c. c \<noteq> CHR ''e'' \<and> c \<noteq> CHR ''E'') f)"

fun py_truthy :: "json \<Rightarrow> bool" where
  "py_truthy JNull \<longleftrightarrow> False"
| "py_truthy (JBool b) \<longleftrightarrow> b"
| "py_truthy (JInt i) \<longleftrightarrow> i \<noteq> 0"
| "py_truthy (JFloat f) \<longleftrightarrow> \<not> float_text_is_zero f"
| "py_truthy (JStr s) \<longleftrightarrow> s \<noteq> []"
| "py_truthy (JArray vs) \<longleftrightarrow> vs \<noteq> []"
| "py_truthy (JObject kvs) \<longleftrightarrow> kvs \<noteq> []"

text \<open>\<^verbatim>\<open>v[key]\<close> with a string key: a dict looks the key up (\<^verbatim>\<open>KeyError\<close>
  when it is missing); a list or a string needs an integer index and every
  other value is not subscriptable (\<^verbatim>\<open>TypeError\<close>).\<close>

fun py_getitem :: "json \<Rightarrow> string \<Rightarrow> json py_result" where
  "py_getitem (JObject kvs) k = (case map_of kvs k of None \<Rightarrow> Inl KeyError | Some v \<Rightarrow> Inr v)"
| "py_getitem _ k = Inl TypeError"

text \<open>\<^verbatim>\<open>for x in v\<close>: a list yields its elements, a dict its keys, a string
  its characters (as strings of length one); other values are not iterable.\<close>

fun py_iter :: "json \<Rightarrow> json list py_result" where
  "py_iter (JArray vs) = Inr vs"
| "py_iter (JObject kvs) = Inr (map (\<lambda>kv. JStr (fst kv)) kvs)"
| "py_iter (JStr s) = Inr (map (\<lambda>c. JStr [c]) s)"
| "py_iter _ = Inl TypeError"

text \<open>\<^verbatim>\<open>v.lower()\<close> exists on strings only (\<^verbatim>\<open>AttributeError\<close> otherwise).\<close>

fun py_lower_val :: "json \<Rightarrow> string py_result" where
  "py_lower_val (JStr s) = Inr (py_lower s)"
| "py_lower_val _ = Inl AttributeError"

section \<open>The encoder: \<^verbatim>\<open>json.dump(v, f, ensure_ascii=False, indent=2)\<close>\<close>

text \<open>\<^verbatim>\<open>int.__repr__\<close>: decimal digits, a minus sign for negatives.\<close>

definition digit_char :: "nat \<Rightarrow> char" where
  "digit_char d = char_of (48 + d)"

fun nat_str :: "nat \<Rightarrow> string" where
  "nat_str n = (if n < 10 then [digit_char n] else nat_str (n div 10) @ [digit_char (n mod 10)])"

definition int_str :: "int \<Rightarrow> string" where
  "int_str i = (if i < 0 then CHR ''-'' # nat_str (nat (- i)) else nat_str (nat i))"

text \<open>
  \<^verbatim>\<open>py_encode_basestring\<close> (the \<^verbatim>\<open>ensure_ascii=False\<close> encoder): the
  backslash and the double quote are escaped, the five control characters
  with a short escape get it, every other character below U+0020 becomes
  \<^verbatim>\<open>\u00XX\<close> with lower-case hex digits, and everything else is copied.
\<close>

definition hex_char :: "nat \<Rightarrow> char" where
  "hex_char d = (if d < 10 then char_of (48 + d) else char_of (87 + d))"

definition json_esc_char :: "char \<Rightarrow> string" where
  "json_esc_char c =
     (let n = of_char c :: nat in
      if n = 92 then [CHR 0x5C, CHR 0x5C]
      else if n = 34 then [CHR 0x5C, CHR 0x22]
      else if n = 8 then [CHR 0x5C, CHR ''b'']
      else if n = 12 then [CHR 0x5C, CHR ''f'']
      else if n = 10 then [CHR 0x5C, CHR ''n'']
      else if n = 13 then [CHR 0x5C, CHR ''r'']
      else if n = 9 then [CHR 0x5C, CHR ''t'']
      else if n < 32 then [CHR 0x5C, CHR ''u'', CHR ''0'', CHR ''0'', hex_char (n div 16), hex_char (n mod 16)]
      else [c])"

definition json_encode_str :: "string \<Rightarrow> string" where
  "json_encode_str s = CHR 0x22 # concat (map json_esc_char s) @ [CHR 0x22]"

text \<open>
  \<^verbatim>\<open>_make_iterencode\<close> with \<^verbatim>\<open>indent=2\<close>: an empty list or dict is
  \<^verbatim>\<open>[]\<close> or \<^verbatim>\<open>{}\<close>; otherwise the items go one per line, each preceded by
  a newline and two spaces per nesting level, separated by \<^verbatim>\<open>,\<close>, the key
  separated from its value by \<^verbatim>\<open>": "\<close>, and the closing bracket is on its own
  line at the enclosing level. No newline is written at the end.
\<close>

definition newline_indent :: "nat \<Rightarrow> string" where
  "newline_indent l = CHR 0x0A # replicate (2 * l) (CHR '' '')"

fun json_dump_at :: "nat \<Rightarrow> json \<Rightarrow> string" where
  "json_dump_at l JNull = ''null''"
| "json_dump_at l (JBool b) = (if b then ''true'' else ''false'')"
| "json_dump_at l (JInt i) = int_str i"
| "json_dump_at l (JFloat f) = f"
| "json_dump_at l (JStr s) = json_encode_str s"
| "json_dump_at l (JArray vs) =
     (if vs = [] then ''[]''
      else CHR ''['' # newline_indent (Suc l) @
           py_join (CHR '','' # newline_indent (Suc l)) (map (json_dump_at (Suc l)) vs) @
           newline_indent l @ '']'')"
| "json_dump_at l (JObject kvs) =
     (if kvs = [] then ''{}''
      else CHR ''{'' # newline_indent (Suc l) @
           py_join (CHR '','' # newline_indent (Suc l))
             (map (\<lambda>kv. json_encode_str (fst kv) @ '': '' @ json_dump_at (Suc l) (snd kv)) kvs) @
           newline_indent l @ ''}'')"

definition json_dump :: "json \<Rightarrow> string" where
  "json_dump v = json_dump_at 0 v"

end
