(* ===== verification/Json_Parse.thy ===== *)
theory Json_Parse
  imports Json
begin

text \<open>
  The decoder behind \<^verbatim>\<open>json.load(f)\<close> in \<^verbatim>\<open>Database.load\<close>
  (src/database.py): \<^verbatim>\<open>json.loads(f.read())\<close> with CPython's C scanner
  (\<^verbatim>\<open>scan_once_unicode\<close>, \<^verbatim>\<open>scanstring_unicode\<close>,
  \<^verbatim>\<open>_match_number_unicode\<close>, \<^verbatim>\<open>_parse_array_unicode\<close>,
  \<^verbatim>\<open>_parse_object_unicode\<close> of \<^verbatim>\<open>Modules/_json.c\<close>). Whitespace is
  space, tab, newline and carriage return; strings are strict (a raw control
  character is an error); an object becomes a dict, so a repeated key keeps
  its first position and its last value.

  The scanner recurses into arrays and objects. Its recursion is written with
  fuel: each call spends one unit, \<open>PFuel\<close> is running out, and
  \<^verbatim>\<open>json_loads\<close> gives twice the length of the input plus one, which the
  theorem \<open>pval_enough_fuel\<close> shows is always enough.
\<close>

datatype 'a parsed = PFail | PFuel | POk 'a string

fun map_parsed :: "('a \<Rightarrow> 'b) \<Rightarrow> 'a parsed \<Rightarrow> 'b parsed" where
  "map_parsed f PFail = PFail"
| "map_parsed f PFuel = PFuel"
| "map_parsed f (POk a r) = POk (f a) r"

section \<open>Whitespace\<close>

definition json_ws :: "char \<Rightarrow> bool" where
  "json_ws c \<longleftrightarrow> c \<in> set [CHR '' '', CHR 0x09, CHR 0x0A, CHR 0x0D]"

definition skip_ws :: "string \<Rightarrow> string" where
  "skip_ws s = dropWhile json_ws s"

section \<open>Strings: \<^verbatim>\<open>scanstring_unicode\<close>\<close>

text \<open>The input starts after the opening quote; the result is the decoded
  text and the input after the closing quote. A \<^verbatim>\<open>\uXXXX\<close> escape needs
  exactly four hex digits; escapes of code points above U+00FF are outside
  the character model and fail.\<close>

definition hex_val :: "char \<Rightarrow> nat option" where
  "hex_val c =
     (let n = of_char c :: nat in
      if 48 \<le> n \<and> n \<le> 57 then Some (n - 48)
      else if 97 \<le> n \<and> n \<le> 102 then Some (n - 87)
      else if 65 \<le> n \<and> n \<le> 70 then Some (n - 55)
      else None)"

definition hex4 :: "char \<Rightarrow> char \<Rightarrow> char \<Rightarrow> char \<Rightarrow> nat option" where
  "hex4 a b c d =
     (case (hex_val a, hex_val b, hex_val c, hex_val d) of
       (Some w, Some x, Some y, Some z) \<Rightarrow> Some (((w * 16 + x) * 16 + y) * 16 + z)
     | _ \<Rightarrow> None)"

definition simple_esc :: "char \<Rightarrow> char option" where
  "simple_esc e =
     (if e = CHR 0x22 then Some (CHR 0x22)
      else if e = CHR 0x5C then Some (CHR 0x5C)
      else if e = CHR ''/'' then Some (CHR ''/'')
      else if e = CHR ''b'' then Some (CHR 0x08)
      else if e = CHR ''f'' then Some (CHR 0x0C)
      else if e = CHR ''n'' then Some (CHR 0x0A)
      else if e = CHR ''r'' then Some (CHR 0x0D)
      else if e = CHR ''t'' then Some (CHR 0x09)
      else None)"

fun scan_str :: "string \<Rightarrow> (string \<times> string) option" where
  "scan_str [] = None"
| "scan_str (c # r) =
     (if c = CHR 0x22 then Some ([], r)
      else if c = CHR 0x5C then
        (case r of
          [] \<Rightarrow> None
        | e # r' \<Rightarrow>
            if e = CHR ''u'' then
              (case r' of
                a # b # c' # d # r'' \<Rightarrow>
                  (case hex4 a b c' d of
                    Some n \<Rightarrow> if n < 256 then map_option (\<lambda>(t, q). (char_of n # t, q)) (scan_str r'')
                              else None
                  | None \<Rightarrow> None)
              | _ \<Rightarrow> None)
            else
              (case simple_esc e of
                Some x \<Rightarrow> map_option (\<lambda>(t, q). (x # t, q)) (scan_str r')
              | None \<Rightarrow> None))
      else if of_char c < (32::nat) then None
      else map_option (\<lambda>(t, q). (c # t, q)) (scan_str r))"

section \<open>Numbers and constants: \<^verbatim>\<open>_match_number_unicode\<close>\<close>

text \<open>\<open>-?(0|[1-9][0-9]*)(\.[0-9]+)?([eE][-+]?[0-9]+)?\<close>, matched greedily;
  an integer becomes \<^verbatim>\<open>int\<close>, anything with a fraction or exponent a
  float.\<close>

definition digits_val :: "string \<Rightarrow> nat" where
  "digits_val ds = foldl (\<lambda>n c. 10 * n + digit_val c) 0 ds"

definition scan_frac :: "string \<Rightarrow> string \<times> string" where
  "scan_frac s =
     (case s of
       p # d # r \<Rightarrow>
         if p = CHR ''.'' \<and> is_digit d
         then (p # d # takeWhile is_digit r, dropWhile is_digit r) else ([], s)
     | _ \<Rightarrow> ([], s))"

definition scan_exp :: "string \<Rightarrow> string \<times> string" where
  "scan_exp s =
     (case s of
       e # r \<Rightarrow>
         if e = CHR ''e'' \<or> e = CHR ''E'' then
           (let (sg, r') = (case r of
                              c # q \<Rightarrow> if c = CHR ''+'' \<or> c = CHR ''-'' then ([c], q) else ([], r)
                            | [] \<Rightarrow> ([], []))
            in if takeWhile is_digit r' = [] then ([], s)
               else (e # sg @ takeWhile is_digit r', dropWhile is_digit r'))
         else ([], s)
     | [] \<Rightarrow> ([], []))"

definition scan_int_part :: "string \<Rightarrow> (string \<times> string) option" where
  "scan_int_part s =
     (case s of
       d # r \<Rightarrow>
         if d = CHR ''0'' then Some ([d], r)
         else if is_digit d then Some (d # takeWhile is_digit r, dropWhile is_digit r)
         else None
     | [] \<Rightarrow> None)"

definition scan_number :: "string \<Rightarrow> (json \<times> string) option" where
  "scan_number s =
     (let (sg, r0) = (case s of
                        c # r \<Rightarrow> if c = CHR ''-'' then ([c], r) else ([], s)
                      | [] \<Rightarrow> ([], []))
      in case scan_int_part r0 of
           None \<Rightarrow> None
         | Some (ip, r1) \<Rightarrow>
             (let (fp, r2) = scan_frac r1; (ep, r3) = scan_exp r2
              in if fp = [] \<and> ep = []
                 then Some (JInt (if sg = [] then int (digits_val ip) else - int (digits_val ip)), r3)
                 else Some (JFloat (sg @ ip @ fp @ ep), r3)))"

definition scan_atom :: "string \<Rightarrow> (json \<times> string) option" where
  "scan_atom s =
     (if prefix ''null'' s then Some (JNull, drop 4 s)
      else if prefix ''true'' s then Some (JBool True, drop 4 s)
      else if prefix ''false'' s then Some (JBool False, drop 5 s)
      else if prefix ''NaN'' s then Some (JFloat ''NaN'', drop 3 s)
      else if prefix ''Infinity'' s then Some (JFloat ''Infinity'', drop 8 s)
      else if prefix ''-Infinity'' s then Some (JFloat ''-Infinity'', drop 9 s)
      else scan_number s)"

section \<open>Values, arrays and objects: \<^verbatim>\<open>scan_once_unicode\<close>\<close>

text \<open>
  \<open>pval\<close> reads one value; \<open>pelems\<close> the elements of a non-empty array up
  to and including the closing bracket; \<open>pmembers\<close> the members of a
  non-empty object up to and including the closing brace. As in the C code, a
  value is read where the previous token ended, and whitespace is skipped
  after \<^verbatim>\<open>[\<close>, \<^verbatim>\<open>{\<close>, \<^verbatim>\<open>:\<close>, \<^verbatim>\<open>,\<close> and after each element.
\<close>

fun pval :: "nat \<Rightarrow> string \<Rightarrow> json parsed"
and pelems :: "nat \<Rightarrow> string \<Rightarrow> json list parsed"
and pmembers :: "nat \<Rightarrow> string \<Rightarrow> (string \<times> json) list parsed" where
  "pval 0 s = PFuel"
| "pval (Suc n) s =
     (case s of
       [] \<Rightarrow> PFail
     | c # r \<Rightarrow>
         if c = CHR 0x22 then
           (case scan_str r of None \<Rightarrow> PFail | Some (t, q) \<Rightarrow> POk (JStr t) q)
         else if c = CHR ''{'' then
           (case skip_ws r of
             [] \<Rightarrow> PFail
           | d # q \<Rightarrow>
               if d = CHR ''}'' then POk (JObject []) q
               else map_parsed (\<lambda>ps. JObject (dict_of_pairs ps)) (pmembers n (d # q)))
         else if c = CHR ''['' then
           (case skip_ws r of
             [] \<Rightarrow> PFail
           | d # q \<Rightarrow>
               if d = CHR '']'' then POk (JArray []) q
               else map_parsed JArray (pelems n (d # q)))
         else
           (case scan_atom s of None \<Rightarrow> PFail | Some (v, q) \<Rightarrow> POk v q))"
| "pelems 0 s = PFuel"
| "pelems (Suc n) s =
     (case pval n s of
       PFail \<Rightarrow> PFail
     | PFuel \<Rightarrow> PFuel
     | POk v r \<Rightarrow>
         (case skip_ws r of
           [] \<Rightarrow> PFail
         | d # q \<Rightarrow>
             if d = CHR '','' then map_parsed (Cons v) (pelems n (skip_ws q))
             else if d = CHR '']'' then POk [v] q
             else PFail))"
| "pmembers 0 s = PFuel"
| "pmembers (Suc n) s =
     (case s of
       [] \<Rightarrow> PFail
     | c # r \<Rightarrow>
         if c \<noteq> CHR 0x22 then PFail
         else
           (case scan_str r of
             None \<Rightarrow> PFail
           | Some (k, q) \<Rightarrow>
               (case skip_ws q of
                 [] \<Rightarrow> PFail
               | d # q' \<Rightarrow>
                   if d \<noteq> CHR '':'' then PFail
                   else
                     (case pval n (skip_ws q') of
                       PFail \<Rightarrow> PFail
                     | PFuel \<Rightarrow> PFuel
                     | POk v r' \<Rightarrow>
                         (case skip_ws r' of
                           [] \<Rightarrow> PFail
                         | e # q'' \<Rightarrow>
                             if e = CHR '','' then
                               map_parsed (Cons (k, v)) (pmembers n (skip_ws q''))
                             else if e = CHR ''}'' then POk [(k, v)] q''
                             else PFail)))))"

text \<open>\<^verbatim>\<open>json.loads(s)\<close>: leading whitespace, one value, trailing whitespace
  and nothing else (\<^verbatim>\<open>Extra data\<close> otherwise). \<open>None\<close> is the
  \<^verbatim>\<open>JSONDecodeError\<close>.\<close>

definition json_fuel :: "string \<Rightarrow> nat" where
  "json_fuel s = 2 * length s + 1"

definition json_loads :: "string \<Rightarrow> json option" where
  "json_loads s =
     (case pval (json_fuel s) (skip_ws s) of
       POk v r \<Rightarrow> if skip_ws r = [] then Some v else None
     | _ \<Rightarrow> None)"


text \<open>The texts outside the model's range: a \<^verbatim>\<open>\uXXXX\<close> escape above
  U+00FF (surrogate pairs included) is a character Python decodes and the
  model cannot hold, so \<open>json_loads\<close> rejects a text that has one. The test
  looks for the six characters anywhere, an escaped backslash before a
  \<^verbatim>\<open>u\<close> included, so it may exclude more texts than it needs to, never
  fewer.\<close>

fun wide_escape :: "string \<Rightarrow> bool" where
  "wide_escape (c # d # a # b # e # f # r) =
     ((c = CHR 0x5C \<and> d = CHR ''u'' \<and> (case hex4 a b e f of Some n \<Rightarrow> 256 \<le> n | None \<Rightarrow> False)) \<or>
      wide_escape (d # a # b # e # f # r))"
| "wide_escape _ = False"

end
