(* ===== verification/Json_Fuel.thy ===== *)
theory Json_Fuel
  imports Json_Parse
begin

text \<open>
  The scanner of Json_Parse takes fuel. This theory shows that the fuel
  \<open>json_loads\<close> gives is always enough, so that \<open>json_loads\<close> is a total
  decoder that never stops for want of fuel, and that more fuel never changes
  a result: the scanner with fuel computes the unbounded recursion of the C
  code. The first section shows that every scanning function consumes input,
  the measure of both facts.
\<close>

section \<open>Every scan consumes input\<close>

lemma length_skip_ws: "length (skip_ws s) \<le> length s"
  by (simp add: skip_ws_def length_dropWhile_le)

lemma scan_str_shorter: "scan_str r = Some (t, q) \<Longrightarrow> length q < length r"
proof (induction r arbitrary: t rule: scan_str.induct)
  case 1
  then show ?case by simp
next
  case (2 c r)
  show ?case
  proof (cases "c = CHR 0x22")
    case True
    with "2.prems" show ?thesis by simp
  next
    case nq: False
    show ?thesis
    proof (cases "c = CHR 0x5C")
      case bs: True
      then obtain e r' where r: "r = e # r'"
        using nq "2.prems" by (cases r) auto
      show ?thesis
      proof (cases "e = CHR ''u''")
        case True
        with "2.prems" nq bs r obtain a b c' d r'' n t' where
          r': "r' = a # b # c' # d # r''" and h: "hex4 a b c' d = Some n" and "n < 256"
          and rec: "scan_str r'' = Some (t', q)"
          by (auto split: list.splits option.splits if_splits)
        have "length q < length r''"
          using "2.IH"(1) [OF nq bs r True r' refl refl refl h \<open>n < 256\<close>] rec by blast
        then show ?thesis using r r' by simp
      next
        case False
        with "2.prems" nq bs r obtain x t' where
          x: "simple_esc e = Some x" and rec: "scan_str r' = Some (t', q)"
          by (auto split: option.splits)
        have "length q < length r'"
          using "2.IH"(2) [OF nq bs r False x] rec by blast
        then show ?thesis using r by simp
      qed
    next
      case nbs: False
      with "2.prems" nq obtain t' where rec: "scan_str r = Some (t', q)"
        by (auto split: if_splits option.splits)
      have "length q < length r"
        using "2.IH"(3) [OF nq nbs] rec "2.prems" nq nbs by (auto split: if_splits)
      then show ?thesis by simp
    qed
  qed
qed

lemma scan_frac_suffix: "scan_frac s = (a, b) \<Longrightarrow> length b \<le> length s"
  by (auto simp: scan_frac_def split: list.splits if_splits
           intro: le_SucI order.trans [OF length_dropWhile_le])

lemma scan_exp_suffix: "scan_exp s = (a, b) \<Longrightarrow> length b \<le> length s"
  by (auto simp: scan_exp_def Let_def split: list.splits if_splits prod.splits
           intro: le_SucI order.trans [OF length_dropWhile_le])

lemma scan_int_part_shorter: "scan_int_part s = Some (a, b) \<Longrightarrow> length b < length s"
  by (auto simp: scan_int_part_def length_dropWhile_le less_Suc_eq_le split: list.splits if_splits)

lemma scan_number_shorter: "scan_number s = Some (v, q) \<Longrightarrow> length q < length s"
  apply (auto simp: scan_number_def Let_def split: list.splits if_splits prod.splits option.splits
               dest!: scan_int_part_shorter scan_frac_suffix scan_exp_suffix)
  done

lemma scan_atom_shorter: "scan_atom s = Some (v, q) \<Longrightarrow> length q < length s"
  by (auto simp: scan_atom_def prefix_def split: if_splits dest: scan_number_shorter)

lemma map_parsed_POk [simp]: "map_parsed f x = POk a r \<longleftrightarrow> (\<exists>b. x = POk b r \<and> a = f b)"
  by (cases x) auto

lemma map_parsed_PFuel [simp]: "map_parsed f x = PFuel \<longleftrightarrow> x = PFuel"
  by (cases x) auto

lemma skip_ws_Cons_shorter: "skip_ws s = d # q \<Longrightarrow> length q < length s"
  using length_skip_ws [of s] by simp

lemma less_skip_ws_length: "a < length (skip_ws s) \<Longrightarrow> a < length s"
  using length_skip_ws [of s] by simp

lemma parse_shorter:
  "(\<forall>s v r. pval n s = POk v r \<longrightarrow> length r < length s) \<and>
   (\<forall>s vs r. pelems n s = POk vs r \<longrightarrow> length r < length s) \<and>
   (\<forall>s ps r. pmembers n s = POk ps r \<longrightarrow> length r < length s)"
proof (induction n)
  case 0
  then show ?case by simp
next
  case (Suc n)
  then have IHv: "\<And>s v r. pval n s = POk v r \<Longrightarrow> length r < length s"
    and IHe: "\<And>s vs r. pelems n s = POk vs r \<Longrightarrow> length r < length s"
    and IHm: "\<And>s ps r. pmembers n s = POk ps r \<Longrightarrow> length r < length s"
    by blast+
  have v: "length r < length s" if "pval (Suc n) s = POk v r" for s v r
    using that
    by (auto split: list.splits if_splits option.splits prod.splits
             dest!: scan_str_shorter scan_atom_shorter skip_ws_Cons_shorter IHe IHm)
  have e: "length r < length s" if "pelems (Suc n) s = POk vs r" for s vs r
    using that
    by (auto split: list.splits if_splits parsed.splits
             dest!: skip_ws_Cons_shorter IHv IHe less_skip_ws_length)
  have m: "length r < length s" if "pmembers (Suc n) s = POk ps r" for s ps r
    using that
    by (auto split: list.splits if_splits parsed.splits option.splits prod.splits
             dest!: scan_str_shorter skip_ws_Cons_shorter IHv IHm less_skip_ws_length)
  show ?case using v e m by blast
qed

section \<open>Enough fuel\<close>

text \<open>With fuel \<open>n\<close>, \<open>pval\<close> never runs out on a text shorter than \<open>n / 2\<close>:
  every nesting level and every element costs one unit, and each of them
  consumes at least two characters of the text.\<close>

lemma pval_shorter: "pval n s = POk v r \<Longrightarrow> length r < length s"
  using parse_shorter by blast

lemma pval_fuel_step:
  assumes IHe: "\<And>s. 2 * length s + 1 < n \<Longrightarrow> pelems n s \<noteq> PFuel"
    and IHm: "\<And>s. 2 * length s + 1 < n \<Longrightarrow> pmembers n s \<noteq> PFuel"
    and len: "2 * length s < Suc n"
  shows "pval (Suc n) s \<noteq> PFuel"
proof (cases s)
  case (Cons c r)
  have ws: "2 * length (skip_ws r) + 1 < n" using len Cons length_skip_ws [of r] by simp
  show ?thesis
    using Cons IHm [OF ws] IHe [OF ws]
    by (auto split: list.splits if_splits option.splits prod.splits)
qed simp

lemma pelems_fuel_step:
  assumes IHv: "\<And>s. 2 * length s < n \<Longrightarrow> pval n s \<noteq> PFuel"
    and IHe: "\<And>s. 2 * length s + 1 < n \<Longrightarrow> pelems n s \<noteq> PFuel"
    and len: "2 * length s + 1 < Suc n"
  shows "pelems (Suc n) s \<noteq> PFuel"
proof (cases "pval n s")
  case (POk v r)
  have "length r < length s" using POk by (rule pval_shorter)
  then have "2 * length (skip_ws q) + 1 < n" if "skip_ws r = d # q" for d q
    using that len skip_ws_Cons_shorter [OF that] length_skip_ws [of q] by simp
  then show ?thesis using POk IHe by (auto split: list.splits if_splits)
next
  case PFuel
  with IHv len show ?thesis by simp
qed simp

text \<open>One member: the key, the colon, the value and what follows it.\<close>

lemma pmembers_fuel_member:
  assumes IHv: "\<And>s. 2 * length s < n \<Longrightarrow> pval n s \<noteq> PFuel"
    and IHm: "\<And>s. 2 * length s + 1 < n \<Longrightarrow> pmembers n s \<noteq> PFuel"
    and q: "skip_ws q = d # q'" and fv: "2 * length (skip_ws q') < n"
  shows "(case pval n (skip_ws q') of
            PFail \<Rightarrow> PFail
          | PFuel \<Rightarrow> PFuel
          | POk v r' \<Rightarrow>
              (case skip_ws r' of
                [] \<Rightarrow> PFail
              | e # q'' \<Rightarrow>
                  if e = CHR '','' then map_parsed (Cons (k, v)) (pmembers n (skip_ws q''))
                  else if e = CHR ''}'' then POk [(k, v)] q'' else PFail)) \<noteq> PFuel"
proof (cases "pval n (skip_ws q')")
  case (POk v r')
  have r': "length r' < length (skip_ws q')" using POk by (rule pval_shorter)
  have "2 * length (skip_ws q'') + 1 < n" if "skip_ws r' = e # q''" for e q''
    using fv r' skip_ws_Cons_shorter [OF that] length_skip_ws [of q''] by simp
  then show ?thesis using POk IHm by (auto split: list.splits if_splits)
next
  case PFuel
  with IHv fv show ?thesis by simp
qed simp

lemma pmembers_fuel_step:
  assumes IHv: "\<And>s. 2 * length s < n \<Longrightarrow> pval n s \<noteq> PFuel"
    and IHm: "\<And>s. 2 * length s + 1 < n \<Longrightarrow> pmembers n s \<noteq> PFuel"
    and len: "2 * length s + 1 < Suc n"
  shows "pmembers (Suc n) s \<noteq> PFuel"
proof (cases s)
  case (Cons c r)
  show ?thesis
  proof (cases "scan_str r")
    case (Some kq)
    obtain k q where kq: "kq = (k, q)" by fastforce
    have q: "length q < length r" using Some kq scan_str_shorter by simp
    show ?thesis
    proof (cases "skip_ws q")
      case (Cons d q')
      have "length q' < length q" using Cons by (rule skip_ws_Cons_shorter)
      then have "2 * length (skip_ws q') < n"
        using len \<open>s = c # r\<close> q length_skip_ws [of q'] by simp
      then show ?thesis
        using pmembers_fuel_member [OF IHv IHm Cons, of k] \<open>s = c # r\<close> Some kq Cons by simp
    qed (use \<open>s = c # r\<close> Some kq in simp)
  qed (use Cons in simp)
qed simp

lemma parse_enough_fuel:
  "(\<forall>s. 2 * length s < n \<longrightarrow> pval n s \<noteq> PFuel) \<and>
   (\<forall>s. 2 * length s + 1 < n \<longrightarrow> pelems n s \<noteq> PFuel) \<and>
   (\<forall>s. 2 * length s + 1 < n \<longrightarrow> pmembers n s \<noteq> PFuel)"
proof (induction n)
  case (Suc n)
  then have IHv: "\<And>s. 2 * length s < n \<Longrightarrow> pval n s \<noteq> PFuel"
    and IHe: "\<And>s. 2 * length s + 1 < n \<Longrightarrow> pelems n s \<noteq> PFuel"
    and IHm: "\<And>s. 2 * length s + 1 < n \<Longrightarrow> pmembers n s \<noteq> PFuel"
    by blast+
  show ?case
    using pval_fuel_step [OF IHe IHm] pelems_fuel_step [OF IHv IHe] pmembers_fuel_step [OF IHv IHm]
    by blast
qed simp

section \<open>More fuel, same result\<close>

lemma pval_mono_step:
  assumes "\<And>x. pelems n x \<noteq> PFuel \<Longrightarrow> pelems m x = pelems n x"
    and "\<And>x. pmembers n x \<noteq> PFuel \<Longrightarrow> pmembers m x = pmembers n x"
    and "pval (Suc n) s \<noteq> PFuel"
  shows "pval (Suc m) s = pval (Suc n) s"
  using assms by (auto split: list.splits if_splits option.splits prod.splits)

lemma pelems_mono_step:
  assumes "\<And>x. pval n x \<noteq> PFuel \<Longrightarrow> pval m x = pval n x"
    and "\<And>x. pelems n x \<noteq> PFuel \<Longrightarrow> pelems m x = pelems n x"
    and "pelems (Suc n) s \<noteq> PFuel"
  shows "pelems (Suc m) s = pelems (Suc n) s"
  using assms by (auto split: list.splits if_splits parsed.splits)

lemma pmembers_mono_step:
  assumes "\<And>x. pval n x \<noteq> PFuel \<Longrightarrow> pval m x = pval n x"
    and "\<And>x. pmembers n x \<noteq> PFuel \<Longrightarrow> pmembers m x = pmembers n x"
    and "pmembers (Suc n) s \<noteq> PFuel"
  shows "pmembers (Suc m) s = pmembers (Suc n) s"
  using assms by (auto split: list.splits if_splits parsed.splits option.splits prod.splits)

lemma parse_fuel_mono:
  "(\<forall>s m. pval n s \<noteq> PFuel \<longrightarrow> n \<le> m \<longrightarrow> pval m s = pval n s) \<and>
   (\<forall>s m. pelems n s \<noteq> PFuel \<longrightarrow> n \<le> m \<longrightarrow> pelems m s = pelems n s) \<and>
   (\<forall>s m. pmembers n s \<noteq> PFuel \<longrightarrow> n \<le> m \<longrightarrow> pmembers m s = pmembers n s)"
proof (induction n)
  case 0
  then show ?case by simp
next
  case (Suc n)
  have v: "pval m s = pval (Suc n) s" if le: "Suc n \<le> m" and ne: "pval (Suc n) s \<noteq> PFuel" for m s
  proof -
    obtain m' where "m = Suc m'" "n \<le> m'" using le by (cases m) auto
    then show ?thesis using pval_mono_step [of n m' s] Suc.IH ne by blast
  qed
  have e: "pelems m s = pelems (Suc n) s" if le: "Suc n \<le> m" and ne: "pelems (Suc n) s \<noteq> PFuel" for m s
  proof -
    obtain m' where "m = Suc m'" "n \<le> m'" using le by (cases m) auto
    then show ?thesis using pelems_mono_step [of n m' s] Suc.IH ne by blast
  qed
  have b: "pmembers m s = pmembers (Suc n) s" if le: "Suc n \<le> m" and ne: "pmembers (Suc n) s \<noteq> PFuel" for m s
  proof -
    obtain m' where "m = Suc m'" "n \<le> m'" using le by (cases m) auto
    then show ?thesis using pmembers_mono_step [of n m' s] Suc.IH ne by blast
  qed
  show ?case using v e b by blast
qed

lemma pval_fuel_mono: "pval n s \<noteq> PFuel \<Longrightarrow> n \<le> m \<Longrightarrow> pval m s = pval n s"
  using parse_fuel_mono by blast

section \<open>The decoder is total\<close>

text \<open>Termination of the decoder: \<^verbatim>\<open>json.loads\<close> never runs out of fuel; on
  every text the fuel \<open>json_fuel\<close> gives the scanner is enough for it to
  accept or reject the text.\<close>

lemma json_loads_enough_fuel: "pval (json_fuel s) (skip_ws s) \<noteq> PFuel"
proof -
  have "2 * length (skip_ws s) < json_fuel s"
    using length_skip_ws [of s] by (simp add: json_fuel_def)
  then show ?thesis using parse_enough_fuel by blast
qed

text \<open>The decoder with fuel computes the unbounded recursion of the C
  scanner: any fuel beyond the bound gives the same result as the fuel
  \<open>json_loads\<close> uses.\<close>

lemma json_loads_fuel_independent:
  "2 * length s < n \<Longrightarrow> pval n (skip_ws s) = pval (json_fuel s) (skip_ws s)"
proof -
  assume n: "2 * length s < n"
  have "2 * length (skip_ws s) < n" "2 * length (skip_ws s) < json_fuel s"
    using n length_skip_ws [of s] by (simp_all add: json_fuel_def)
  then have a: "pval n (skip_ws s) \<noteq> PFuel" and b: "pval (json_fuel s) (skip_ws s) \<noteq> PFuel"
    using parse_enough_fuel by blast+
  show ?thesis
    using pval_fuel_mono [OF a, of "max n (json_fuel s)"] pval_fuel_mono [OF b, of "max n (json_fuel s)"]
    by simp
qed

end
