(* ===== verification/Json_Tokens.thy ===== *)
theory Json_Tokens
  imports Json_Fuel
begin

text \<open>
  The tokens of the JSON text read back what the encoder of Json writes:
  a string written by \<open>json_encode_str\<close> is read back by \<open>scan_str\<close>, and the
  text \<^verbatim>\<open>int.__repr__\<close> gives an integer (\<open>int_str\<close>) is read back by
  \<open>scan_atom\<close> as that integer. A number token is read the same way when
  the text after it cannot continue a number (\<open>stops\<close>): the encoder always
  puts a comma, a newline or the end of the text there.
\<close>

section \<open>Strings\<close>

lemma hex_val_hex_char: "d < 16 \<Longrightarrow> hex_val (hex_char d) = Some d"
  by (auto simp: hex_val_def hex_char_def Let_def)

lemma of_char_eq_iff_char_of: "(k::nat) < 256 \<Longrightarrow> of_char c = k \<longleftrightarrow> c = char_of k"
  by (auto simp: char_of_nat_eq_iff)

lemma of_char_lit: "of_char c = (of_char d :: nat) \<longleftrightarrow> c = d"
  by simp

lemma scan_str_esc_char:
  "scan_str (json_esc_char c @ r) = map_option (\<lambda>(t, q). (c # t, q)) (scan_str r)"
proof -
  let ?n = "of_char c :: nat"
  have lt: "?n < 256" by (rule of_char_less_256)
  have lit: "c = d \<longleftrightarrow> ?n = of_char d" for d by simp
  consider "?n = 92" | "?n = 34" | "?n = 8" | "?n = 12" | "?n = 10" | "?n = 13" | "?n = 9"
    | "?n < 32" "?n \<noteq> 8" "?n \<noteq> 9" "?n \<noteq> 10" "?n \<noteq> 12" "?n \<noteq> 13"
    | "32 \<le> ?n" "?n \<noteq> 34" "?n \<noteq> 92"
    by linarith
  then show ?thesis
  proof cases
    case 8
    have "hex4 (CHR ''0'') (CHR ''0'') (hex_char (?n div 16)) (hex_char (?n mod 16)) = Some ?n"
      using 8 by (simp add: hex4_def hex_val_hex_char) (simp add: hex_val_def)
    with 8 lt show ?thesis
      by (simp add: json_esc_char_def Let_def)
  next
    case 9
    then have "c \<noteq> CHR 0x22" "c \<noteq> CHR 0x5C" by (auto simp: lit)
    with 9 show ?thesis
      by (simp add: json_esc_char_def Let_def)
  next case 1 then have "c = CHR 0x5C" by (simp add: lit) then show ?thesis by (simp add: json_esc_char_def simple_esc_def)
  next case 2 then have "c = CHR 0x22" by (simp add: lit) then show ?thesis by (simp add: json_esc_char_def simple_esc_def)
  next case 3 then have "c = CHR 0x08" by (simp add: lit) then show ?thesis by (simp add: json_esc_char_def simple_esc_def)
  next case 4 then have "c = CHR 0x0C" by (simp add: lit) then show ?thesis by (simp add: json_esc_char_def simple_esc_def)
  next case 5 then have "c = CHR 0x0A" by (simp add: lit) then show ?thesis by (simp add: json_esc_char_def simple_esc_def)
  next case 6 then have "c = CHR 0x0D" by (simp add: lit) then show ?thesis by (simp add: json_esc_char_def simple_esc_def)
  next case 7 then have "c = CHR 0x09" by (simp add: lit) then show ?thesis by (simp add: json_esc_char_def simple_esc_def)
  qed
qed


lemma scan_str_encode:
  "scan_str (concat (map json_esc_char s) @ CHR 0x22 # r) = Some (s, r)"
  by (induction s) (simp_all add: scan_str_esc_char)

section \<open>Where a number token ends\<close>

definition stops :: "string \<Rightarrow> bool" where
  "stops X \<longleftrightarrow> X = [] \<or> (\<not> is_digit (hd X) \<and> hd X \<notin> set ''.eE+-'')"

lemma takeWhile_append_stop:
  "\<not> (X \<noteq> [] \<and> P (hd X)) \<Longrightarrow> takeWhile P (t @ X) = takeWhile P t"
  by (cases X) (induction t; auto)+

lemma dropWhile_append_stop:
  "\<not> (X \<noteq> [] \<and> P (hd X)) \<Longrightarrow> dropWhile P (t @ X) = dropWhile P t @ X"
  by (cases X) (induction t; auto)+

lemma stops_digit: "stops X \<Longrightarrow> \<not> (X \<noteq> [] \<and> is_digit (hd X))"
  by (auto simp: stops_def)

lemma is_digit_zero: "is_digit (CHR ''0'')"
  by (simp add: is_digit_def)

lemma stops_Cons: "stops (c # X) \<longleftrightarrow> \<not> is_digit c \<and> c \<notin> set ''.eE+-''"
  by (simp add: stops_def)

lemma scan_int_part_append:
  assumes "stops X"
  shows "scan_int_part (s @ X) = map_option (\<lambda>(a, b). (a, b @ X)) (scan_int_part s)"
proof (cases s)
  case Nil
  then show ?thesis
    using assms is_digit_zero by (cases X) (auto simp: scan_int_part_def stops_Cons)
next
  case (Cons d r)
  then show ?thesis
    by (simp add: scan_int_part_def takeWhile_append_stop [of X is_digit, OF stops_digit [OF assms]]
                  dropWhile_append_stop [of X is_digit, OF stops_digit [OF assms]])
qed

lemma scan_frac_append:
  "stops X \<Longrightarrow> scan_frac (s @ X) = map_prod id (\<lambda>b. b @ X) (scan_frac s)"
  by (cases s rule: remdups_adj.cases; cases X)
     (auto simp: scan_frac_def takeWhile_append_stop dropWhile_append_stop stops_digit stops_Cons
           split: list.splits)

lemma scan_exp_append:
  "stops X \<Longrightarrow> scan_exp (s @ X) = map_prod id (\<lambda>b. b @ X) (scan_exp s)"
  by (cases s rule: remdups_adj.cases; cases X)
     (auto simp: scan_exp_def takeWhile_append_stop dropWhile_append_stop stops_digit stops_Cons
           split: list.splits)

definition scan_num_tail :: "string \<Rightarrow> string \<Rightarrow> (json \<times> string) option" where
  "scan_num_tail sg r0 =
     (case scan_int_part r0 of
        None \<Rightarrow> None
      | Some (ip, r1) \<Rightarrow>
          (let (fp, r2) = scan_frac r1; (ep, r3) = scan_exp r2
           in if fp = [] \<and> ep = []
              then Some (JInt (if sg = [] then int (digits_val ip) else - int (digits_val ip)), r3)
              else Some (JFloat (sg @ ip @ fp @ ep), r3)))"

lemma scan_number_tail:
  "scan_number s = (case s of c # r \<Rightarrow> if c = CHR ''-'' then scan_num_tail [c] r
                                       else scan_num_tail [] s
                             | [] \<Rightarrow> None)"
  by (simp add: scan_number_def scan_num_tail_def scan_int_part_def split: list.split)

lemma scan_num_tail_append:
  "stops X \<Longrightarrow> scan_num_tail sg (r @ X) = map_option (\<lambda>(v, b). (v, b @ X)) (scan_num_tail sg r)"
  by (auto simp: scan_num_tail_def scan_int_part_append scan_frac_append scan_exp_append
           split: option.split prod.split)

lemma scan_number_append:
  assumes "stops X"
  shows "scan_number (s @ X) = map_option (\<lambda>(v, b). (v, b @ X)) (scan_number s)"
proof (cases s)
  case Nil
  have "scan_num_tail [] X = None"
    using scan_num_tail_append [OF assms, of "[]" "[]"]
    by (simp add: scan_num_tail_def scan_int_part_def)
  then show ?thesis using assms Nil
    by (cases X) (auto simp: scan_number_tail stops_Cons)
next
  case (Cons c r)
  then show ?thesis
    using scan_num_tail_append [OF assms, of "[c]" r] scan_num_tail_append [OF assms, of "[]" "c # r"]
    by (cases "c = CHR ''-''") (simp_all add: scan_number_tail)
qed

lemma prefix_append_split: "prefix k (s @ X) \<Longrightarrow> prefix k s \<or> strict_prefix s k"
  by (auto simp: prefix_append strict_prefix_def)

lemma scan_atom_kw_prefix:
  assumes "strict_prefix s k"
    and "k \<in> {''null'', ''true'', ''false'', ''NaN'', ''Infinity'', ''-Infinity''}"
  shows "scan_atom s = None"
proof -
  have "s \<in> set (prefixes k) - {k}" using assms(1) by (simp add: strict_prefix_def)
  then show ?thesis using assms(2)
    by (auto simp del: in_set_prefixes
             simp: scan_atom_def scan_number_tail scan_num_tail_def scan_int_part_def is_digit_def)
qed

lemma scan_atom_append:
  assumes sc: "scan_atom s = Some (v, r)" and X: "stops X"
  shows "scan_atom (s @ X) = Some (v, r @ X)"
proof -
  have kw: "prefix k (s @ X) \<longleftrightarrow> prefix k s"
    if "k \<in> {''null'', ''true'', ''false'', ''NaN'', ''Infinity'', ''-Infinity''}" for k
    using prefix_append_split [of k s X] scan_atom_kw_prefix [OF _ that] sc by auto
  show ?thesis
    using sc scan_number_append [OF X, of s]
    by (auto simp: scan_atom_def kw split: if_splits dest: prefix_length_le)
qed

section \<open>Integers\<close>

lemma digit_char_is_digit: "d < 10 \<Longrightarrow> is_digit (digit_char d)"
  by (simp add: digit_char_def is_digit_def)

lemma digit_val_digit_char: "d < 10 \<Longrightarrow> digit_val (digit_char d) = d"
  by (simp add: digit_char_def digit_val_def)

lemma digit_char_zero_iff: "d < 10 \<Longrightarrow> digit_char d = CHR ''0'' \<longleftrightarrow> d = 0"
  by (auto simp: digit_char_def char_of_nat_eq_iff)

declare nat_str.simps [simp del]

lemma nat_str_digits: "list_all is_digit (nat_str n)"
  by (induction n rule: nat_str.induct) (subst nat_str.simps, simp add: digit_char_is_digit)

lemma nat_str_Cons: "\<exists>c r. nat_str n = c # r \<and> is_digit c \<and> (c = CHR ''0'' \<longleftrightarrow> n = 0)"
proof (induction n rule: nat_str.induct)
  case (1 n)
  show ?case
  proof (cases "n < 10")
    case True
    then show ?thesis by (simp add: nat_str.simps digit_char_is_digit digit_char_zero_iff)
  next
    case False
    then obtain c r where "nat_str (n div 10) = c # r" "is_digit c" "c = CHR ''0'' \<longleftrightarrow> n div 10 = 0"
      using "1" by auto
    then show ?thesis using False by (simp add: nat_str.simps [of n])
  qed
qed

lemma digits_val_snoc: "digits_val (xs @ [c]) = 10 * digits_val xs + digit_val c"
  by (simp add: digits_val_def)

lemma digits_val_nat_str: "digits_val (nat_str n) = n"
  by (induction n rule: nat_str.induct)
     (subst nat_str.simps, simp add: digits_val_snoc digit_val_digit_char digits_val_def)

lemma scan_int_part_nat_str: "scan_int_part (nat_str n) = Some (nat_str n, [])"
proof -
  obtain c r where cr: "nat_str n = c # r" "is_digit c" "c = CHR ''0'' \<longleftrightarrow> n = 0"
    using nat_str_Cons by blast
  have "list_all is_digit r" using nat_str_digits [of n] cr(1) by simp
  moreover have "n = 0 \<Longrightarrow> r = []" using cr(1) by (simp add: nat_str.simps digit_char_def)
  ultimately show ?thesis using cr
    by (auto simp: scan_int_part_def list_all_iff takeWhile_eq_all_conv dropWhile_eq_Nil_conv)
qed

lemma scan_num_tail_nat_str:
  "scan_num_tail sg (nat_str n) = Some (JInt (if sg = [] then int n else - int n), [])"
  by (simp add: scan_num_tail_def scan_int_part_nat_str digits_val_nat_str scan_frac_def scan_exp_def)

lemma scan_number_nat_str:
  "scan_number (nat_str n) = Some (JInt (int n), [])"
  "scan_number (CHR ''-'' # nat_str n) = Some (JInt (- int n), [])"
proof -
  obtain c r where cr: "nat_str n = c # r" "is_digit c" using nat_str_Cons by blast
  have "c \<noteq> CHR ''-''" using cr(2) by (auto simp: is_digit_def)
  then have "scan_number (nat_str n) = scan_num_tail [] (nat_str n)"
    using cr(1) by (simp add: scan_number_tail)
  then show "scan_number (nat_str n) = Some (JInt (int n), [])"
    by (simp add: scan_num_tail_nat_str)
  show "scan_number (CHR ''-'' # nat_str n) = Some (JInt (- int n), [])"
    by (simp add: scan_number_tail scan_num_tail_nat_str)
qed

lemma scan_atom_int_str: "scan_atom (int_str i) = Some (JInt i, [])"
proof -
  obtain c r where cr: "nat_str (nat \<bar>i\<bar>) = c # r" "is_digit c"
    using nat_str_Cons by blast
  have kw: "\<not> prefix k (int_str i)"
    if "k \<in> {''null'', ''true'', ''false'', ''NaN'', ''Infinity'', ''-Infinity''}" for k
    using that cr by (auto simp: int_str_def is_digit_def)
  have "scan_number (int_str i) = Some (JInt i, [])"
    using scan_number_nat_str [of "nat \<bar>i\<bar>"]
    by (cases "i < 0") (simp_all add: int_str_def)
  then show ?thesis by (simp add: scan_atom_def kw)
qed

declare nat_str.simps [simp]

end
