(* ===== verification/Json_Roundtrip.thy ===== *)
theory Json_Roundtrip
  imports Json_Tokens
begin

text \<open>
  \<^verbatim>\<open>json.loads\<close> reads back what \<^verbatim>\<open>json.dump\<close> wrote. The values for which
  this holds are those of \<open>json_ok\<close>: no object has a key twice (the decoder
  keeps the last of duplicate keys) and a float is kept as a text the scanner
  reads back whole, as every float the decoder produces is. The proof reads
  one value of the indented layout after another, with the rest of the text as
  a parameter (\<open>pval_dump\<close>), and gets the fuel \<open>json_loads\<close> uses from
  the theorems of Json_Fuel.
\<close>

declare nat_str.simps [simp del]

fun json_ok :: "json \<Rightarrow> bool" where
  "json_ok (JFloat f) \<longleftrightarrow> scan_atom f = Some (JFloat f, [])"
| "json_ok (JArray vs) \<longleftrightarrow> (\<forall>v \<in> set vs. json_ok v)"
| "json_ok (JObject kvs) \<longleftrightarrow> distinct (map fst kvs) \<and> (\<forall>kv \<in> set kvs. json_ok (snd kv))"
| "json_ok _ \<longleftrightarrow> True"

lemma scan_atom_Some_hd:
  "scan_atom s = Some p \<Longrightarrow> \<exists>c r. s = c # r \<and> (is_digit c \<or> c \<in> set ''-ntfNI'')"
  by (cases s) (auto simp: scan_atom_def scan_number_tail scan_num_tail_def scan_int_part_def
                     is_digit_zero split: if_splits option.splits)

lemma skip_ws_Cons_stop: "\<not> json_ws c \<Longrightarrow> skip_ws (c # Z) = c # Z"
  by (simp add: skip_ws_def)

lemma dropWhile_replicate_append: "P x \<Longrightarrow> dropWhile P (replicate n x @ Z) = dropWhile P Z"
  by (induction n) auto

lemma skip_ws_newline_indent: "skip_ws (newline_indent l @ Z) = skip_ws Z"
  by (simp add: skip_ws_def newline_indent_def json_ws_def dropWhile_replicate_append)

lemma int_str_hd: "\<exists>c r. int_str i = c # r \<and> (is_digit c \<or> c = CHR ''-'')"
  using nat_str_Cons [of "nat i"] by (auto simp: int_str_def)

lemma dump_hd:
  "json_ok v \<Longrightarrow> \<exists>c r. json_dump_at l v = c # r \<and> c \<in> set ''\"[{-ntfNI'' \<union> Collect is_digit"
proof (cases v)
  case (JInt i)
  then show ?thesis using int_str_hd [of i] by auto
qed (auto simp: json_encode_str_def dest: scan_atom_Some_hd)

lemma pval_atom:
  assumes "scan_atom a = Some (v, [])" and "stops X"
  shows "pval (Suc m) (a @ X) = POk v X"
proof -
  obtain c r where "a = c # r" "is_digit c \<or> c \<in> set ''-ntfNI''"
    using scan_atom_Some_hd [OF assms(1)] by blast
  moreover have "scan_atom (a @ X) = Some (v, X)" using scan_atom_append [OF assms] by simp
  ultimately show ?thesis by (auto simp: is_digit_def)
qed

lemma pval_str: "pval (Suc m) (json_encode_str s @ X) = POk (JStr s) X"
  by (simp add: json_encode_str_def scan_str_encode)

lemma stops_sep: "stops (CHR '','' # Z)" "stops (newline_indent l @ Z)"
  by (simp_all add: stops_def newline_indent_def is_digit_def)

lemma skip_ws_dump:
  "json_ok v \<Longrightarrow> skip_ws (json_dump_at l v @ Z) = json_dump_at l v @ Z"
  using dump_hd [of v l] by (auto simp: skip_ws_def json_ws_def is_digit_def)

lemma dump_not_close:
  "json_ok v \<Longrightarrow> json_dump_at l v @ Z = c # Z' \<Longrightarrow> c \<noteq> CHR '']'' \<and> c \<noteq> CHR ''}''"
  using dump_hd [of v l] by (auto simp: is_digit_def)

lemma py_join_Cons_ne: "xs \<noteq> [] \<Longrightarrow> py_join sep (x # xs) = x @ sep @ py_join sep xs"
  by (cases xs) simp_all

lemma skip_ws_join:
  assumes "xs \<noteq> []" and "f (hd xs) = c # r" and "\<not> json_ws c"
  shows "skip_ws (py_join sep (map f xs) @ Z) = py_join sep (map f xs) @ Z"
  using assms by (cases xs) (auto simp: py_join_Cons skip_ws_Cons_stop)

lemma dump_hd_ws: "json_ok v \<Longrightarrow> \<exists>c r. json_dump_at l v = c # r \<and> \<not> json_ws c"
  using dump_hd [of v l] by (auto simp: json_ws_def is_digit_def)

lemma pelems_dump:
  assumes "\<And>v n X. v \<in> set vs \<Longrightarrow> stops X \<Longrightarrow> size v < n \<Longrightarrow>
                     pval n (json_dump_at L v @ X) = POk v X"
    and "\<forall>v \<in> set vs. json_ok v" and "vs \<noteq> []" and "size_list size vs < n"
  shows "pelems n (py_join (CHR '','' # newline_indent L) (map (json_dump_at L) vs) @
                   newline_indent l @ CHR '']'' # X) = POk vs X"
  using assms
proof (induction vs arbitrary: n)
  case Nil
  then show ?case by simp
next
  case (Cons v rest)
  obtain m where n: "n = Suc m" and m: "size v < m" "size_list size rest < m"
    using Cons.prems(4) by (cases n) auto
  show ?case
  proof (cases "rest = []")
    case True
    have "pval m (json_dump_at L v @ newline_indent l @ CHR '']'' # X) =
          POk v (newline_indent l @ CHR '']'' # X)"
      using Cons.prems(1) [of v] stops_sep(2) m by simp
    then show ?thesis using True n by (simp add: skip_ws_newline_indent skip_ws_Cons_stop json_ws_def)
  next
    case False
    let ?body = "py_join (CHR '','' # newline_indent L) (map (json_dump_at L) rest) @
                 newline_indent l @ CHR '']'' # X"
    have v: "pval m (json_dump_at L v @ CHR '','' # newline_indent L @ ?body) =
             POk v (CHR '','' # newline_indent L @ ?body)"
      using Cons.prems(1) [of v] stops_sep(1) m by simp
    obtain c r where "json_dump_at L (hd rest) = c # r" "\<not> json_ws c"
      using dump_hd_ws [of "hd rest" L] Cons.prems(2) False by auto
    then have "skip_ws (newline_indent L @ ?body) = ?body"
      using False by (simp add: skip_ws_newline_indent skip_ws_join)
    moreover have "pelems m ?body = POk rest X"
      using Cons.IH [of m] Cons.prems(1,2) False m(2) by simp
    ultimately show ?thesis
      using v n False by (simp add: py_join_Cons_ne skip_ws_Cons_stop json_ws_def)
  qed
qed

definition member_text :: "nat \<Rightarrow> string \<times> json \<Rightarrow> string" where
  "member_text L kv = json_encode_str (fst kv) @ '': '' @ json_dump_at L (snd kv)"

lemma pmembers_head:
  assumes "pval m (json_dump_at L v @ Y) = POk v Y" and "json_ok v"
  shows "pmembers (Suc m) (member_text L (k, v) @ Y) =
           (case skip_ws Y of
             [] \<Rightarrow> PFail
           | e # q \<Rightarrow> if e = CHR '','' then map_parsed (Cons (k, v)) (pmembers m (skip_ws q))
                     else if e = CHR ''}'' then POk [(k, v)] q else PFail)"
proof -
  have "skip_ws (CHR '' '' # json_dump_at L v @ Y) = json_dump_at L v @ Y"
    using skip_ws_dump [OF assms(2)] by (simp add: skip_ws_def json_ws_def)
  then show ?thesis
    using assms(1) by (simp add: member_text_def json_encode_str_def scan_str_encode
                                  skip_ws_Cons_stop json_ws_def)
qed

lemma pmembers_dump:
  assumes "\<And>kv n X. kv \<in> set kvs \<Longrightarrow> stops X \<Longrightarrow> size (snd kv) < n \<Longrightarrow>
                      pval n (json_dump_at L (snd kv) @ X) = POk (snd kv) X"
    and "\<forall>kv \<in> set kvs. json_ok (snd kv)" and "kvs \<noteq> []"
    and "size_list (size_prod (\<lambda>_. 0) size) kvs < n"
  shows "pmembers n (py_join (CHR '','' # newline_indent L) (map (member_text L) kvs) @
                     newline_indent l @ CHR ''}'' # X) = POk kvs X"
  using assms
proof (induction kvs arbitrary: n)
  case Nil
  then show ?case by simp
next
  case (Cons kv rest)
  obtain k v where kv: "kv = (k, v)" by fastforce
  obtain m where n: "n = Suc m" and m: "size v < m" "size_list (size_prod (\<lambda>_. 0) size) rest < m"
    using Cons.prems(4) kv by (cases n) auto
  have ok: "json_ok v" using Cons.prems(2) kv by simp
  show ?case
  proof (cases "rest = []")
    case True
    have "pval m (json_dump_at L v @ newline_indent l @ CHR ''}'' # X) =
          POk v (newline_indent l @ CHR ''}'' # X)"
      using Cons.prems(1) [of kv] stops_sep(2) m kv by simp
    then show ?thesis using True n kv pmembers_head [OF _ ok]
      by (simp add: skip_ws_newline_indent skip_ws_Cons_stop json_ws_def)
  next
    case False
    let ?body = "py_join (CHR '','' # newline_indent L) (map (member_text L) rest) @
                 newline_indent l @ CHR ''}'' # X"
    have v: "pval m (json_dump_at L v @ CHR '','' # newline_indent L @ ?body) =
             POk v (CHR '','' # newline_indent L @ ?body)"
      using Cons.prems(1) [of kv] stops_sep(1) m kv by simp
    have "skip_ws (newline_indent L @ ?body) = ?body"
      using False by (simp add: skip_ws_newline_indent skip_ws_join member_text_def
                                json_encode_str_def json_ws_def)
    moreover have "pmembers m ?body = POk rest X"
      using Cons.IH [of m] Cons.prems(1,2) False m(2) by simp
    ultimately show ?thesis
      using pmembers_head [OF v ok] n False kv
      by (simp add: py_join_Cons_ne skip_ws_Cons_stop json_ws_def)
  qed
qed

lemma json_dump_at_JObject:
  "json_dump_at l (JObject kvs) =
     (if kvs = [] then ''{}''
      else CHR ''{'' # newline_indent (Suc l) @
           py_join (CHR '','' # newline_indent (Suc l)) (map (member_text (Suc l)) kvs) @
           newline_indent l @ ''}'')"
  by (simp add: member_text_def [abs_def])

lemma pval_dump_atom:
  "scan_atom (json_dump_at l v) = Some (v, []) \<Longrightarrow> stops X \<Longrightarrow> 0 < n \<Longrightarrow>
   pval n (json_dump_at l v @ X) = POk v X"
  using pval_atom by (cases n) auto

lemma pval_dump:
  "json_ok v \<Longrightarrow> stops X \<Longrightarrow> size v < n \<Longrightarrow> pval n (json_dump_at l v @ X) = POk v X"
proof (induction v arbitrary: n l X)
  case (JArray vs)
  obtain m where n: "n = Suc m" and m: "size_list size vs < m" using JArray.prems(3) by (cases n) auto
  show ?case
  proof (cases "vs = []")
    case False
    let ?body = "py_join (CHR '','' # newline_indent (Suc l)) (map (json_dump_at (Suc l)) vs) @
                 newline_indent l @ CHR '']'' # X"
    obtain c r where c: "json_dump_at (Suc l) (hd vs) = c # r"
      "c \<in> set ''\"[{-ntfNI'' \<union> Collect is_digit"
      using dump_hd [of "hd vs" "Suc l"] JArray.prems(1) False by auto
    have "\<not> json_ws c" using c(2) by (auto simp: json_ws_def is_digit_def)
    then have "skip_ws (newline_indent (Suc l) @ ?body) = ?body"
      using skip_ws_join [of vs "json_dump_at (Suc l)", OF False c(1)] by (simp add: skip_ws_newline_indent)
    moreover have "pelems m ?body = POk vs X"
      using pelems_dump [of vs "Suc l" m l X] JArray.IH JArray.prems(1) False m by simp
    moreover have "hd ?body = c" using c False by (cases vs) (auto simp: py_join_Cons)
    ultimately show ?thesis using n False c(2)
      by (cases ?body) (auto simp: is_digit_def)
  qed (simp add: n skip_ws_Cons_stop json_ws_def)
next
  case (JObject kvs)
  obtain m where n: "n = Suc m" and m: "size_list (size_prod (\<lambda>_. 0) size) kvs < m"
    using JObject.prems(3) by (cases n) auto
  show ?case
  proof (cases "kvs = []")
    case False
    let ?body = "py_join (CHR '','' # newline_indent (Suc l)) (map (member_text (Suc l)) kvs) @
                 newline_indent l @ CHR ''}'' # X"
    have h: "member_text (Suc l) (hd kvs) = CHR 0x22 # tl (member_text (Suc l) (hd kvs))"
      by (simp add: member_text_def json_encode_str_def)
    then have "skip_ws (newline_indent (Suc l) @ ?body) = ?body"
      using False by (auto simp: skip_ws_newline_indent json_ws_def intro!: skip_ws_join)
    have ih: "pval n' (json_dump_at (Suc l) (snd kv) @ X') = POk (snd kv) X'"
      if "kv \<in> set kvs" "stops X'" "size (snd kv) < n'" for kv n' X'
    proof -
      have "json_ok (snd kv)" using JObject.prems(1) that(1) by simp
      then show ?thesis using JObject.IH [of kv "snd kv"] that by (cases kv) simp
    qed
    moreover have "pmembers m ?body = POk kvs X"
      using pmembers_dump [of kvs "Suc l" m l X] ih JObject.prems(1) False m by auto
    moreover have "hd ?body = CHR 0x22"
      using False by (cases kvs) (auto simp: py_join_Cons member_text_def json_encode_str_def)
    moreover have "json_dump_at l (JObject kvs) @ X = CHR ''{'' # newline_indent (Suc l) @ ?body"
      unfolding json_dump_at_JObject using False by simp
    ultimately show ?thesis using n False JObject.prems(1)
      by (cases ?body) (auto simp: skip_ws_newline_indent skip_ws_Cons_stop json_ws_def)
  qed (simp add: n skip_ws_Cons_stop json_ws_def)
next
  case (JStr s)
  then obtain m where "n = Suc m" by (cases n) auto
  then show ?case by (simp del: pval.simps add: pval_str)
next
  case (JInt i)
  then show ?case by (intro pval_dump_atom) (simp_all add: scan_atom_int_str)
next
  case (JFloat f)
  then show ?case by (intro pval_dump_atom) simp_all
qed (rule pval_dump_atom; simp add: scan_atom_def)+

theorem json_loads_dump: "json_ok v \<Longrightarrow> json_loads (json_dump v) = Some v"
proof -
  assume ok: "json_ok v"
  let ?s = "json_dump v"
  have ws: "skip_ws ?s = ?s" using skip_ws_dump [OF ok, of 0 "[]"] by (simp add: json_dump_def)
  have p: "pval (Suc (size v)) ?s = POk v []"
    using pval_dump [OF ok, of "[]" "Suc (size v)" 0] by (simp add: json_dump_def stops_def)
  have "2 * length ?s < json_fuel ?s" by (simp add: json_fuel_def)
  then have f: "pval (json_fuel ?s) ?s \<noteq> PFuel"
    using parse_enough_fuel by blast
  have "pval (json_fuel ?s) ?s = POk v []"
    using pval_fuel_mono [OF f, of "max (json_fuel ?s) (Suc (size v))"]
          pval_fuel_mono [of "Suc (size v)" ?s "max (json_fuel ?s) (Suc (size v))"] p by simp
  then show ?thesis using ws by (simp add: json_loads_def skip_ws_def)
qed

declare nat_str.simps [simp]

section \<open>What the decoder returns\<close>

lemma set_update_subset: "set (AList.update k v d) \<subseteq> insert (k, v) (set d)"
  by (induction d) auto

lemma set_foldl_update:
  "set (foldl (\<lambda>d (k, v). AList.update k v d) d ps) \<subseteq> set d \<union> set ps"
proof (induction ps arbitrary: d)
  case (Cons kv ps)
  obtain k v where kv: "kv = (k, v)" by fastforce
  show ?case using Cons.IH [of "AList.update k v d"] set_update_subset [of k v d] kv by auto
qed simp

lemma set_dict_of_pairs: "set (dict_of_pairs ps) \<subseteq> set ps"
  using set_foldl_update [of "[]" ps] by (simp add: dict_of_pairs_def)

lemma in_dict_of_pairs: "x \<in> set (dict_of_pairs ps) \<Longrightarrow> x \<in> set ps"
  using set_dict_of_pairs by blast

lemma wf_in_dict: "(a, b) \<in> set (dict_of_pairs ps) \<Longrightarrow> \<forall>p \<in> set ps. wf_json (snd p) \<Longrightarrow> wf_json b"
  by (fastforce dest: in_dict_of_pairs)

lemma parse_wf:
  "(\<forall>s v r. pval n s = POk v r \<longrightarrow> wf_json v) \<and>
   (\<forall>s vs r. pelems n s = POk vs r \<longrightarrow> (\<forall>v \<in> set vs. wf_json v)) \<and>
   (\<forall>s ps r. pmembers n s = POk ps r \<longrightarrow> (\<forall>p \<in> set ps. wf_json (snd p)))"
proof (induction n)
  case (Suc n)
  then have IHv: "\<And>s v r. pval n s = POk v r \<Longrightarrow> wf_json v"
    and IHe: "\<And>s vs r. pelems n s = POk vs r \<Longrightarrow> \<forall>v \<in> set vs. wf_json v"
    and IHm: "\<And>s ps r. pmembers n s = POk ps r \<Longrightarrow> \<forall>p \<in> set ps. wf_json (snd p)"
    by blast+
  have atom: "scan_atom s = Some (v, r) \<Longrightarrow> wf_json v" for s v r
    by (auto simp: scan_atom_def scan_number_def Let_def split: if_splits option.splits prod.splits)
  have v: "wf_json v" if "pval (Suc n) s = POk v r" for s v r
    using that
    by (auto simp: distinct_dict_of_pairs split: list.splits if_splits option.splits prod.splits
             dest!: IHe IHm atom)
       (metis wf_in_dict)
  have e: "\<forall>v \<in> set vs. wf_json v" if "pelems (Suc n) s = POk vs r" for s vs r
    using that by (auto split: list.splits if_splits parsed.splits dest!: IHv IHe)
  have m: "\<forall>p \<in> set ps. wf_json (snd p)" if "pmembers (Suc n) s = POk ps r" for s ps r
    using that
    by (auto split: list.splits if_splits parsed.splits option.splits prod.splits dest!: IHv IHm)
  show ?case using v e m by blast
qed simp

subsection \<open>Numbers the decoder reads print back\<close>

text \<open>A float token the scanner returns, followed by text that cannot
  continue a number, scans back to itself on its own; with the invariant
  \<open>json_ok\<close> holding of every decoded value, a value \<^verbatim>\<open>json.load\<close> accepts
  is one \<^verbatim>\<open>json.dump\<close> writes back readably.\<close>

lemma scan_int_part_consumes: "scan_int_part s = Some (a, b) \<Longrightarrow> s = a @ b"
  by (auto simp: scan_int_part_def split: list.splits if_splits)

lemma scan_frac_consumes: "scan_frac s = (a, b) \<Longrightarrow> s = a @ b"
  by (auto simp: scan_frac_def split: list.splits if_splits)

lemma scan_exp_consumes: "scan_exp s = (a, b) \<Longrightarrow> s = a @ b"
  by (auto simp: scan_exp_def Let_def split: list.splits if_splits prod.splits)

lemma scan_num_tail_consumes:
  "scan_num_tail sg s = Some (JFloat f, r) \<Longrightarrow> sg @ s = f @ r"
  by (auto simp: scan_num_tail_def split: option.splits prod.splits if_splits
           dest!: scan_int_part_consumes scan_frac_consumes scan_exp_consumes)

lemma scan_number_consumes: "scan_number s = Some (JFloat f, r) \<Longrightarrow> s = f @ r"
  by (cases s) (auto simp: scan_number_tail split: if_splits dest!: scan_num_tail_consumes)

lemma scan_number_no_kw:
  assumes "scan_number f = Some p"
    and "k \<in> {''null'', ''true'', ''false'', ''NaN'', ''Infinity'', ''-Infinity''}"
  shows "\<not> prefix k f"
proof
  assume "prefix k f"
  then obtain t where "f = k @ t" by (auto simp: prefix_def)
  then show False using assms
    by (auto simp: scan_number_tail scan_num_tail_def scan_int_part_def is_digit_def)
qed

lemma scan_atom_float_token:
  assumes "scan_atom s = Some (JFloat f, r)" and "stops r"
  shows "scan_atom f = Some (JFloat f, [])"
proof (cases "scan_number s = Some (JFloat f, r) \<and> scan_atom s = scan_number s")
  case True
  then have s: "s = f @ r" by (blast dest: scan_number_consumes)
  obtain b where "scan_number f = Some (JFloat f, b)" "b @ r = r"
    using scan_number_append [OF assms(2), of f] True s by auto
  then have n: "scan_number f = Some (JFloat f, [])" by simp
  have "\<not> prefix k f" if "k \<in> {''null'', ''true'', ''false'', ''NaN'', ''Infinity'', ''-Infinity''}" for k
    using scan_number_no_kw [OF n that] .
  then show ?thesis using n by (simp add: scan_atom_def)
next
  case False
  then show ?thesis using assms(1)
    by (auto simp: scan_atom_def split: if_splits)
qed

lemma stops_ws: "json_ws c \<Longrightarrow> stops (c # r)"
  by (auto simp: stops_def json_ws_def is_digit_def)

lemma stops_skip_ws:
  "skip_ws r = [] \<Longrightarrow> stops r"
  "skip_ws r = d # q \<Longrightarrow> d \<in> set '',]}'' \<Longrightarrow> stops r"
proof -
  show "stops r" if "skip_ws r = []"
  proof (cases r)
    case (Cons c r')
    then show ?thesis using that skip_ws_Cons_stop [of c r'] by (cases "json_ws c") (auto intro: stops_ws)
  qed (simp add: stops_def)
  show "stops r" if "skip_ws r = d # q" "d \<in> set '',]}''"
  proof (cases r)
    case (Cons c r')
    show ?thesis
    proof (cases "json_ws c")
      case False
      then have "c = d" using that(1) Cons skip_ws_Cons_stop [of c r'] by simp
      then show ?thesis using that(2) Cons by (auto simp: stops_Cons is_digit_def)
    qed (simp add: Cons stops_ws)
  qed (simp add: stops_def)
qed

lemma scan_atom_scalar:
  "scan_atom s \<noteq> Some (JArray xs, r)" "scan_atom s \<noteq> Some (JObject kvs, r)"
  by (auto simp: scan_atom_def scan_number_tail scan_num_tail_def Let_def
           split: if_splits option.splits prod.splits list.splits)

lemma ok_in_dict:
  "(a, b) \<in> set (dict_of_pairs ps) \<Longrightarrow> \<forall>p \<in> set ps. json_ok (snd p) \<Longrightarrow> json_ok b"
  by (fastforce dest: in_dict_of_pairs)

lemma parse_ok:
  "(\<forall>s v r. pval n s = POk v r \<longrightarrow> stops r \<longrightarrow> json_ok v) \<and>
   (\<forall>s vs r. pelems n s = POk vs r \<longrightarrow> (\<forall>v \<in> set vs. json_ok v)) \<and>
   (\<forall>s ps r. pmembers n s = POk ps r \<longrightarrow> (\<forall>p \<in> set ps. json_ok (snd p)))"
proof (induction n)
  case (Suc n)
  then have IHv: "\<And>s v r. pval n s = POk v r \<Longrightarrow> stops r \<Longrightarrow> json_ok v"
    and IHe: "\<And>s vs r. pelems n s = POk vs r \<Longrightarrow> \<forall>v \<in> set vs. json_ok v"
    and IHm: "\<And>s ps r. pmembers n s = POk ps r \<Longrightarrow> \<forall>p \<in> set ps. json_ok (snd p)"
    by blast+
  have IHs: "json_ok v" if "pval n s = POk v r" "skip_ws r = d # q" "d \<in> set '',]}''" for s v r d q
    using IHv [OF that(1) stops_skip_ws(2) [OF that(2,3)]] .
  have atom: "json_ok v" if "scan_atom s = Some (v, r)" "stops r" for s v r
    using that scan_atom_float_token [OF _ that(2)] scan_atom_scalar by (cases v) auto
  have v: "json_ok v" if H: "pval (Suc n) s = POk v r" "stops r" for s v r
  proof (cases s)
    case (Cons c s')
    consider (str) "c = CHR 0x22" | (obj) "c = CHR ''{''" | (arr) "c = CHR ''[''"
      | (scalar) "c \<noteq> CHR 0x22" "c \<noteq> CHR ''{''" "c \<noteq> CHR ''[''" by blast
    then show ?thesis
    proof cases
      case str
      then show ?thesis using H(1) Cons by (auto split: option.splits)
    next
      case obj
      then show ?thesis using H(1) Cons
        by (auto simp: distinct_dict_of_pairs split: list.splits if_splits dest!: IHm)
           (fastforce dest: in_dict_of_pairs)
    next
      case arr
      then show ?thesis using H(1) Cons by (auto split: list.splits if_splits dest!: IHe)
    next
      case scalar
      then show ?thesis using H Cons by (auto split: option.splits intro: atom)
    qed
  qed (use H in simp)
  have e: "\<forall>v \<in> set vs. json_ok v" if H: "pelems (Suc n) s = POk vs r" for s vs r
  proof (cases "pval n s")
    case (POk v r0)
    then obtain d q where c: "skip_ws r0 = d # q" and d: "d = CHR '','' \<or> d = CHR '']''"
      using H by (cases "skip_ws r0") (auto split: if_splits)
    have "json_ok v" using IHs [OF POk c] d by auto
    then show ?thesis using H POk c d by (auto dest!: IHe)
  qed (use H in auto)
  have m: "\<forall>p \<in> set ps. json_ok (snd p)" if H: "pmembers (Suc n) s = POk ps r" for s ps r
  proof (cases s)
    case (Cons c r1)
    then obtain k q d q' where
      h: "c = CHR 0x22" "scan_str r1 = Some (k, q)" "skip_ws q = d # q'" "d = CHR '':''"
      using H by (auto split: if_splits option.splits list.splits)
    show ?thesis
    proof (cases "pval n (skip_ws q')")
      case (POk v r')
      then obtain e q'' where e: "skip_ws r' = e # q''" "e = CHR '','' \<or> e = CHR ''}''"
        using H Cons h by (cases "skip_ws r'") (auto split: if_splits)
      have "json_ok v" using IHs [OF POk e(1)] e(2) by auto
      then show ?thesis using H Cons h POk e by (fastforce dest!: IHm)
    qed (use H Cons h in auto)
  qed (use H in auto)
  show ?case using v e m by blast
qed simp

lemma json_loads_ok: "json_loads s = Some v \<Longrightarrow> json_ok v"
  using parse_ok [of "json_fuel s"] stops_skip_ws(1)
  by (auto simp: json_loads_def split: parsed.splits if_splits)

text \<open>The equations that run the decoder on a concrete text.\<close>

lemmas json_eval = json_loads_def json_fuel_def eval_nat_numeral skip_ws_def json_ws_def
  scan_atom_def scan_number_def scan_int_part_def scan_frac_def scan_exp_def is_digit_def
  digits_val_def digit_val_def dict_of_pairs_def simple_esc_def

text \<open>Type of the decoder's results: every value \<^verbatim>\<open>json.loads\<close> returns
  is well formed, no object in it has a key twice; of duplicate keys in the
  text the last one is kept (\<^verbatim>\<open>dict(pairs)\<close>).\<close>

lemma json_loads_wf: "json_loads s = Some v \<Longrightarrow> wf_json v"
  using parse_wf [of "json_fuel s"] by (auto simp: json_loads_def split: parsed.splits if_splits)

end
