(* ===== verification/World.thy ===== *)
theory World
  imports Json_Roundtrip
begin

text \<open>
  What the program sees of its environment: the files of the working
  directory and the lines it prints. A file is either UTF-8 text (given by
  its decoded content), bytes that are not valid UTF-8, or a path that exists
  but cannot be opened (no permission, or a directory): \<^verbatim>\<open>open()\<close> raises
  \<^verbatim>\<open>OSError\<close> on it for reading and for writing. Standard output is the list
  of the \<^verbatim>\<open>print\<close> calls made so far, each named by a constructor of
  \<open>msg\<close> that says which call of src/ it is, with the values it prints.
\<close>

datatype fentry = Regular string | Undecodable | NoAccess

type_synonym disk = "string \<rightharpoonup> fentry"

datatype msg =
    LoadFailed py_exc          \<comment> \<open>database.py:37\<close>
  | SaveFailed                 \<comment> \<open>database.py:56\<close>
  | EmptyText                  \<comment> \<open>utils.py:39\<close>
  | Added nat                  \<comment> \<open>utils.py:45\<close>
  | ListEmpty                  \<comment> \<open>utils.py:59\<close>
  | Rule                       \<comment> \<open>the line of \<^verbatim>\<open>=\<close> signs, utils.py and main.py\<close>
  | ListTitle                  \<comment> \<open>utils.py:63\<close>
  | ItemHead nat json          \<comment> \<open>utils.py:67 and 148\<close>
  | ItemText json              \<comment> \<open>utils.py:68 and 149\<close>
  | ListTotal nat              \<comment> \<open>utils.py:71\<close>
  | Deleted int                \<comment> \<open>utils.py:89\<close>
  | NotFound int               \<comment> \<open>utils.py:92\<close>
  | NothingFound               \<comment> \<open>utils.py:140\<close>
  | SearchTitle nat            \<comment> \<open>utils.py:144\<close>
  | Welcome                    \<comment> \<open>main.py:88\<close>
  | LoadedCount nat            \<comment> \<open>main.py:94\<close>
  | MenuText                   \<comment> \<open>main.py:14-22, the body of \<^verbatim>\<open>print_menu\<close>\<close>
  | AddHeading                 \<comment> \<open>main.py:32\<close>
  | SearchHeading              \<comment> \<open>main.py:75\<close>
  | BadNumber                  \<comment> \<open>main.py:63\<close>
  | Cancelled                  \<comment> \<open>main.py:65\<close>
  | EmptyKeyword               \<comment> \<open>main.py:79\<close>
  | Goodbye                    \<comment> \<open>main.py:115 and 122\<close>
  | BadChoice                  \<comment> \<open>main.py:119\<close>
  | ErrorOccurred py_exc       \<comment> \<open>main.py:126\<close>

end
