(* ===== verification/Database.thy ===== *)
theory Database
  imports World
begin

text \<open>
  The storage component, class \<^verbatim>\<open>Database\<close> of src/database.py. The object
  has two fields, \<^verbatim>\<open>filename\<close> and \<^verbatim>\<open>notes\<close>; the record \<open>database\<close> holds
  them. Every method runs in the process state \<open>proc\<close>: the one
  \<^verbatim>\<open>Database\<close> object of the program, the disk and standard output. A method
  is a function from the state to its return value (a \<open>py_result\<close> where it
  can raise) and the state afterwards; the names carry the prefix \<open>db_\<close> where
  src/utils.py has a function of the same name.
\<close>

record database =
  filename :: string
  db_notes :: json

record proc =
  db :: database
  disk :: disk
  out :: "msg list"

definition print_msg :: "msg \<Rightarrow> proc \<Rightarrow> proc" where
  "print_msg m p = p\<lparr>out := out p @ [m]\<rparr>"

definition set_notes :: "json \<Rightarrow> proc \<Rightarrow> proc" where
  "set_notes v p = p\<lparr>db := (db p)\<lparr>db_notes := v\<rparr>\<rparr>"

section \<open>The methods\<close>

text \<open>\<^verbatim>\<open>__init__(filename)\<close>: the given file name and an empty list.\<close>

definition Database_init :: "string \<Rightarrow> database" where
  "Database_init fn = \<lparr>filename = fn, db_notes = JArray []\<rparr>"

text \<open>
  \<^verbatim>\<open>load()\<close>: a missing file gives the empty list. An existing file is
  opened as UTF-8 text and decoded with \<^verbatim>\<open>json.load\<close>; \<^verbatim>\<open>OSError\<close> and
  \<^verbatim>\<open>JSONDecodeError\<close> are caught, printed, and give the empty list. Whatever
  value the file holds becomes \<^verbatim>\<open>self.notes\<close>, list or not. Bytes that are
  not UTF-8 raise \<^verbatim>\<open>UnicodeDecodeError\<close>, which the \<^verbatim>\<open>except\<close> clause
  does not name: it leaves \<^verbatim>\<open>load\<close> and \<^verbatim>\<open>self.notes\<close> keeps its value.
\<close>

definition db_load :: "proc \<Rightarrow> json py_result \<times> proc" where
  "db_load p =
     (case disk p (filename (db p)) of
       None \<Rightarrow> (Inr (JArray []), set_notes (JArray []) p)
     | Some NoAccess \<Rightarrow> (Inr (JArray []), set_notes (JArray []) (print_msg (LoadFailed IOError) p))
     | Some Undecodable \<Rightarrow> (Inl UnicodeDecodeError, p)
     | Some (Regular txt) \<Rightarrow>
         (case json_loads txt of
           None \<Rightarrow> (Inr (JArray []), set_notes (JArray []) (print_msg (LoadFailed JSONDecodeError) p))
         | Some v \<Rightarrow> (Inr v, set_notes v p)))"

text \<open>\<^verbatim>\<open>save()\<close>: the whole value is written over the file; \<^verbatim>\<open>OSError\<close> is
  caught and printed, and the result says whether the write happened.\<close>

definition db_save :: "proc \<Rightarrow> bool \<times> proc" where
  "db_save p =
     (if disk p (filename (db p)) = Some NoAccess then (False, print_msg SaveFailed p)
      else (True, p\<lparr>disk := (disk p)(filename (db p) \<mapsto> Regular (json_dump (db_notes (db p))))\<rparr>))"

definition db_get_all_notes :: "proc \<Rightarrow> json" where
  "db_get_all_notes p = db_notes (db p)"

text \<open>\<^verbatim>\<open>add_note(note)\<close>: \<^verbatim>\<open>self.notes.append(note)\<close>, then \<^verbatim>\<open>save()\<close>, whose
  result is dropped. Only a list has \<^verbatim>\<open>append\<close>.\<close>

definition db_add_note :: "json \<Rightarrow> proc \<Rightarrow> unit py_result \<times> proc" where
  "db_add_note n p =
     (case db_notes (db p) of
       JArray vs \<Rightarrow> (Inr (), snd (db_save (set_notes (JArray (vs @ [n])) p)))
     | _ \<Rightarrow> (Inl AttributeError, p))"

text \<open>\<^verbatim>\<open>remove_note(index)\<close>: the chained comparison
  \<^verbatim>\<open>0 <= index < len(self.notes)\<close> tests \<^verbatim>\<open>0 <= index\<close> first and
  evaluates \<^verbatim>\<open>len\<close> only when it holds; in range, \<^verbatim>\<open>self.notes.pop(index)\<close> and \<^verbatim>\<open>save()\<close>. On a dict, \<^verbatim>\<open>pop\<close> of
  an integer key raises \<^verbatim>\<open>KeyError\<close> (JSON keys are strings); a string has
  no \<^verbatim>\<open>pop\<close>.\<close>

definition db_remove_note :: "int \<Rightarrow> proc \<Rightarrow> bool py_result \<times> proc" where
  "db_remove_note i p =
     (if \<not> 0 \<le> i then (Inr False, p)
      else
        (case py_len (db_notes (db p)) of
          Inl e \<Rightarrow> (Inl e, p)
        | Inr n \<Rightarrow>
            if i < int n then
              (case db_notes (db p) of
                JArray vs \<Rightarrow> (Inr True, snd (db_save (set_notes (JArray (pop_at vs (nat i))) p)))
              | JObject _ \<Rightarrow> (Inl KeyError, p)
              | _ \<Rightarrow> (Inl AttributeError, p))
            else (Inr False, p)))"

definition db_clear_all :: "proc \<Rightarrow> proc" where
  "db_clear_all p = snd (db_save (set_notes (JArray []) p))"

definition db_get_notes_count :: "proc \<Rightarrow> nat py_result" where
  "db_get_notes_count p = py_len (db_notes (db p))"

section \<open>Invariant and abstraction\<close>

text \<open>
  The invariant the rest of the program relies on: \<^verbatim>\<open>self.notes\<close> is a list.
  \<^verbatim>\<open>__init__\<close>, \<^verbatim>\<open>clear_all\<close>, a failed or missing \<^verbatim>\<open>load\<close>, and every
  mutation of a list keep it; only a \<^verbatim>\<open>load\<close> of a file whose value is not a
  list breaks it. The abstraction of a state is that list, and \<open>persisted\<close>
  says that the file holds exactly its encoding.
\<close>

fun json_list :: "json \<Rightarrow> json list option" where
  "json_list (JArray vs) = Some vs"
| "json_list _ = None"

definition notes_list :: "proc \<Rightarrow> json list option" where
  "notes_list p = json_list (db_notes (db p))"

definition persisted :: "proc \<Rightarrow> bool" where
  "persisted p \<longleftrightarrow> disk p (filename (db p)) = Some (Regular (json_dump (db_notes (db p))))"

definition writable :: "proc \<Rightarrow> bool" where
  "writable p \<longleftrightarrow> disk p (filename (db p)) \<noteq> Some NoAccess"

lemma set_notes_simps [simp]:
  "db_notes (db (set_notes v p)) = v"
  "filename (db (set_notes v p)) = filename (db p)"
  "disk (set_notes v p) = disk p"
  "out (set_notes v p) = out p"
  by (simp_all add: set_notes_def)

lemma print_msg_simps [simp]:
  "db (print_msg m p) = db p"
  "disk (print_msg m p) = disk p"
  "out (print_msg m p) = out p @ [m]"
  by (simp_all add: print_msg_def)

lemma writable_set_notes [simp]: "writable (set_notes v p) \<longleftrightarrow> writable p"
  by (simp add: writable_def)

lemma db_save_writable:
  "writable p \<Longrightarrow>
   db_save p = (True, p\<lparr>disk := (disk p)(filename (db p) \<mapsto> Regular (json_dump (db_notes (db p))))\<rparr>)"
  by (simp add: db_save_def writable_def)

lemma db_save_not_writable:
  "\<not> writable p \<Longrightarrow> db_save p = (False, print_msg SaveFailed p)"
  by (simp add: db_save_def writable_def)

lemma db_save_db [simp]: "db (snd (db_save p)) = db p"
  by (simp add: db_save_def)

lemma db_save_set_notes:
  "writable p \<Longrightarrow>
   snd (db_save (set_notes v p)) =
     p\<lparr>db := (db p)\<lparr>db_notes := v\<rparr>, disk := (disk p)(filename (db p) \<mapsto> Regular (json_dump v))\<rparr>"
  by (simp add: db_save_def writable_def set_notes_def)

lemma db_save_set_notes_fail:
  "\<not> writable p \<Longrightarrow> snd (db_save (set_notes v p)) = print_msg SaveFailed (set_notes v p)"
  by (simp add: db_save_not_writable)

lemma db_save_persisted: "writable p \<Longrightarrow> persisted (snd (db_save p))"
  by (simp add: db_save_writable persisted_def)

lemma db_save_writable_iff [simp]: "writable (snd (db_save p)) \<longleftrightarrow> writable p"
  by (auto simp: db_save_def writable_def)

lemma db_add_note_JArray:
  "db_notes (db p) = JArray vs \<Longrightarrow>
   db_add_note n p = (Inr (), snd (db_save (set_notes (JArray (vs @ [n])) p)))"
  by (simp add: db_add_note_def)

lemma db_remove_note_JArray:
  "db_notes (db p) = JArray vs \<Longrightarrow>
   db_remove_note i p =
     (if 0 \<le> i \<and> i < int (length vs)
      then (Inr True, snd (db_save (set_notes (JArray (pop_at vs (nat i))) p)))
      else (Inr False, p))"
  by (simp add: db_remove_note_def)

lemma set_notes_same [simp]: "set_notes (db_notes (db p)) p = p"
  by (simp add: set_notes_def)

lemma db_load_persisted:
  "persisted p \<Longrightarrow> json_ok (db_notes (db p)) \<Longrightarrow> db_load p = (Inr (db_notes (db p)), p)"
  by (simp add: db_load_def persisted_def json_loads_dump)

lemma db_load_Inr:
  "db_load p = (Inr v, q) \<Longrightarrow> db_notes (db q) = v \<and> json_ok v"
  by (auto simp: db_load_def split: option.splits fentry.splits dest: json_loads_ok)

section \<open>Properties of the methods\<close>

text \<open>A concrete state for the witnesses: the file \<open>n.json\<close> holds
  \<open>notes\<close>, the store one \<^verbatim>\<open>null\<close>.\<close>

definition demo_proc :: "disk \<Rightarrow> json list \<Rightarrow> proc" where
  "demo_proc d vs = \<lparr>db = \<lparr>filename = ''n.json'', db_notes = JArray vs\<rparr>, disk = d, out = []\<rparr>"

lemma demo_proc_simps [simp]:
  "db_notes (db (demo_proc d vs)) = JArray vs"
  "filename (db (demo_proc d vs)) = ''n.json''"
  "disk (demo_proc d vs) = d"
  "out (demo_proc d vs) = []"
  by (simp_all add: demo_proc_def)

datatype db_op = OpAdd json | OpRemove int

fun db_step :: "db_op \<Rightarrow> proc \<Rightarrow> bool py_result \<times> proc" where
  "db_step (OpAdd n) p = (case db_add_note n p of (r, q) \<Rightarrow> (map_sum id (\<lambda>_. True) r, q))"
| "db_step (OpRemove i) p = db_remove_note i p"

fun db_run :: "db_op list \<Rightarrow> proc \<Rightarrow> bool py_result list \<times> proc" where
  "db_run [] p = ([], p)"
| "db_run (op # ops) p =
     (case db_step op p of (r, p') \<Rightarrow> (case db_run ops p' of (rs, q) \<Rightarrow> (r # rs, q)))"

fun is_add :: "db_op \<Rightarrow> bool" where
  "is_add (OpAdd _) = True"
| "is_add (OpRemove _) = False"

definition removed :: "db_op list \<Rightarrow> bool py_result list \<Rightarrow> nat" where
  "removed ops rs = length (filter (\<lambda>(op, r). \<not> is_add op \<and> r = Inr True) (zip ops rs))"

lemma db_step_count:
  assumes "db_notes (db p) = JArray vs" and "db_step op p = (r, q)"
  shows "\<exists>ws. db_notes (db q) = JArray ws \<and> \<not> isl r \<and>
              length ws + (if \<not> is_add op \<and> r = Inr True then 1 else 0) =
              length vs + (if is_add op then 1 else 0)"
  using assms
  by (cases op) (auto simp: db_add_note_JArray db_remove_note_JArray split: if_splits)

text \<open>C31. \<^verbatim>\<open>add_note\<close> on a list appends the note and, when the file can be
  written, leaves on disk exactly the encoding of the new list.\<close>

theorem db_add_note_persists:
  assumes "db_notes (db p) = JArray vs" and "writable p"
  shows "db_add_note n p =
           (Inr (), p\<lparr>db := (db p)\<lparr>db_notes := JArray (vs @ [n])\<rparr>,
                      disk := (disk p)(filename (db p) \<mapsto> Regular (json_dump (JArray (vs @ [n]))))\<rparr>)"
  using assms by (simp add: db_add_note_JArray db_save_set_notes)

theorem db_add_note_persists_witness:
  "db_add_note JNull (demo_proc Map.empty []) =
     (Inr (), (demo_proc Map.empty [])\<lparr>db := \<lparr>filename = ''n.json'', db_notes = JArray [JNull]\<rparr>,
               disk := [''n.json'' \<mapsto> Regular (json_dump (JArray [JNull]))]\<rparr>)"
  using db_add_note_persists [of "demo_proc Map.empty []" "[]" JNull]
  by (simp add: writable_def)

text \<open>C32. When the file cannot be written, \<^verbatim>\<open>add_note\<close> still appends the
  note in memory (no rollback), prints the save warning and leaves the disk as
  it was.\<close>

theorem db_add_note_no_rollback:
  assumes "db_notes (db p) = JArray vs" and "\<not> writable p"
  shows "db_add_note n p = (Inr (), print_msg SaveFailed (set_notes (JArray (vs @ [n])) p))"
  using assms by (simp add: db_add_note_JArray db_save_set_notes_fail)

theorem db_add_note_no_rollback_witness:
  "db_add_note JNull (demo_proc [''n.json'' \<mapsto> NoAccess] []) =
     (Inr (), print_msg SaveFailed (set_notes (JArray [JNull]) (demo_proc [''n.json'' \<mapsto> NoAccess] [])))"
  using db_add_note_no_rollback [of "demo_proc [''n.json'' \<mapsto> NoAccess] []" "[]" JNull]
  by (simp add: writable_def)

text \<open>C3. \<^verbatim>\<open>remove_note(index)\<close> with an index outside \<open>0 \<le> index < count\<close>
  (one past the last included) returns \<^verbatim>\<open>False\<close> and changes nothing: not
  the list, not the file, not the output.\<close>

theorem db_remove_note_out_of_range:
  assumes "db_notes (db p) = JArray vs" and "\<not> (0 \<le> i \<and> i < int (length vs))"
  shows "db_remove_note i p = (Inr False, p)"
  using assms by (simp add: db_remove_note_JArray)

theorem db_remove_note_out_of_range_witness:
  "\<not> (0 \<le> (1::int) \<and> 1 < int (length [JNull])) \<and>
   db_remove_note 1 (demo_proc Map.empty [JNull]) = (Inr False, demo_proc Map.empty [JNull])"
  using db_remove_note_out_of_range [of "demo_proc Map.empty [JNull]" "[JNull]" 1] by simp

text \<open>C33. In range, \<^verbatim>\<open>remove_note(index)\<close> pops exactly that element (the
  later ones move down by one), writes the new list and returns
  \<^verbatim>\<open>True\<close>.\<close>

theorem db_remove_note_in_range:
  assumes "db_notes (db p) = JArray vs" and "0 \<le> i" and "i < int (length vs)" and "writable p"
  shows "db_remove_note i p =
           (Inr True, p\<lparr>db := (db p)\<lparr>db_notes := JArray (pop_at vs (nat i))\<rparr>,
                      disk := (disk p)(filename (db p) \<mapsto> Regular (json_dump (JArray (pop_at vs (nat i)))))\<rparr>)"
  using assms by (simp add: db_remove_note_JArray db_save_set_notes)

theorem db_remove_note_in_range_witness:
  "db_remove_note 0 (demo_proc Map.empty [JNull, JBool True]) =
     (Inr True, (demo_proc Map.empty [JNull, JBool True])\<lparr>db := \<lparr>filename = ''n.json'', db_notes = JArray [JBool True]\<rparr>,
                disk := [''n.json'' \<mapsto> Regular (json_dump (JArray [JBool True]))]\<rparr>)"
  using db_remove_note_in_range [of "demo_proc Map.empty [JNull, JBool True]" "[JNull, JBool True]" 0]
  by (simp add: writable_def)

text \<open>C6. Round trip of the file (spec section 8): after a save that
  succeeds, \<^verbatim>\<open>load()\<close> returns the list that was saved and leaves the state
  as it was, for every list whose values \<^verbatim>\<open>json\<close> can read back.\<close>

theorem db_save_load_roundtrip:
  assumes "writable p" and "json_ok (db_notes (db p))"
  shows "db_load (snd (db_save p)) = (Inr (db_notes (db p)), snd (db_save p))"
  using db_load_persisted [OF db_save_persisted [OF assms(1)]] assms(2) by simp

theorem db_save_load_roundtrip_witness:
  "writable (demo_proc Map.empty [JObject [(''text'', JStr ''Buy milk''), (''created'', JStr ''2024-03-07 09:05:00'')]]) \<and>
   json_ok (db_notes (db (demo_proc Map.empty [JObject [(''text'', JStr ''Buy milk''), (''created'', JStr ''2024-03-07 09:05:00'')]]))) \<and>
   db_load (snd (db_save (demo_proc Map.empty [JObject [(''text'', JStr ''Buy milk''), (''created'', JStr ''2024-03-07 09:05:00'')]]))) =
     (Inr (JArray [JObject [(''text'', JStr ''Buy milk''), (''created'', JStr ''2024-03-07 09:05:00'')]]),
      snd (db_save (demo_proc Map.empty [JObject [(''text'', JStr ''Buy milk''), (''created'', JStr ''2024-03-07 09:05:00'')]])))"
  using db_save_load_roundtrip [of "demo_proc Map.empty [JObject [(''text'', JStr ''Buy milk''), (''created'', JStr ''2024-03-07 09:05:00'')]]"]
  by (simp add: writable_def)

text \<open>C7. Round trip of a loaded file (spec section 8): whatever
  \<^verbatim>\<open>load()\<close> accepted, from the file or as the empty default, is what the
  object holds, and saving it and loading again gives the same value, for
  every file \<^verbatim>\<open>json.load\<close> reads, one with duplicate keys included
  (a float keeps the token it was read from).\<close>

theorem db_load_save_load:
  assumes "db_load p = (Inr v, q)" and "writable q"
  shows "db_notes (db q) = v \<and> db_load (snd (db_save q)) = (Inr v, snd (db_save q))"
proof -
  have v: "db_notes (db q) = v" and ok: "json_ok v" using db_load_Inr [OF assms(1)] by auto
  show ?thesis using db_load_persisted [OF db_save_persisted [OF assms(2)]] v ok by simp
qed

theorem db_load_save_load_witness:
  "db_load (demo_proc [''n.json'' \<mapsto> Regular ''[1.50]''] []) =
     (Inr (JArray [JFloat ''1.50'']), set_notes (JArray [JFloat ''1.50'']) (demo_proc [''n.json'' \<mapsto> Regular ''[1.50]''] [])) \<and>
   writable (set_notes (JArray [JFloat ''1.50'']) (demo_proc [''n.json'' \<mapsto> Regular ''[1.50]''] [])) \<and>
   db_load (snd (db_save (set_notes (JArray [JFloat ''1.50'']) (demo_proc [''n.json'' \<mapsto> Regular ''[1.50]''] [])))) =
     (Inr (JArray [JFloat ''1.50'']),
      snd (db_save (set_notes (JArray [JFloat ''1.50'']) (demo_proc [''n.json'' \<mapsto> Regular ''[1.50]''] []))))"
proof -
  have j: "json_loads ''[1.50]'' = Some (JArray [JFloat ''1.50''])"
    by (simp add: json_eval)
  have l: "db_load (demo_proc [''n.json'' \<mapsto> Regular ''[1.50]''] []) =
     (Inr (JArray [JFloat ''1.50'']), set_notes (JArray [JFloat ''1.50'']) (demo_proc [''n.json'' \<mapsto> Regular ''[1.50]''] []))"
    using j by (simp add: db_load_def)
  have w: "writable (set_notes (JArray [JFloat ''1.50'']) (demo_proc [''n.json'' \<mapsto> Regular ''[1.50]''] []))"
    by (simp add: writable_def)
  show ?thesis using db_load_save_load [OF l w] l w by simp
qed

text \<open>C10. Spec section 8: along any sequence of \<^verbatim>\<open>add_note\<close> and
  \<^verbatim>\<open>remove_note\<close> calls on a list, none raises and the count at the end plus
  the number of removals that returned \<^verbatim>\<open>True\<close> is the count at the start plus
  the number of additions, whether or not the file could be written.\<close>

theorem db_run_count:
  assumes "db_notes (db p) = JArray vs" and "db_run ops p = (rs, q)"
  shows "length rs = length ops \<and> list_all (\<lambda>r. \<not> isl r) rs \<and>
         (\<exists>ws. db_notes (db q) = JArray ws \<and> db_get_notes_count q = Inr (length ws) \<and>
              length ws + removed ops rs = length vs + length (filter is_add ops))"
  using assms
proof (induction ops arbitrary: p vs rs)
  case Nil
  then show ?case by (simp add: db_get_notes_count_def removed_def)
next
  case (Cons op ops)
  obtain r p' where s: "db_step op p = (r, p')" by fastforce
  obtain rs' where t: "db_run ops p' = (rs', q)" and rs: "rs = r # rs'"
    using Cons.prems(2) s by (auto split: prod.splits)
  obtain ws where ws: "db_notes (db p') = JArray ws" and r: "\<not> isl r"
    and c: "length ws + (if \<not> is_add op \<and> r = Inr True then 1 else 0) = length vs + (if is_add op then 1 else 0)"
    using db_step_count [OF Cons.prems(1) s] by blast
  show ?case using Cons.IH [OF ws t] c rs r by (auto simp: removed_def)
qed

theorem db_run_count_witness:
  "db_notes (db (demo_proc Map.empty [JNull])) = JArray [JNull] \<and>
   db_run [OpAdd (JInt 1), OpRemove 5, OpRemove 0, OpAdd JNull] (demo_proc Map.empty [JNull]) =
     (fst (db_run [OpAdd (JInt 1), OpRemove 5, OpRemove 0, OpAdd JNull] (demo_proc Map.empty [JNull])),
      snd (db_run [OpAdd (JInt 1), OpRemove 5, OpRemove 0, OpAdd JNull] (demo_proc Map.empty [JNull]))) \<and>
   (\<exists>ws. db_notes (db (snd (db_run [OpAdd (JInt 1), OpRemove 5, OpRemove 0, OpAdd JNull]
                                    (demo_proc Map.empty [JNull])))) = JArray ws \<and>
         length ws = 2)"
  using db_run_count [of "demo_proc Map.empty [JNull]" "[JNull]"
                         "[OpAdd (JInt 1), OpRemove 5, OpRemove 0, OpAdd JNull]"]
  by (simp add: db_add_note_JArray db_remove_note_JArray writable_def db_save_set_notes removed_def)

end
