(* ===== verification/Notes.thy ===== *)
theory Notes
  imports Database
begin

text \<open>
  The note operations of src/utils.py: \<^verbatim>\<open>create_note\<close>, \<^verbatim>\<open>add_note\<close>,
  \<^verbatim>\<open>show_all_notes\<close>, \<^verbatim>\<open>delete_note\<close>, \<^verbatim>\<open>format_note\<close>,
  \<^verbatim>\<open>search_notes\<close> and \<^verbatim>\<open>display_search_results\<close>. Each takes the
  process state (the \<^verbatim>\<open>database\<close> argument is the one \<^verbatim>\<open>Database\<close> object
  of the program) and calls the methods of \<open>Database\<close>. The clock reading
  \<^verbatim>\<open>datetime.now()\<close> is an argument of the operations that read it.
\<close>

section \<open>Timestamps: \<^verbatim>\<open>datetime.now().strftime('%Y-%m-%d %H:%M:%S')\<close>\<close>

record datetime =
  year :: nat
  month :: nat
  day :: nat
  hour :: nat
  minute :: nat
  second :: nat

definition days_in_month :: "nat \<Rightarrow> nat \<Rightarrow> nat" where
  "days_in_month y m =
     (if m = 2 then (if 4 dvd y \<and> (\<not> 100 dvd y \<or> 400 dvd y) then 29 else 28)
      else if m \<in> {4, 6, 9, 11} then 30 else 31)"

text \<open>The values \<^verbatim>\<open>datetime\<close> admits (\<^verbatim>\<open>MINYEAR\<close> = 1, \<^verbatim>\<open>MAXYEAR\<close> = 9999).\<close>

definition valid_datetime :: "datetime \<Rightarrow> bool" where
  "valid_datetime d \<longleftrightarrow>
     1 \<le> year d \<and> year d \<le> 9999 \<and> 1 \<le> month d \<and> month d \<le> 12 \<and>
     1 \<le> day d \<and> day d \<le> days_in_month (year d) (month d) \<and>
     hour d < 24 \<and> minute d < 60 \<and> second d < 60"

text \<open>\<open>%Y\<close> is the year zero-padded to four digits, the other fields to two.\<close>

definition zpad :: "nat \<Rightarrow> nat \<Rightarrow> string" where
  "zpad w n = replicate (w - length (nat_str n)) (CHR ''0'') @ nat_str n"

definition strftime_ts :: "datetime \<Rightarrow> string" where
  "strftime_ts d =
     zpad 4 (year d) @ ''-'' @ zpad 2 (month d) @ ''-'' @ zpad 2 (day d) @ '' '' @
     zpad 2 (hour d) @ '':'' @ zpad 2 (minute d) @ '':'' @ zpad 2 (second d)"

text \<open>The reader of that format, \<^verbatim>\<open>YYYY-MM-DD HH:MM:SS\<close> (the
  \<^verbatim>\<open>'created'\<close> field of spec section 3): nineteen characters, the separators
  at their places and decimal digits elsewhere. It states what \<open>strftime_ts\<close>
  produces.\<close>

definition parse_ts :: "string \<Rightarrow> datetime option" where
  "parse_ts s =
     (if length s = 19 \<and> s ! 4 = CHR ''-'' \<and> s ! 7 = CHR ''-'' \<and> s ! 10 = CHR '' '' \<and>
         s ! 13 = CHR '':'' \<and> s ! 16 = CHR '':'' \<and>
         list_all is_digit (take 4 s @ take 2 (drop 5 s) @ take 2 (drop 8 s) @ take 2 (drop 11 s) @
                            take 2 (drop 14 s) @ take 2 (drop 17 s))
      then Some \<lparr>year = digits_val (take 4 s), month = digits_val (take 2 (drop 5 s)),
                 day = digits_val (take 2 (drop 8 s)), hour = digits_val (take 2 (drop 11 s)),
                 minute = digits_val (take 2 (drop 14 s)), second = digits_val (take 2 (drop 17 s))\<rparr>
      else None)"

section \<open>Notes\<close>

text \<open>\<^verbatim>\<open>create_note(text)\<close>: a dict with the keys \<^verbatim>\<open>'text'\<close> and
  \<^verbatim>\<open>'created'\<close>, in this order.\<close>

definition create_note :: "string \<Rightarrow> datetime \<Rightarrow> json" where
  "create_note txt now = JObject [(''text'', JStr txt), (''created'', JStr (strftime_ts now))]"

text \<open>The note abstraction: a note dict has a string \<^verbatim>\<open>'text'\<close> and a string
  \<^verbatim>\<open>'created'\<close>. Every operation below works on a store that is a list of
  such dicts without raising.\<close>

record note_entry =
  note_text :: string
  note_created :: string

definition note_json :: "note_entry \<Rightarrow> json" where
  "note_json n = JObject [(''text'', JStr (note_text n)), (''created'', JStr (note_created n))]"

fun json_note :: "json \<Rightarrow> note_entry option" where
  "json_note (JObject kvs) =
     (case (map_of kvs ''text'', map_of kvs ''created'') of
       (Some (JStr t), Some (JStr c)) \<Rightarrow> Some \<lparr>note_text = t, note_created = c\<rparr>
     | _ \<Rightarrow> None)"
| "json_note _ = None"

definition note_ok :: "json \<Rightarrow> bool" where
  "note_ok v \<longleftrightarrow> json_note v \<noteq> None"

definition store_ok :: "proc \<Rightarrow> bool" where
  "store_ok p \<longleftrightarrow> (case db_notes (db p) of JArray vs \<Rightarrow> list_all note_ok vs | _ \<Rightarrow> False)"

section \<open>The operations\<close>

definition prints :: "msg list \<Rightarrow> proc \<Rightarrow> proc" where
  "prints ms p = p\<lparr>out := out p @ ms\<rparr>"

text \<open>
  \<^verbatim>\<open>add_note(database, text)\<close>: an empty or all-whitespace text is refused
  with a message. Otherwise the note is created with the text as given (the
  stripped text is only tested), appended through \<^verbatim>\<open>Database.add_note\<close>,
  and the new count is printed as the note's number.
\<close>

definition add_note :: "string \<Rightarrow> datetime \<Rightarrow> proc \<Rightarrow> bool py_result \<times> proc" where
  "add_note txt now p =
     (if txt = [] \<or> py_strip txt = [] then (Inr False, print_msg EmptyText p)
      else
        (case db_add_note (create_note txt now) p of
          (Inl e, p1) \<Rightarrow> (Inl e, p1)
        | (Inr _, p1) \<Rightarrow>
            (case db_get_notes_count p1 of
              Inl e \<Rightarrow> (Inl e, p1)
            | Inr k \<Rightarrow> (Inr True, print_msg (Added k) p1))))"

text \<open>
  The loop that prints numbered notes, utils.py lines 66-68 (over
  \<^verbatim>\<open>enumerate(notes, start=1)\<close>) and lines 147-149 (over the search
  results): for each pair, \<^verbatim>\<open>note['created']\<close> is printed with the number, then
  \<^verbatim>\<open>note['text']\<close>; a lookup that raises ends the loop with the lines so far
  printed.
\<close>

fun print_items :: "(nat \<times> json) list \<Rightarrow> proc \<Rightarrow> unit py_result \<times> proc" where
  "print_items [] p = (Inr (), p)"
| "print_items ((i, n) # rest) p =
     (case py_getitem n ''created'' of
       Inl e \<Rightarrow> (Inl e, p)
     | Inr c \<Rightarrow>
         (case py_getitem n ''text'' of
           Inl e \<Rightarrow> (Inl e, print_msg (ItemHead i c) p)
         | Inr t \<Rightarrow> print_items rest (prints [ItemHead i c, ItemText t] p)))"

text \<open>\<^verbatim>\<open>show_all_notes(database)\<close>: a false value (the empty list) prints the
  empty-state line; otherwise the heading, the numbered notes, a rule and the
  total \<^verbatim>\<open>len(notes)\<close>.\<close>

definition show_all_notes :: "proc \<Rightarrow> unit py_result \<times> proc" where
  "show_all_notes p =
     (let ns = db_get_all_notes p in
      if \<not> py_truthy ns then (Inr (), print_msg ListEmpty p)
      else
        (let p1 = prints [Rule, ListTitle, Rule] p in
         case py_iter ns of
           Inl e \<Rightarrow> (Inl e, p1)
         | Inr xs \<Rightarrow>
             (case print_items (enumerate 1 xs) p1 of
               (Inl e, p2) \<Rightarrow> (Inl e, p2)
             | (Inr _, p2) \<Rightarrow>
                 (case py_len ns of
                   Inl e \<Rightarrow> (Inl e, print_msg Rule p2)
                 | Inr k \<Rightarrow> (Inr (), prints [Rule, ListTotal k] p2)))))"

text \<open>\<^verbatim>\<open>delete_note(database, note_number)\<close>: the 1-based number becomes the
  index \<open>note_number - 1\<close> for \<^verbatim>\<open>Database.remove_note\<close>; the outcome is
  printed with the number.\<close>

definition delete_note :: "int \<Rightarrow> proc \<Rightarrow> bool py_result \<times> proc" where
  "delete_note k p =
     (case db_remove_note (k - 1) p of
       (Inl e, p1) \<Rightarrow> (Inl e, p1)
     | (Inr True, p1) \<Rightarrow> (Inr True, print_msg (Deleted k) p1)
     | (Inr False, p1) \<Rightarrow> (Inr False, print_msg (NotFound k) p1))"

text \<open>\<^verbatim>\<open>search_notes(database, keyword)\<close>: the numbered notes whose
  lower-cased \<^verbatim>\<open>'text'\<close> contains the lower-cased keyword, in order. There
  is no test of the keyword: the empty keyword matches every note.\<close>

fun search_items :: "string \<Rightarrow> (nat \<times> json) list \<Rightarrow> (nat \<times> json) list py_result" where
  "search_items kw [] = Inr []"
| "search_items kw ((i, n) # rest) =
     (case py_getitem n ''text'' of
       Inl e \<Rightarrow> Inl e
     | Inr t \<Rightarrow>
         (case py_lower_val t of
           Inl e \<Rightarrow> Inl e
         | Inr lt \<Rightarrow>
             (case search_items kw rest of
               Inl e \<Rightarrow> Inl e
             | Inr rs \<Rightarrow> Inr (if py_in kw lt then (i, n) # rs else rs))))"

definition search_notes :: "string \<Rightarrow> proc \<Rightarrow> (nat \<times> json) list py_result" where
  "search_notes kw p =
     (case py_iter (db_get_all_notes p) of
       Inl e \<Rightarrow> Inl e
     | Inr xs \<Rightarrow> search_items (py_lower kw) (enumerate 1 xs))"

text \<open>\<^verbatim>\<open>display_search_results(results)\<close>.\<close>

definition display_search_results :: "(nat \<times> json) list \<Rightarrow> proc \<Rightarrow> unit py_result \<times> proc" where
  "display_search_results rs p =
     (if rs = [] then (Inr (), print_msg NothingFound p)
      else
        (case print_items rs (prints [Rule, SearchTitle (length rs), Rule] p) of
          (Inl e, p1) \<Rightarrow> (Inl e, p1)
        | (Inr _, p1) \<Rightarrow> (Inr (), print_msg Rule p1)))"

text \<open>The reference for the search on the store itself, and the two lines
  \<^verbatim>\<open>print_items\<close> writes for one numbered note.\<close>

definition matches :: "string \<Rightarrow> json \<Rightarrow> bool" where
  "matches kw n \<longleftrightarrow> sublist (py_lower kw) (py_lower (note_text (the (json_note n))))"

definition item_lines :: "nat \<times> json \<Rightarrow> msg list" where
  "item_lines x =
     (case json_note (snd x) of
       Some n \<Rightarrow> [ItemHead (fst x) (JStr (note_created n)), ItemText (JStr (note_text n))]
     | None \<Rightarrow> [])"

text \<open>Concrete inputs for the witnesses: a clock reading and the store of the
  spec's search example.\<close>

definition t0 :: datetime where
  "t0 = \<lparr>year = 2024, month = 3, day = 7, hour = 9, minute = 5, second = 0\<rparr>"

definition milk_notes :: "json list" where
  "milk_notes = [create_note ''Buy milk'' t0, create_note ''Call mom'' t0, create_note ''milk shake'' t0]"

section \<open>Lemmas\<close>

lemma blank_guard_iff: "(s = [] \<or> py_strip s = []) \<longleftrightarrow> list_all py_isspace s"
  by (auto simp: py_strip_Nil_iff)

lemma note_ok_getitem:
  assumes "note_ok v"
  shows "py_getitem v ''text'' = Inr (JStr (note_text (the (json_note v))))"
    and "py_getitem v ''created'' = Inr (JStr (note_created (the (json_note v))))"
  using assms by (cases v rule: json_note.cases; auto simp: note_ok_def split: option.splits json.splits)+

lemma json_note_create [simp]:
  "json_note (create_note s now) = Some \<lparr>note_text = s, note_created = strftime_ts now\<rparr>"
  by (simp add: create_note_def)

lemma note_ok_create [simp]: "note_ok (create_note s now)"
  by (simp add: note_ok_def)

lemma prints_simps [simp]:
  "db (prints ms p) = db p" "disk (prints ms p) = disk p" "out (prints ms p) = out p @ ms"
  by (simp_all add: prints_def)

lemma print_items_ok:
  "list_all note_ok (map snd xs) \<Longrightarrow>
   print_items xs p = (Inr (), prints (concat (map item_lines xs)) p)"
proof (induction xs arbitrary: p)
  case Nil
  then show ?case by (simp add: prints_def)
next
  case (Cons x xs)
  obtain i n where x: "x = (i, n)" by fastforce
  with Cons.prems have ok: "note_ok n" and rest: "list_all note_ok (map snd xs)" by auto
  then obtain e where e: "json_note n = Some e" by (auto simp: note_ok_def)
  show ?case
    using Cons.IH [OF rest] note_ok_getitem [OF ok] x e
    by (simp add: item_lines_def prints_def)
qed

lemma print_items_frame:
  "print_items xs p = (r, q) \<Longrightarrow> db q = db p \<and> disk q = disk p"
  by (induction xs p arbitrary: r rule: print_items.induct) (auto split: sum.splits)

lemma show_all_notes_frame:
  "db (snd (show_all_notes p)) = db p \<and> disk (snd (show_all_notes p)) = disk p"
  by (auto simp: show_all_notes_def Let_def split: sum.splits prod.splits dest!: print_items_frame)

lemma display_search_results_frame:
  "db (snd (display_search_results rs p)) = db p \<and> disk (snd (display_search_results rs p)) = disk p"
  by (auto simp: display_search_results_def split: sum.splits prod.splits dest!: print_items_frame)

lemma search_items_ok:
  "list_all note_ok (map snd xs) \<Longrightarrow>
   search_items kw' xs = Inr (filter (\<lambda>x. py_in kw' (py_lower (note_text (the (json_note (snd x)))))) xs)"
proof (induction xs)
  case Nil
  then show ?case by simp
next
  case (Cons x xs)
  obtain i n where x: "x = (i, n)" by fastforce
  with Cons.prems have ok: "note_ok n" and rest: "list_all note_ok (map snd xs)" by auto
  show ?case using Cons.IH [OF rest] note_ok_getitem [OF ok] x by simp
qed

lemma list_all_filter_map_snd:
  "list_all P xs \<Longrightarrow> list_all P (map snd (filter Q (enumerate n xs)))"
  by (induction xs arbitrary: n) auto

lemma store_ok_JArray:
  "store_ok p \<Longrightarrow> \<exists>vs. db_notes (db p) = JArray vs \<and> list_all note_ok vs"
  by (auto simp: store_ok_def split: json.splits)

lemma store_ok_db_eq: "db q = db p \<Longrightarrow> store_ok q \<longleftrightarrow> store_ok p"
  by (simp add: store_ok_def)

lemma search_notes_eq:
  assumes "db_notes (db p) = JArray vs" and "list_all note_ok vs"
  shows "search_notes kw p = Inr (filter (\<lambda>x. matches kw (snd x)) (enumerate 1 vs))"
  using assms search_items_ok [of "enumerate 1 vs" "py_lower kw"]
  by (simp add: search_notes_def db_get_all_notes_def matches_def py_in_sublist)

lemma show_all_notes_eq:
  assumes "db_notes (db p) = JArray vs" and "list_all note_ok vs"
  shows "show_all_notes p =
           (if vs = [] then (Inr (), print_msg ListEmpty p)
            else (Inr (), prints ([Rule, ListTitle, Rule] @ concat (map item_lines (enumerate 1 vs)) @
                                  [Rule, ListTotal (length vs)]) p))"
  using assms print_items_ok [of "enumerate 1 vs"]
  by (simp add: show_all_notes_def db_get_all_notes_def Let_def prints_def)

declare nat_str.simps [simp del]

lemma length_nat_str_le: "n < 10 ^ w \<Longrightarrow> 0 < w \<Longrightarrow> length (nat_str n) \<le> w"
proof (induction n arbitrary: w rule: nat_str.induct)
  case (1 n)
  show ?case
  proof (cases "n < 10")
    case True
    then show ?thesis using "1.prems" by (simp add: nat_str.simps [of n])
  next
    case False
    then obtain w' where w: "w = Suc w'" using "1.prems" by (cases w) auto
    have "n div 10 < 10 ^ w'" using "1.prems"(1) w by (simp add: div_less_iff_less_mult)
    moreover have "0 < w'" using False "1.prems"(1) w by (cases w') auto
    ultimately have "length (nat_str (n div 10)) \<le> w'" using "1.IH" False by blast
    then show ?thesis using False w by (simp add: nat_str.simps [of n])
  qed
qed

lemma length_zpad: "n < 10 ^ w \<Longrightarrow> 0 < w \<Longrightarrow> length (zpad w n) = w"
  using length_nat_str_le [of n w] by (simp add: zpad_def)

lemma digits_zpad: "list_all is_digit (zpad w n)"
  using nat_str_digits [of n] is_digit_zero by (auto simp: zpad_def list_all_iff)

lemma digits_val_replicate_zero: "digits_val (replicate k (CHR ''0'') @ ds) = digits_val ds"
  by (induction k) (simp_all add: digits_val_def digit_val_def)

lemma digits_val_zpad: "digits_val (zpad w n) = n"
  by (simp add: zpad_def digits_val_replicate_zero digits_val_nat_str)

declare nat_str.simps [simp]

lemma days_in_month_le: "days_in_month y m \<le> 31"
  by (simp add: days_in_month_def)

section \<open>Properties of the note operations\<close>

text \<open>C1. \<^verbatim>\<open>add_note\<close> with a text that is not all whitespace, on a list of
  notes whose file can be written: the note built by \<^verbatim>\<open>create_note\<close> from the
  text as given is appended, the file holds the new list, the message reports
  the new count as the note's number, and the result is \<^verbatim>\<open>True\<close>.\<close>

theorem add_note_appends:
  assumes "db_notes (db p) = JArray vs" and "writable p" and "\<not> list_all py_isspace s"
  shows "add_note s now p =
           (Inr True, print_msg (Added (Suc (length vs)))
              (p\<lparr>db := (db p)\<lparr>db_notes := JArray (vs @ [create_note s now])\<rparr>,
                 disk := (disk p)(filename (db p) \<mapsto> Regular (json_dump (JArray (vs @ [create_note s now]))))\<rparr>))"
  using assms
  by (simp add: add_note_def blank_guard_iff db_add_note_JArray db_save_set_notes db_get_notes_count_def)

theorem add_note_appends_witness:
  "\<not> list_all py_isspace ''Buy milk'' \<and>
   add_note ''Buy milk'' t0 (demo_proc Map.empty []) =
     (Inr True, print_msg (Added 1)
        ((demo_proc Map.empty [])\<lparr>db := \<lparr>filename = ''n.json'', db_notes = JArray [create_note ''Buy milk'' t0]\<rparr>,
           disk := [''n.json'' \<mapsto> Regular (json_dump (JArray [create_note ''Buy milk'' t0]))]\<rparr>))"
  using add_note_appends [of "demo_proc Map.empty []" "[]" "''Buy milk''" t0]
  by (simp add: writable_def py_isspace_def)

text \<open>C2. \<^verbatim>\<open>add_note\<close> with an empty or all-whitespace text (\<^verbatim>\<open>""\<close>,
  \<^verbatim>\<open>"   "\<close>) refuses it: the result is \<^verbatim>\<open>False\<close> and the only change is the
  printed message; the notes, their count and the file are untouched.\<close>

theorem add_note_rejects_blank:
  assumes "list_all py_isspace s"
  shows "add_note s now p = (Inr False, print_msg EmptyText p)"
  using assms by (simp add: add_note_def blank_guard_iff)

theorem add_note_rejects_blank_witness:
  "list_all py_isspace ''   '' \<and>
   add_note ''   '' t0 (demo_proc Map.empty []) = (Inr False, print_msg EmptyText (demo_proc Map.empty []))"
  using add_note_rejects_blank [of "''   ''" t0 "demo_proc Map.empty []"] by simp

text \<open>C4. \<^verbatim>\<open>delete_note(database, k)\<close> on a list of \<open>n\<close> notes: for
  \<open>1 \<le> k \<le> n\<close> it removes the \<open>k\<close>-th note (index \<open>k - 1\<close>), writes the file,
  reports number \<open>k\<close> deleted and returns \<^verbatim>\<open>True\<close>; for any other \<open>k\<close> it
  reports \<open>k\<close> not found, returns \<^verbatim>\<open>False\<close> and changes nothing else.\<close>

theorem delete_note_by_number:
  assumes "db_notes (db p) = JArray vs" and "writable p"
  shows "delete_note k p =
           (if 1 \<le> k \<and> k \<le> int (length vs)
            then (Inr True, print_msg (Deleted k)
                    (p\<lparr>db := (db p)\<lparr>db_notes := JArray (pop_at vs (nat (k - 1)))\<rparr>,
                       disk := (disk p)(filename (db p) \<mapsto> Regular (json_dump (JArray (pop_at vs (nat (k - 1))))))\<rparr>))
            else (Inr False, print_msg (NotFound k) p))"
  using assms by (auto simp: delete_note_def db_remove_note_JArray db_save_set_notes)

theorem delete_note_by_number_witness:
  "delete_note 1 (demo_proc Map.empty [create_note ''Buy milk'' t0]) =
     (Inr True, print_msg (Deleted 1)
        ((demo_proc Map.empty [create_note ''Buy milk'' t0])\<lparr>db := \<lparr>filename = ''n.json'', db_notes = JArray []\<rparr>,
           disk := [''n.json'' \<mapsto> Regular ''[]'']\<rparr>))"
  using delete_note_by_number [of "demo_proc Map.empty [create_note ''Buy milk'' t0]" "[create_note ''Buy milk'' t0]" 1]
  by (simp add: writable_def json_dump_def)

text \<open>C5. \<^verbatim>\<open>search_notes\<close> on a list of notes returns, in store order and
  numbered from 1, exactly the notes whose lower-cased text contains the
  lower-cased keyword as a contiguous substring.\<close>

theorem search_notes_filter:
  assumes "db_notes (db p) = JArray vs" and "list_all note_ok vs"
  shows "search_notes kw p = Inr (filter (\<lambda>x. matches kw (snd x)) (enumerate 1 vs))"
  using assms by (rule search_notes_eq)

theorem search_notes_filter_witness:
  "list_all note_ok milk_notes \<and>
   search_notes ''cAll'' (demo_proc Map.empty milk_notes) = Inr [(2, create_note ''Call mom'' t0)]"
  using search_notes_filter [of "demo_proc Map.empty milk_notes" milk_notes "''cAll''"]
  by (simp add: milk_notes_def matches_def py_in_sublist [symmetric] py_lower_def py_lower_char_def
                model_simps)

text \<open>C30. Spec section 8: the search ignores the case of the keyword;
  two keywords with the same lower-case form give the same result on every
  store (\<open>MILK\<close> finds what \<open>milk\<close> finds), whatever the store holds.\<close>

theorem search_notes_case_insensitive:
  "py_lower kw = py_lower kw' \<Longrightarrow> search_notes kw p = search_notes kw' p"
  unfolding search_notes_def by (rule arg_cong)

theorem search_notes_case_insensitive_witness:
  "py_lower ''MILK'' = py_lower ''milk'' \<and>
   map_sum id (map fst) (search_notes ''MILK'' (demo_proc Map.empty milk_notes)) = Inr [1, 3]"
proof -
  have l: "py_lower ''MILK'' = py_lower ''milk''" by (simp add: py_lower_def py_lower_char_def model_simps)
  have "map_sum id (map fst) (search_notes ''milk'' (demo_proc Map.empty milk_notes)) = Inr [1, 3]"
    by (simp add: search_notes_def db_get_all_notes_def milk_notes_def create_note_def
                  py_lower_def py_lower_char_def model_simps)
  then show ?thesis using l search_notes_case_insensitive [OF l, of "demo_proc Map.empty milk_notes"] by simp
qed

text \<open>C34. \<^verbatim>\<open>show_all_notes\<close> on a list of notes: the empty list prints the
  empty-state line only; otherwise it prints the heading, then for \<open>i = 1, 2,
  \<dots>\<close> the \<open>i\<close>-th note's timestamp with number \<open>i\<close> and its text, in store
  order, then the total count, and raises nothing.\<close>

theorem show_all_notes_lists:
  assumes "db_notes (db p) = JArray vs" and "list_all note_ok vs"
  shows "show_all_notes p =
           (if vs = [] then (Inr (), print_msg ListEmpty p)
            else (Inr (), prints ([Rule, ListTitle, Rule] @ concat (map item_lines (enumerate 1 vs)) @
                                  [Rule, ListTotal (length vs)]) p))"
  using assms by (rule show_all_notes_eq)

theorem show_all_notes_lists_witness:
  "list_all note_ok [create_note ''Buy milk'' t0] \<and>
   show_all_notes (demo_proc Map.empty [create_note ''Buy milk'' t0]) =
     (Inr (), prints [Rule, ListTitle, Rule, ItemHead 1 (JStr (strftime_ts t0)), ItemText (JStr ''Buy milk''),
                      Rule, ListTotal 1] (demo_proc Map.empty [create_note ''Buy milk'' t0]))"
  using show_all_notes_lists [of "demo_proc Map.empty [create_note ''Buy milk'' t0]" "[create_note ''Buy milk'' t0]"]
  by (simp add: item_lines_def)

text \<open>C15. The timestamp of a note: for every date and time \<^verbatim>\<open>datetime\<close>
  admits, \<open>strftime_ts\<close> gives nineteen characters in the layout
  \<^verbatim>\<open>YYYY-MM-DD HH:MM:SS\<close>, zero-padded, from which the six fields read back.\<close>

theorem strftime_ts_parse:
  assumes "valid_datetime d"
  shows "parse_ts (strftime_ts d) = Some d"
proof -
  have b: "year d < 10 ^ 4" "month d < 10 ^ 2" "day d < 10 ^ 2" "hour d < 10 ^ 2"
    "minute d < 10 ^ 2" "second d < 10 ^ 2"
    using assms days_in_month_le [of "year d" "month d"] by (auto simp: valid_datetime_def)
  have l: "length (zpad 4 (year d)) = 4" "length (zpad 2 (month d)) = 2" "length (zpad 2 (day d)) = 2"
    "length (zpad 2 (hour d)) = 2" "length (zpad 2 (minute d)) = 2" "length (zpad 2 (second d)) = 2"
    using b by (simp_all add: length_zpad)
  show ?thesis
    using l digits_zpad digits_val_zpad
    by (simp add: parse_ts_def strftime_ts_def nth_append)
qed

theorem strftime_ts_parse_witness:
  "valid_datetime t0 \<and> parse_ts (strftime_ts t0) = Some t0"
proof -
  have v: "valid_datetime t0" by (simp add: t0_def valid_datetime_def days_in_month_def)
  show ?thesis using v strftime_ts_parse [OF v] by simp
qed

end
