(* ===== verification/Notes_Spec.thy ===== *)
theory Notes_Spec
  imports Notes
begin

text \<open>
  The contract of the note operations of src/utils.py, stated over an
  abstract store (a list of \<open>note_entry\<close> records), and the proofs that the
  operations of Notes implement it: a functional refinement under the
  abstraction \<open>notes_abs\<close>, the invariant of the states the operations reach
  from a fresh \<^verbatim>\<open>Database\<close>, that no operation raises on them, and that a
  new process started on the file they leave loads the same notes.
\<close>

section \<open>Specification of the note operations\<close>

text \<open>
  What the operations promise, stated over the abstract store, a list of
  \<open>note_entry\<close> records: adding appends (unless the text is blank), deleting
  number \<open>k\<close> removes the \<open>k\<close>-th note (when there is one), searching gives the
  numbers of the notes whose text contains the keyword, ignoring case. The
  abstraction function \<open>notes_abs\<close> reads the abstract store off the state.
\<close>

definition notes_abs :: "proc \<Rightarrow> note_entry list option" where
  "notes_abs p =
     (case db_notes (db p) of
       JArray vs \<Rightarrow> if list_all note_ok vs then Some (map (\<lambda>v. the (json_note v)) vs) else None
     | _ \<Rightarrow> None)"

definition spec_add :: "string \<Rightarrow> string \<Rightarrow> note_entry list \<Rightarrow> note_entry list" where
  "spec_add s ts ns =
     (if list_all py_isspace s then ns else ns @ [\<lparr>note_text = s, note_created = ts\<rparr>])"

definition spec_delete :: "int \<Rightarrow> note_entry list \<Rightarrow> note_entry list" where
  "spec_delete k ns = (if 1 \<le> k \<and> k \<le> int (length ns) then pop_at ns (nat (k - 1)) else ns)"

definition spec_search :: "string \<Rightarrow> note_entry list \<Rightarrow> nat list" where
  "spec_search kw ns =
     map fst (filter (\<lambda>x. sublist (py_lower kw) (py_lower (note_text (snd x)))) (enumerate 1 ns))"

text \<open>The states the note operations reach from a fresh \<^verbatim>\<open>Database\<close>: one
  rule per function of utils.py that the shell calls, and \<^verbatim>\<open>clear_all\<close>.\<close>

inductive notes_reach :: "proc \<Rightarrow> bool" where
  reach_init: "notes_reach \<lparr>db = Database_init fn, disk = d, out = []\<rparr>"
| reach_add: "notes_reach p \<Longrightarrow> notes_reach (snd (add_note s now p))"
| reach_delete: "notes_reach p \<Longrightarrow> notes_reach (snd (delete_note k p))"
| reach_show: "notes_reach p \<Longrightarrow> notes_reach (snd (show_all_notes p))"
| reach_search:
    "notes_reach p \<Longrightarrow> notes_reach (snd (display_search_results (projr (search_notes kw p)) p))"
| reach_clear: "notes_reach p \<Longrightarrow> notes_reach (db_clear_all p)"

section \<open>Lemmas\<close>

lemma notes_abs_Some:
  "notes_abs p = Some ns \<longleftrightarrow>
   (\<exists>vs. db_notes (db p) = JArray vs \<and> list_all note_ok vs \<and> ns = map (\<lambda>v. the (json_note v)) vs)"
  by (auto simp: notes_abs_def split: json.splits)

lemma store_ok_iff: "store_ok p \<longleftrightarrow> notes_abs p \<noteq> None"
  by (auto simp: store_ok_def notes_abs_def split: json.splits)

lemma filter_enumerate_map:
  "map fst (filter (\<lambda>x. P (f (snd x))) (enumerate n vs)) =
   map fst (filter (\<lambda>x. P (snd x)) (enumerate n (map f vs)))"
  by (induction vs arbitrary: n) auto

lemma notes_abs_add_note:
  assumes "notes_abs p = Some ns"
  shows "notes_abs (snd (add_note s now p)) = Some (spec_add s (strftime_ts now) ns)"
proof -
  from assms obtain vs where "db_notes (db p) = JArray vs" "list_all note_ok vs"
    "ns = map (\<lambda>v. the (json_note v)) vs"
    by (auto simp: notes_abs_Some)
  then show ?thesis
    by (auto simp: add_note_def blank_guard_iff spec_add_def notes_abs_def db_add_note_JArray
                   db_get_notes_count_def)
qed

lemma notes_abs_delete_note:
  assumes "notes_abs p = Some ns"
  shows "notes_abs (snd (delete_note k p)) = Some (spec_delete k ns)"
proof -
  from assms obtain vs where "db_notes (db p) = JArray vs" "list_all note_ok vs"
    "ns = map (\<lambda>v. the (json_note v)) vs"
    by (auto simp: notes_abs_Some)
  then show ?thesis
    by (auto simp: delete_note_def db_remove_note_JArray spec_delete_def notes_abs_def
                   list_all_pop_at map_pop_at)
qed

lemma json_ok_create [simp]: "json_ok (create_note s now)"
  by (simp add: create_note_def)

lemma add_note_JArray_cases:
  "db_notes (db p) = JArray vs \<Longrightarrow>
   db_notes (db (snd (add_note s now p))) \<in> {JArray vs, JArray (vs @ [create_note s now])}"
  by (simp add: add_note_def db_add_note_JArray db_get_notes_count_def split: sum.split)

lemma delete_note_JArray_cases:
  "db_notes (db p) = JArray vs \<Longrightarrow>
   \<exists>ws. db_notes (db (snd (delete_note k p))) = JArray ws \<and> set ws \<subseteq> set vs"
  using set_pop_at_subset [of vs]
  by (auto simp: delete_note_def db_remove_note_JArray split: sum.split bool.split)

lemma notes_reach_json_ok:
  "notes_reach p \<Longrightarrow> \<exists>vs. db_notes (db p) = JArray vs \<and> (\<forall>v \<in> set vs. json_ok v)"
proof (induction rule: notes_reach.induct)
  case (reach_add p s now)
  then show ?case using add_note_JArray_cases [of p _ s now] by fastforce
next
  case (reach_delete p k)
  then show ?case using delete_note_JArray_cases [of p _ k] by blast
next
  case (reach_show p)
  then show ?case using show_all_notes_frame by simp
next
  case (reach_search p kw)
  then show ?case using display_search_results_frame by simp
qed (simp_all add: Database_init_def db_clear_all_def)

section \<open>Refinement and invariants\<close>

text \<open>C8. Refinement: on a store of notes, \<^verbatim>\<open>add_note\<close>, \<^verbatim>\<open>delete_note\<close>
  and \<^verbatim>\<open>search_notes\<close> implement the list specification \<open>spec_add\<close>,
  \<open>spec_delete\<close> and \<open>spec_search\<close> under the abstraction \<open>notes_abs\<close>.\<close>

theorem notes_refine:
  assumes "notes_abs p = Some ns"
  shows "notes_abs (snd (add_note s now p)) = Some (spec_add s (strftime_ts now) ns) \<and>
         notes_abs (snd (delete_note k p)) = Some (spec_delete k ns) \<and>
         map_sum id (map fst) (search_notes kw p) = Inr (spec_search kw ns)"
proof -
  from assms obtain vs where vs: "db_notes (db p) = JArray vs" and ok: "list_all note_ok vs"
    and ns: "ns = map (\<lambda>v. the (json_note v)) vs"
    by (auto simp: notes_abs_Some)
  have add: "notes_abs (snd (add_note s now p)) = Some (spec_add s (strftime_ts now) ns)"
    using vs ok ns
    by (auto simp: add_note_def blank_guard_iff spec_add_def notes_abs_def db_add_note_JArray
                   db_get_notes_count_def)
  have del: "notes_abs (snd (delete_note k p)) = Some (spec_delete k ns)"
    using vs ok ns
    by (auto simp: delete_note_def db_remove_note_JArray spec_delete_def notes_abs_def
                   list_all_pop_at map_pop_at)
  have "map fst (filter (\<lambda>x. matches kw (snd x)) (enumerate 1 vs)) = spec_search kw ns"
    unfolding spec_search_def matches_def ns
    by (rule filter_enumerate_map)
  then have search: "map_sum id (map fst) (search_notes kw p) = Inr (spec_search kw ns)"
    using search_notes_eq [OF vs ok, of kw] by simp
  show ?thesis using add del search by blast
qed

theorem notes_refine_witness:
  "notes_abs (demo_proc Map.empty milk_notes) = Some (map (\<lambda>v. the (json_note v)) milk_notes) \<and>
   notes_abs (snd (add_note ''x'' t0 (demo_proc Map.empty milk_notes))) =
     Some (spec_add ''x'' (strftime_ts t0) (map (\<lambda>v. the (json_note v)) milk_notes)) \<and>
   notes_abs (snd (delete_note 2 (demo_proc Map.empty milk_notes))) =
     Some (spec_delete 2 (map (\<lambda>v. the (json_note v)) milk_notes)) \<and>
   map_sum id (map fst) (search_notes ''milk'' (demo_proc Map.empty milk_notes)) =
     Inr (spec_search ''milk'' (map (\<lambda>v. the (json_note v)) milk_notes))"
proof -
  have h: "notes_abs (demo_proc Map.empty milk_notes) = Some (map (\<lambda>v. the (json_note v)) milk_notes)"
    by (simp add: notes_abs_def milk_notes_def)
  show ?thesis using h notes_refine [OF h, of "''x''" t0 2 "''milk''"] by blast
qed

text \<open>C12. On a store that is a list of notes, none of \<^verbatim>\<open>add_note\<close>,
  \<^verbatim>\<open>delete_note\<close>, \<^verbatim>\<open>show_all_notes\<close>, \<^verbatim>\<open>search_notes\<close> and
  \<^verbatim>\<open>display_search_results\<close> (of the search's results) raises.\<close>

theorem store_ok_no_exception:
  assumes "store_ok p"
  shows "\<not> isl (fst (add_note s now p)) \<and> \<not> isl (fst (delete_note k p)) \<and>
         \<not> isl (fst (show_all_notes p)) \<and> \<not> isl (search_notes kw p) \<and>
         \<not> isl (fst (display_search_results (projr (search_notes kw p)) p))"
proof -
  from store_ok_JArray [OF assms] obtain vs where vs: "db_notes (db p) = JArray vs"
    and ok: "list_all note_ok vs" by blast
  have add: "\<not> isl (fst (add_note s now p))"
    using vs by (auto simp: add_note_def db_add_note_JArray db_get_notes_count_def)
  have del: "\<not> isl (fst (delete_note k p))"
    using vs by (auto simp: delete_note_def db_remove_note_JArray)
  have show_ok: "\<not> isl (fst (show_all_notes p))"
    using show_all_notes_eq [OF vs ok] by simp
  have srch: "search_notes kw p = Inr (filter (\<lambda>x. matches kw (snd x)) (enumerate 1 vs))"
    by (rule search_notes_eq [OF vs ok])
  have "list_all note_ok (map snd (filter (\<lambda>x. matches kw (snd x)) (enumerate 1 vs)))"
    using ok by (rule list_all_filter_map_snd)
  then have disp: "\<not> isl (fst (display_search_results (projr (search_notes kw p)) p))"
    using srch print_items_ok by (simp add: display_search_results_def)
  show ?thesis using add del show_ok srch disp by simp
qed

theorem store_ok_no_exception_witness:
  "store_ok (demo_proc Map.empty milk_notes) \<and>
   \<not> isl (fst (add_note ''x'' t0 (demo_proc Map.empty milk_notes))) \<and>
   \<not> isl (fst (delete_note 7 (demo_proc Map.empty milk_notes))) \<and>
   \<not> isl (fst (show_all_notes (demo_proc Map.empty milk_notes))) \<and>
   \<not> isl (search_notes ''milk'' (demo_proc Map.empty milk_notes)) \<and>
   \<not> isl (fst (display_search_results (projr (search_notes ''milk'' (demo_proc Map.empty milk_notes)))
                  (demo_proc Map.empty milk_notes)))"
proof -
  have h: "store_ok (demo_proc Map.empty milk_notes)"
    by (simp add: store_ok_def milk_notes_def)
  show ?thesis using h store_ok_no_exception [OF h, of "''x''" t0 7 "''milk''"] by blast
qed

text \<open>C11. Invariant: every state reached from a fresh \<^verbatim>\<open>Database\<close> by the
  note operations (adding, deleting, listing, searching and displaying, and
  clearing) has a store that is a list of well-formed note dicts.\<close>

theorem notes_reach_store_ok: "notes_reach p \<Longrightarrow> store_ok p"
proof (induction rule: notes_reach.induct)
  case (reach_init fn d)
  then show ?case by (simp add: store_ok_def Database_init_def)
next
  case (reach_add p t c)
  then show ?case using notes_abs_add_note [of p _ t c] by (auto simp: store_ok_iff)
next
  case (reach_delete p k)
  then show ?case using notes_abs_delete_note [of p _ k] by (auto simp: store_ok_iff)
next
  case (reach_show p)
  then show ?case using show_all_notes_frame store_ok_db_eq by blast
next
  case (reach_search p kw)
  then show ?case using display_search_results_frame store_ok_db_eq by blast
next
  case (reach_clear p)
  then show ?case by (simp add: db_clear_all_def store_ok_def)
qed

theorem notes_reach_store_ok_witness:
  "notes_reach (snd (add_note ''Buy milk'' t0 \<lparr>db = Database_init ''notes.json'', disk = Map.empty, out = []\<rparr>)) \<and>
   store_ok (snd (add_note ''Buy milk'' t0 \<lparr>db = Database_init ''notes.json'', disk = Map.empty, out = []\<rparr>))"
proof -
  have r: "notes_reach (snd (add_note ''Buy milk'' t0 \<lparr>db = Database_init ''notes.json'', disk = Map.empty, out = []\<rparr>))"
    by (rule reach_add [OF reach_init])
  show ?thesis using r notes_reach_store_ok [OF r] by blast
qed

text \<open>C13. Restart: in every state the note operations reach, once the file
  holds the encoding of the notes (after any change that could be written), a
  new process that constructs \<^verbatim>\<open>Database\<close> with the same file name and
  calls \<^verbatim>\<open>load()\<close> gets the same notes back, and its state is the state the
  old process had.\<close>

theorem restart_reloads_notes:
  assumes "notes_reach p" and "persisted p"
  shows "db_load (p\<lparr>db := Database_init (filename (db p))\<rparr>) = (Inr (db_notes (db p)), p)"
proof -
  obtain vs where "db_notes (db p) = JArray vs" "\<forall>v \<in> set vs. json_ok v"
    using notes_reach_json_ok [OF assms(1)] by blast
  then have "json_ok (db_notes (db p))" by simp
  then show ?thesis
    using assms(2) by (simp add: db_load_def persisted_def json_loads_dump Database_init_def set_notes_def)
qed

theorem restart_reloads_notes_witness:
  "notes_reach (snd (add_note ''Buy milk'' t0 \<lparr>db = Database_init ''notes.json'', disk = Map.empty, out = []\<rparr>)) \<and>
   persisted (snd (add_note ''Buy milk'' t0 \<lparr>db = Database_init ''notes.json'', disk = Map.empty, out = []\<rparr>)) \<and>
   db_load ((snd (add_note ''Buy milk'' t0 \<lparr>db = Database_init ''notes.json'', disk = Map.empty, out = []\<rparr>))
              \<lparr>db := Database_init ''notes.json''\<rparr>) =
     (Inr (JArray [create_note ''Buy milk'' t0]),
      snd (add_note ''Buy milk'' t0 \<lparr>db = Database_init ''notes.json'', disk = Map.empty, out = []\<rparr>))"
proof -
  let ?p = "snd (add_note ''Buy milk'' t0 \<lparr>db = Database_init ''notes.json'', disk = Map.empty, out = []\<rparr>)"
  have r: "notes_reach ?p" by (rule reach_add [OF reach_init])
  have b: "py_strip ''Buy milk'' \<noteq> []" by (simp add: py_strip_def py_isspace_def)
  have e: "db ?p = \<lparr>filename = ''notes.json'', db_notes = JArray [create_note ''Buy milk'' t0]\<rparr>"
    using b by (simp add: add_note_def Database_init_def db_add_note_def db_save_def
                          db_get_notes_count_def set_notes_def)
  have s: "persisted ?p"
    using b by (simp add: persisted_def add_note_def Database_init_def db_add_note_def db_save_def
                  db_get_notes_count_def set_notes_def py_isspace_def)
  show ?thesis using r s e restart_reloads_notes [OF r s] by simp
qed

end
