(* ===== verification/Menu.thy ===== *)
theory Menu
  imports Notes_Spec
begin

text \<open>
  The interactive shell, src/main.py. Its input is what the user does at each
  \<^verbatim>\<open>input()\<close> prompt: type a line, end the input (Ctrl-D at a terminal, or
  the end of a pipe) or interrupt (Ctrl-C). The handlers \<^verbatim>\<open>handle_*\<close> read
  the input they need and call the functions of utils.py; one pass of the
  \<^verbatim>\<open>while True\<close> loop of \<^verbatim>\<open>main\<close> is \<open>menu_step\<close>, the loop is
  \<open>menu_loop\<close> with fuel (the number of passes), and \<^verbatim>\<open>main()\<close> is
  \<open>main_prog\<close>. The clock \<^verbatim>\<open>datetime.now()\<close> is read once per pass, from a
  function of the pass number.
\<close>

section \<open>Input\<close>

datatype inp = Line string | CtrlD | CtrlC

text \<open>\<^verbatim>\<open>input(prompt)\<close>: the next line, without its newline; \<^verbatim>\<open>EOFError\<close>
  when the input ends (and for ever after, once standard input is closed:
  the empty list); \<^verbatim>\<open>KeyboardInterrupt\<close> on Ctrl-C. The prompt itself is
  not recorded.\<close>

fun py_input :: "inp list \<Rightarrow> string py_result \<times> inp list" where
  "py_input [] = (Inl EOFError, [])"
| "py_input (Line s # r) = (Inr s, r)"
| "py_input (CtrlD # r) = (Inl EOFError, r)"
| "py_input (CtrlC # r) = (Inl KeyboardInterrupt, r)"

section \<open>The handlers\<close>

definition print_menu :: "proc \<Rightarrow> proc" where
  "print_menu p = print_msg MenuText p"

text \<open>\<^verbatim>\<open>handle_add_note(db)\<close>: the heading, then the line read, stripped, goes
  to \<^verbatim>\<open>add_note\<close>, whose result is dropped.\<close>

definition handle_add_note :: "datetime \<Rightarrow> inp list \<Rightarrow> proc \<Rightarrow> unit py_result \<times> inp list \<times> proc" where
  "handle_add_note now ins p =
     (let p1 = print_msg AddHeading p in
      case py_input ins of
        (Inl e, ins') \<Rightarrow> (Inl e, ins', p1)
      | (Inr s, ins') \<Rightarrow>
          (case add_note (py_strip s) now p1 of
            (Inl e, p2) \<Rightarrow> (Inl e, ins', p2)
          | (Inr _, p2) \<Rightarrow> (Inr (), ins', p2)))"

definition handle_show_notes :: "inp list \<Rightarrow> proc \<Rightarrow> unit py_result \<times> inp list \<times> proc" where
  "handle_show_notes ins p = (case show_all_notes p of (r, p1) \<Rightarrow> (r, ins, p1))"

text \<open>\<^verbatim>\<open>handle_delete_note(db)\<close>: the list, then, unless the store is empty,
  a number read with \<^verbatim>\<open>int(input().strip())\<close> and \<^verbatim>\<open>delete_note\<close>. The
  \<^verbatim>\<open>try\<close> block covers the read, the conversion and the deletion: a
  \<^verbatim>\<open>ValueError\<close> from any of them prints the error message and a
  \<^verbatim>\<open>KeyboardInterrupt\<close> the cancel message; other exceptions, among them
  \<^verbatim>\<open>EOFError\<close>, leave the handler.\<close>

definition delete_catch :: "py_exc \<Rightarrow> inp list \<Rightarrow> proc \<Rightarrow> unit py_result \<times> inp list \<times> proc" where
  "delete_catch e ins p =
     (if e = ValueError then (Inr (), ins, print_msg BadNumber p)
      else if e = KeyboardInterrupt then (Inr (), ins, print_msg Cancelled p)
      else (Inl e, ins, p))"

definition handle_delete_note :: "inp list \<Rightarrow> proc \<Rightarrow> unit py_result \<times> inp list \<times> proc" where
  "handle_delete_note ins p =
     (case show_all_notes p of
       (Inl e, p1) \<Rightarrow> (Inl e, ins, p1)
     | (Inr _, p1) \<Rightarrow>
         (case db_get_notes_count p1 of
           Inl e \<Rightarrow> (Inl e, ins, p1)
         | Inr n \<Rightarrow>
             if n = 0 then (Inr (), ins, p1)
             else
               (case py_input ins of
                 (Inl e, ins') \<Rightarrow> delete_catch e ins' p1
               | (Inr s, ins') \<Rightarrow>
                   (case py_int (py_strip s) of
                     None \<Rightarrow> delete_catch ValueError ins' p1
                   | Some k \<Rightarrow>
                       (case delete_note k p1 of
                         (Inl e, p2) \<Rightarrow> delete_catch e ins' p2
                       | (Inr _, p2) \<Rightarrow> (Inr (), ins', p2))))))"

text \<open>\<^verbatim>\<open>handle_search_notes(db)\<close>: the heading, the keyword read and
  stripped; an empty keyword is refused, any other is searched for and the
  results are displayed.\<close>

definition handle_search_notes :: "inp list \<Rightarrow> proc \<Rightarrow> unit py_result \<times> inp list \<times> proc" where
  "handle_search_notes ins p =
     (let p1 = print_msg SearchHeading p in
      case py_input ins of
        (Inl e, ins') \<Rightarrow> (Inl e, ins', p1)
      | (Inr s, ins') \<Rightarrow>
          (let kw = py_strip s in
           if kw = [] then (Inr (), ins', print_msg EmptyKeyword p1)
           else
             (case search_notes kw p1 of
               Inl e \<Rightarrow> (Inl e, ins', p1)
             | Inr rs \<Rightarrow> (case display_search_results rs p1 of (r, p2) \<Rightarrow> (r, ins', p2)))))"

section \<open>The main loop\<close>

text \<open>How the program ends: \<^verbatim>\<open>sys.exit(status)\<close>, or an exception that no
  handler catches (Python prints the traceback and exits with status 1).\<close>

datatype exit_status = Exited nat | Crashed py_exc

datatype step_result = Continue "inp list" proc | Stop exit_status proc

text \<open>The two \<^verbatim>\<open>except\<close> clauses of the loop: \<^verbatim>\<open>KeyboardInterrupt\<close> says
  goodbye and exits with status 0; any other exception (all the others are
  subclasses of \<^verbatim>\<open>Exception\<close>) is printed and the loop goes on.\<close>

definition loop_catch :: "py_exc \<Rightarrow> inp list \<Rightarrow> proc \<Rightarrow> step_result" where
  "loop_catch e ins p =
     (if e = KeyboardInterrupt then Stop (Exited 0) (print_msg Goodbye p)
      else Continue ins (print_msg (ErrorOccurred e) p))"

definition after_handler :: "unit py_result \<times> inp list \<times> proc \<Rightarrow> step_result" where
  "after_handler r =
     (case r of
       (Inl e, ins, p) \<Rightarrow> loop_catch e ins p
     | (Inr _, ins, p) \<Rightarrow> Continue ins p)"

text \<open>One pass of \<^verbatim>\<open>while True\<close>: the menu, the choice read and stripped,
  and the branch it selects.\<close>

definition menu_step :: "datetime \<Rightarrow> inp list \<Rightarrow> proc \<Rightarrow> step_result" where
  "menu_step now ins p =
     (let p1 = print_menu p in
      case py_input ins of
        (Inl e, ins') \<Rightarrow> loop_catch e ins' p1
      | (Inr s, ins') \<Rightarrow>
          (let choice = py_strip s in
           if choice = ''1'' then after_handler (handle_add_note now ins' p1)
           else if choice = ''2'' then after_handler (handle_show_notes ins' p1)
           else if choice = ''3'' then after_handler (handle_delete_note ins' p1)
           else if choice = ''4'' then after_handler (handle_search_notes ins' p1)
           else if choice = ''0'' then Stop (Exited 0) (print_msg Goodbye p1)
           else Continue ins' (print_msg BadChoice p1)))"

text \<open>The loop, with fuel: \<open>menu_loop n clock k ins p\<close> runs at most \<open>n\<close>
  passes, the first of them pass number \<open>k\<close>; \<open>None\<close> when the program has
  not ended after them.\<close>

fun menu_loop :: "nat \<Rightarrow> (nat \<Rightarrow> datetime) \<Rightarrow> nat \<Rightarrow> inp list \<Rightarrow> proc \<Rightarrow> (exit_status \<times> proc) option" where
  "menu_loop 0 clock k ins p = None"
| "menu_loop (Suc n) clock k ins p =
     (case menu_step (clock k) ins p of
       Stop st q \<Rightarrow> Some (st, q)
     | Continue ins' q \<Rightarrow> menu_loop n clock (Suc k) ins' q)"

text \<open>\<^verbatim>\<open>main()\<close>: the welcome line, \<^verbatim>\<open>Database('notes.json')\<close>,
  \<^verbatim>\<open>load()\<close> and the count, all outside the loop's \<^verbatim>\<open>try\<close>, then the loop.\<close>

definition main_prog :: "nat \<Rightarrow> (nat \<Rightarrow> datetime) \<Rightarrow> inp list \<Rightarrow> disk \<Rightarrow> (exit_status \<times> proc) option" where
  "main_prog n clock ins d =
     (let p0 = print_msg Welcome \<lparr>db = Database_init ''notes.json'', disk = d, out = []\<rparr> in
      case db_load p0 of
        (Inl e, p1) \<Rightarrow> Some (Crashed e, p1)
      | (Inr _, p1) \<Rightarrow>
          (case db_get_notes_count p1 of
            Inl e \<Rightarrow> Some (Crashed e, p1)
          | Inr c \<Rightarrow> menu_loop n clock 0 ins (print_msg (LoadedCount c) p1)))"

section \<open>Vocabulary of the proofs\<close>

text \<open>The exceptions the loop has reported (\<open>errs\<close>), the results a handler
  may end with on a store of notes (\<open>input_exc\<close>: only \<^verbatim>\<open>input()\<close>
  raises), and what one pass keeps (\<open>step_ok\<close>).\<close>

fun err_of :: "msg \<Rightarrow> py_exc list" where
  "err_of (ErrorOccurred e) = [e]"
| "err_of _ = []"

definition errs :: "proc \<Rightarrow> py_exc list" where
  "errs p = concat (map err_of (out p))"

definition input_exc :: "unit py_result \<Rightarrow> bool" where
  "input_exc r \<longleftrightarrow> r = Inr () \<or> r = Inl EOFError \<or> r = Inl KeyboardInterrupt"

definition step_ok :: "py_exc list \<Rightarrow> step_result \<Rightarrow> bool" where
  "step_ok E r =
     (case r of
       Stop st q \<Rightarrow> st = Exited 0 \<and> store_ok q \<and> set (errs q) \<subseteq> set E \<union> {EOFError}
     | Continue ins q \<Rightarrow> store_ok q \<and> set (errs q) \<subseteq> set E \<union> {EOFError})"

section \<open>Lemmas and properties\<close>

lemma menu_step_closed:
  "menu_step now [] p = Continue [] (prints [MenuText, ErrorOccurred EOFError] p)"
  by (simp add: menu_step_def loop_catch_def print_menu_def print_msg_def prints_def)

lemma menu_loop_closed: "menu_loop n clock k [] p = None"
  by (induction n arbitrary: k p) (simp_all add: menu_step_closed)

lemma py_input_length: "py_input ins = (r, ins') \<Longrightarrow> ins \<noteq> [] \<Longrightarrow> length ins' < length ins"
  by (cases ins rule: py_input.cases) auto

lemma py_input_Nil: "py_input [] = (r, ins') \<Longrightarrow> ins' = []"
  by simp

lemma handlers_length:
  "length (fst (snd (handle_add_note now ins p))) \<le> length ins"
  "length (fst (snd (handle_show_notes ins p))) \<le> length ins"
  "length (fst (snd (handle_delete_note ins p))) \<le> length ins"
  "length (fst (snd (handle_search_notes ins p))) \<le> length ins"
  by (cases ins rule: py_input.cases;
      auto simp: handle_add_note_def handle_show_notes_def handle_delete_note_def
                 handle_search_notes_def delete_catch_def Let_def
           split: prod.splits sum.splits option.splits if_splits)+

lemma after_handler_Continue: "after_handler h = Continue ins' q \<Longrightarrow> ins' = fst (snd h)"
  by (cases h) (auto simp: after_handler_def loop_catch_def split: sum.splits if_splits)

lemma menu_step_length:
  assumes "menu_step now ins p = Continue ins' q" and "ins \<noteq> []"
  shows "length ins' < length ins"
proof -
  obtain r ins1 where i: "py_input ins = (r, ins1)" by fastforce
  have l1: "length ins1 < length ins" using py_input_length [OF i assms(2)] .
  have h: "length ins' \<le> length ins1"
  proof (cases r)
    case (Inl e)
    then show ?thesis using assms(1) i by (auto simp: menu_step_def loop_catch_def Let_def split: if_splits)
  next
    case (Inr s)
    show ?thesis
      using assms(1) i Inr
      using handlers_length(1) [of now ins1 "print_menu p"] handlers_length(2-4) [of ins1 "print_menu p"]
      by (auto simp: menu_step_def Let_def split: if_splits dest!: after_handler_Continue)
  qed
  show ?thesis using l1 h by simp
qed

lemma menu_loop_mono:
  "menu_loop n clock k ins p = Some r \<Longrightarrow> n \<le> m \<Longrightarrow> menu_loop m clock k ins p = Some r"
proof (induction n arbitrary: m k ins p)
  case (Suc n)
  then obtain m' where m: "m = Suc m'" "n \<le> m'" by (cases m) auto
  show ?case using Suc m by (auto split: step_result.splits)
qed simp

text \<open>Termination of the shell: a run that ends at all ends within one
  pass more than there are input events, since every pass but those on a
  closed input consumes at least one event, and on a closed input the loop
  never ends (\<open>menu_loop_closed\<close>).\<close>

lemma menu_loop_ends_early:
  "menu_loop n clock k ins p = Some r \<Longrightarrow> menu_loop (Suc (length ins)) clock k ins p = Some r"
proof (induction n arbitrary: k ins p)
  case (Suc n)
  show ?case
  proof (cases "menu_step (clock k) ins p")
    case (Continue ins' q)
    then have rest: "menu_loop n clock (Suc k) ins' q = Some r" using Suc.prems by simp
    have ne: "ins \<noteq> []"
      using rest Continue menu_step_closed [of "clock k" p] menu_loop_closed by auto
    then have "Suc (length ins') \<le> length ins" using menu_step_length [OF Continue] by simp
    then have "menu_loop (length ins) clock (Suc k) ins' q = Some r"
      using menu_loop_mono [OF Suc.IH [OF rest]] by blast
    then show ?thesis using Continue by simp
  qed (use Suc.prems in simp)
qed simp

declare nat_str.simps [simp del]

section \<open>Reading a note number back\<close>

lemma py_digits_acc_digits:
  "list_all is_digit ds \<Longrightarrow> py_digits_acc m ds = Some (foldl (\<lambda>n c. 10 * n + digit_val c) m ds)"
  by (induction ds arbitrary: m) auto

lemma py_digits_nat_str: "py_digits (nat_str n) = Some n"
proof -
  obtain c r where cr: "nat_str n = c # r" "is_digit c" using nat_str_Cons by blast
  have "list_all is_digit r" using nat_str_digits [of n] cr(1) by simp
  then have "py_digits (nat_str n) = Some (digits_val (nat_str n))"
    using cr by (simp add: py_digits_def py_digits_acc_digits digits_val_def)
  then show ?thesis by (simp add: digits_val_nat_str)
qed

lemma py_strip_no_space: "\<forall>c \<in> set s. \<not> py_isspace c \<Longrightarrow> py_strip s = s"
proof -
  assume a: "\<forall>c \<in> set s. \<not> py_isspace c"
  have d: "dropWhile py_isspace xs = xs" if "\<forall>c \<in> set xs. \<not> py_isspace c" for xs
    using that by (cases xs) auto
  show ?thesis using a d [of s] d [of "rev s"] by (simp add: py_strip_def)
qed

lemma py_int_int_str: "py_int (py_strip (int_str i)) = Some i"
proof -
  have nd: "\<forall>c \<in> set (nat_str n). \<not> py_isspace c" for n
    using nat_str_digits [of n] by (auto simp: list_all_iff is_digit_def py_isspace_def)
  have "\<forall>c \<in> set (int_str i). \<not> py_isspace c"
    using nd by (auto simp: int_str_def py_isspace_def)
  then have s: "py_strip (int_str i) = int_str i" by (rule py_strip_no_space)
  obtain c r where cr: "nat_str (nat \<bar>i\<bar>) = c # r" "is_digit c" using nat_str_Cons by blast
  have "c \<noteq> CHR ''-'' \<and> c \<noteq> CHR ''+''" using cr(2) by (auto simp: is_digit_def)
  then show ?thesis
    using s cr(1) py_digits_nat_str [of "nat \<bar>i\<bar>"] nd [of "nat \<bar>i\<bar>"]
    by (cases "i < 0") (simp_all add: py_int_def int_str_def py_strip_no_space)
qed

declare nat_str.simps [simp]

lemma py_strip_choices:
  "py_strip ''0'' = ''0''" "py_strip ''1'' = ''1''" "py_strip ''2'' = ''2''"
  "py_strip ''3'' = ''3''" "py_strip ''4'' = ''4''"
  by (simp_all add: py_strip_def py_isspace_def)

lemma notes_abs_out [simp]:
  "notes_abs (print_msg m p) = notes_abs p" "notes_abs (prints ms p) = notes_abs p"
  by (simp_all add: notes_abs_def)

lemma handle_add_note_abs:
  assumes "notes_abs p = Some ns"
  shows "\<exists>q. handle_add_note now (Line s # ins) p = (Inr (), ins, q) \<and>
             notes_abs q = Some (spec_add (py_strip s) (strftime_ts now) ns)"
proof -
  obtain vs where vs: "db_notes (db p) = JArray vs" using assms by (auto simp: notes_abs_Some)
  have "\<not> isl (fst (add_note (py_strip s) now (print_msg AddHeading p)))"
    using vs by (auto simp: add_note_def db_add_note_JArray db_get_notes_count_def)
  then show ?thesis
    using notes_abs_add_note [of "print_msg AddHeading p" ns "py_strip s" now] assms
    by (auto simp: handle_add_note_def split: prod.split sum.split)
qed

text \<open>C23. The menu's add: choosing 1 and typing a line on a store of notes
  appends a note whose text is the line with its surrounding whitespace
  removed (\<^verbatim>\<open>input().strip()\<close> in \<^verbatim>\<open>handle_add_note\<close>), and the loop goes
  on. The spec says the raw text is stored verbatim.\<close>

theorem menu_add_stores_stripped:
  assumes "notes_abs p = Some ns"
  shows "\<exists>q. menu_step now (Line ''1'' # Line s # ins) p = Continue ins q \<and>
             notes_abs q = Some (spec_add (py_strip s) (strftime_ts now) ns)"
proof -
  obtain q where "handle_add_note now (Line s # ins) (print_menu p) = (Inr (), ins, q)"
    "notes_abs q = Some (spec_add (py_strip s) (strftime_ts now) ns)"
    using handle_add_note_abs [of "print_menu p" ns now s ins] assms by (auto simp: print_menu_def)
  then show ?thesis by (simp add: menu_step_def py_strip_choices after_handler_def)
qed

theorem menu_add_stores_stripped_witness:
  "notes_abs (demo_proc Map.empty []) = Some [] \<and>
   (\<exists>q. menu_step t0 [Line ''1'', Line ''  Buy milk '', Line ''0''] (demo_proc Map.empty []) =
          Continue [Line ''0''] q \<and>
        notes_abs q = Some [\<lparr>note_text = ''Buy milk'', note_created = strftime_ts t0\<rparr>])"
proof -
  have h: "notes_abs (demo_proc Map.empty []) = Some []" by (simp add: notes_abs_def)
  have "spec_add (py_strip ''  Buy milk '') (strftime_ts t0) [] =
        [\<lparr>note_text = ''Buy milk'', note_created = strftime_ts t0\<rparr>]"
    by (simp add: spec_add_def py_strip_def py_isspace_def)
  then show ?thesis
    using h menu_add_stores_stripped [OF h, of t0 "''  Buy milk ''" "[Line ''0'']"] by simp
qed

lemma handle_delete_note_prompt:
  assumes "notes_abs p = Some ns" and "ns \<noteq> []"
  obtains p1 where "db p1 = db p" and "disk p1 = disk p"
    and "handle_delete_note ins p =
           (case py_input ins of
             (Inl e, ins') \<Rightarrow> delete_catch e ins' p1
           | (Inr s, ins') \<Rightarrow>
               (case py_int (py_strip s) of
                 None \<Rightarrow> delete_catch ValueError ins' p1
               | Some k \<Rightarrow>
                   (case delete_note k p1 of
                     (Inl e, p2) \<Rightarrow> delete_catch e ins' p2
                   | (Inr _, p2) \<Rightarrow> (Inr (), ins', p2))))"
proof -
  obtain vs where vs: "db_notes (db p) = JArray vs" "list_all note_ok vs" "vs \<noteq> []"
    using assms by (auto simp: notes_abs_Some)
  obtain p1 where sh: "show_all_notes p = (Inr (), p1)"
    using show_all_notes_eq [OF vs(1,2)] vs(3) by auto
  have fr: "db p1 = db p" "disk p1 = disk p" using show_all_notes_frame [of p] sh by simp_all
  have "db_get_notes_count p1 = Inr (length vs)" using fr vs by (simp add: db_get_notes_count_def)
  then show ?thesis
    using that [OF fr] vs(3) sh by (simp add: handle_delete_note_def)
qed

lemma delete_note_abs:
  assumes "notes_abs p = Some ns"
  shows "\<exists>q. delete_note k p = (Inr (1 \<le> k \<and> k \<le> int (length ns)), q) \<and>
             notes_abs q = Some (spec_delete k ns)"
proof -
  obtain vs where "db_notes (db p) = JArray vs" "ns = map (\<lambda>v. the (json_note v)) vs"
    using assms by (auto simp: notes_abs_Some)
  then have "fst (delete_note k p) = Inr (1 \<le> k \<and> k \<le> int (length ns))"
    by (auto simp: delete_note_def db_remove_note_JArray)
  then show ?thesis using notes_abs_delete_note [OF assms, of k] by (metis prod.collapse)
qed

text \<open>C24. The menu's delete: on a non-empty store of notes, choosing 3 and
  typing a note number as the program prints it (\<^verbatim>\<open>str(k)\<close>, read back by
  \<^verbatim>\<open>int()\<close>) deletes note \<open>k\<close> when there is one, and the loop goes on.\<close>

theorem menu_delete_by_number:
  assumes "notes_abs p = Some ns" and "ns \<noteq> []"
  shows "\<exists>q. menu_step now (Line ''3'' # Line (int_str k) # ins) p = Continue ins q \<and>
             notes_abs q = Some (spec_delete k ns)"
proof -
  have a: "notes_abs (print_menu p) = Some ns" using assms(1) by (simp add: print_menu_def)
  obtain p1 where p1: "db p1 = db (print_menu p)" and
    h: "handle_delete_note (Line (int_str k) # ins) (print_menu p) =
          (case delete_note k p1 of
            (Inl e, p2) \<Rightarrow> delete_catch e ins p2
          | (Inr _, p2) \<Rightarrow> (Inr (), ins, p2))"
    using handle_delete_note_prompt [OF a assms(2), of "Line (int_str k) # ins"]
    by (auto simp: py_int_int_str)
  have "notes_abs p1 = Some ns" using a p1 by (simp add: notes_abs_def)
  then obtain q where "delete_note k p1 = (Inr (1 \<le> k \<and> k \<le> int (length ns)), q)"
    "notes_abs q = Some (spec_delete k ns)"
    using delete_note_abs by blast
  then show ?thesis using h by (simp add: menu_step_def py_strip_choices after_handler_def)
qed

theorem menu_delete_by_number_witness:
  "notes_abs (demo_proc Map.empty milk_notes) = Some (map (\<lambda>v. the (json_note v)) milk_notes) \<and>
   map (\<lambda>v. the (json_note v)) milk_notes \<noteq> [] \<and>
   (\<exists>q. menu_step t0 [Line ''3'', Line (int_str 2)] (demo_proc Map.empty milk_notes) = Continue [] q \<and>
        notes_abs q = Some (spec_delete 2 (map (\<lambda>v. the (json_note v)) milk_notes)))"
proof -
  have h: "notes_abs (demo_proc Map.empty milk_notes) = Some (map (\<lambda>v. the (json_note v)) milk_notes)"
    by (simp add: notes_abs_def milk_notes_def)
  have n: "map (\<lambda>v. the (json_note v)) milk_notes \<noteq> []" by (simp add: milk_notes_def)
  show ?thesis using h n menu_delete_by_number [OF h n, of t0 2 "[]"] by blast
qed

text \<open>C25. The menu's delete, aborted: on a non-empty store of notes, a line
  that \<^verbatim>\<open>int()\<close> rejects prints the error message and Ctrl-C at the prompt
  prints the cancel message; either way the notes and the file are unchanged
  and the loop goes on.\<close>

theorem menu_delete_aborts:
  assumes "notes_abs p = Some ns" and "ns \<noteq> []"
  shows "(py_int (py_strip s) = None \<longrightarrow>
            (\<exists>q. menu_step now (Line ''3'' # Line s # ins) p = Continue ins q \<and>
                 db q = db p \<and> disk q = disk p \<and> last (out q) = BadNumber)) \<and>
         (\<exists>q. menu_step now (Line ''3'' # CtrlC # ins) p = Continue ins q \<and>
              db q = db p \<and> disk q = disk p \<and> last (out q) = Cancelled)"
proof -
  have a: "notes_abs (print_menu p) = Some ns" using assms(1) by (simp add: print_menu_def)
  have m: "db (print_menu p) = db p" "disk (print_menu p) = disk p" by (simp_all add: print_menu_def)
  have bad: "\<exists>q. menu_step now (Line ''3'' # Line s # ins) p = Continue ins q \<and>
                 db q = db p \<and> disk q = disk p \<and> last (out q) = BadNumber"
    if n: "py_int (py_strip s) = None"
  proof -
    obtain p1 where "db p1 = db p" "disk p1 = disk p"
      "handle_delete_note (Line s # ins) (print_menu p) = (Inr (), ins, print_msg BadNumber p1)"
      using handle_delete_note_prompt [OF a assms(2), of "Line s # ins"] m n
      by (auto simp: delete_catch_def)
    then show ?thesis by (simp add: menu_step_def py_strip_choices after_handler_def)
  qed
  obtain p1 where "db p1 = db p" "disk p1 = disk p"
    "handle_delete_note (CtrlC # ins) (print_menu p) = (Inr (), ins, print_msg Cancelled p1)"
    using handle_delete_note_prompt [OF a assms(2), of "CtrlC # ins"] m
    by (auto simp: delete_catch_def)
  then show ?thesis using bad by (simp add: menu_step_def py_strip_choices after_handler_def)
qed

theorem menu_delete_aborts_witness:
  "notes_abs (demo_proc Map.empty milk_notes) = Some (map (\<lambda>v. the (json_note v)) milk_notes) \<and>
   map (\<lambda>v. the (json_note v)) milk_notes \<noteq> [] \<and>
   py_int (py_strip ''two'') = None \<and>
   (\<exists>q. menu_step t0 [Line ''3'', Line ''two''] (demo_proc Map.empty milk_notes) = Continue [] q \<and>
        db q = db (demo_proc Map.empty milk_notes) \<and> disk q = Map.empty \<and> last (out q) = BadNumber)"
proof -
  have h: "notes_abs (demo_proc Map.empty milk_notes) = Some (map (\<lambda>v. the (json_note v)) milk_notes)"
    by (simp add: notes_abs_def milk_notes_def)
  have n: "map (\<lambda>v. the (json_note v)) milk_notes \<noteq> []" by (simp add: milk_notes_def)
  have i: "py_int (py_strip ''two'') = None"
    by (simp add: py_int_def py_strip_def py_isspace_def py_digits_def is_digit_def)
  show ?thesis using h n i menu_delete_aborts [OF h n, of "''two''" t0 "[]"] by simp
qed

text \<open>C27. Leaving the shell: the choice 0 (with any surrounding whitespace)
  says goodbye and exits with status 0, whatever input follows.\<close>

theorem menu_exit_on_zero:
  "py_strip s = ''0'' \<Longrightarrow>
   menu_loop (Suc n) clock k (Line s # ins) p = Some (Exited 0, prints [MenuText, Goodbye] p)"
  by (simp add: menu_step_def print_menu_def print_msg_def prints_def)

theorem menu_exit_on_zero_witness:
  "py_strip '' 0 '' = ''0'' \<and>
   menu_loop 1 (\<lambda>_. t0) 0 [Line '' 0 '', Line ''1''] (demo_proc Map.empty []) =
     Some (Exited 0, prints [MenuText, Goodbye] (demo_proc Map.empty []))"
proof -
  have s: "py_strip '' 0 '' = ''0''" by (simp add: py_strip_def py_isspace_def)
  show ?thesis using s menu_exit_on_zero [OF s, of 0 "\<lambda>_. t0" 0 "[Line ''1'']"] by simp
qed

text \<open>C26. Ctrl-C: at the menu prompt, and also at the prompt for the text of
  a new note or for a search keyword, it ends the whole program with the
  goodbye message and status 0; the spec has an interrupt during an operation
  abort only that operation, as the delete prompt does.\<close>

theorem menu_ctrl_c_exits:
  "menu_step now (CtrlC # ins) p = Stop (Exited 0) (prints [MenuText, Goodbye] p) \<and>
   menu_step now (Line ''1'' # CtrlC # ins) p = Stop (Exited 0) (prints [MenuText, AddHeading, Goodbye] p) \<and>
   menu_step now (Line ''4'' # CtrlC # ins) p = Stop (Exited 0) (prints [MenuText, SearchHeading, Goodbye] p)"
  by (simp add: menu_step_def py_strip_choices after_handler_def loop_catch_def handle_add_note_def
                handle_search_notes_def print_menu_def print_msg_def prints_def)

text \<open>C28. An empty or all-whitespace keyword is refused by the shell with a
  message and \<^verbatim>\<open>search_notes\<close> is not called.\<close>

theorem menu_search_empty_keyword:
  "list_all py_isspace s \<Longrightarrow>
   menu_step now (Line ''4'' # Line s # ins) p =
     Continue ins (prints [MenuText, SearchHeading, EmptyKeyword] p)"
proof -
  assume "list_all py_isspace s"
  then have "py_strip s = []" using blank_guard_iff [of s] by (auto simp: py_strip_def)
  then show ?thesis
    by (simp add: menu_step_def py_strip_choices after_handler_def handle_search_notes_def
                  print_menu_def print_msg_def prints_def)
qed

theorem menu_search_empty_keyword_witness:
  "list_all py_isspace ''  '' \<and>
   menu_step t0 [Line ''4'', Line ''  ''] (demo_proc Map.empty []) =
     Continue [] (prints [MenuText, SearchHeading, EmptyKeyword] (demo_proc Map.empty []))"
  using menu_search_empty_keyword [of "''  ''" t0 "[]" "demo_proc Map.empty []"]
  by (simp add: py_isspace_def)

text \<open>C29. Any other choice prints the invalid-choice message and the menu
  comes back, with nothing else changed.\<close>

theorem menu_bad_choice:
  "py_strip s \<notin> {''0'', ''1'', ''2'', ''3'', ''4''} \<Longrightarrow>
   menu_step now (Line s # ins) p = Continue ins (prints [MenuText, BadChoice] p)"
  by (simp add: menu_step_def print_menu_def print_msg_def prints_def)

theorem menu_bad_choice_witness:
  "py_strip ''5'' \<notin> {''0'', ''1'', ''2'', ''3'', ''4''} \<and>
   menu_step t0 [Line ''5''] (demo_proc Map.empty []) =
     Continue [] (prints [MenuText, BadChoice] (demo_proc Map.empty []))"
proof -
  have s: "py_strip ''5'' \<notin> {''0'', ''1'', ''2'', ''3'', ''4''}" by (simp add: py_strip_def py_isspace_def)
  show ?thesis using s menu_bad_choice [OF s, of t0 "[]" "demo_proc Map.empty []"] by simp
qed

text \<open>C19. Standard input closed from the start (\<^verbatim>\<open>python main.py < /dev/null\<close>)
  with no notes file: the program never ends. Every pass of the loop prints
  the menu, \<^verbatim>\<open>input()\<close> raises \<^verbatim>\<open>EOFError\<close>, the loop's
  \<^verbatim>\<open>except Exception\<close> prints it and starts the next pass; no amount of
  fuel gives a result.\<close>

theorem main_closed_stdin_runs_forever:
  "d ''notes.json'' = None \<Longrightarrow> main_prog n clock [] d = None"
  by (simp add: main_prog_def db_load_def Database_init_def db_get_notes_count_def menu_loop_closed)

theorem main_closed_stdin_runs_forever_witness:
  "(Map.empty :: disk) ''notes.json'' = None \<and> main_prog 1000 (\<lambda>_. t0) [] Map.empty = None"
  using main_closed_stdin_runs_forever [of Map.empty 1000 "\<lambda>_. t0"] by simp

text \<open>C20. A notes file whose bytes are not UTF-8: \<^verbatim>\<open>load()\<close> does not catch
  the \<^verbatim>\<open>UnicodeDecodeError\<close> and \<^verbatim>\<open>main\<close> calls it outside any
  \<^verbatim>\<open>try\<close>, so the program stops with a traceback right after the welcome
  line. The spec has a file that cannot be read reset the store to empty.\<close>

theorem main_undecodable_file_crashes:
  "d ''notes.json'' = Some Undecodable \<Longrightarrow>
   main_prog n clock ins d =
     Some (Crashed UnicodeDecodeError, \<lparr>db = Database_init ''notes.json'', disk = d, out = [Welcome]\<rparr>)"
  by (simp add: main_prog_def db_load_def print_msg_def Database_init_def)

theorem main_undecodable_file_crashes_witness:
  "[''notes.json'' \<mapsto> Undecodable] ''notes.json'' = Some Undecodable \<and>
   main_prog 5 (\<lambda>_. t0) [Line ''0''] [''notes.json'' \<mapsto> Undecodable] =
     Some (Crashed UnicodeDecodeError,
           \<lparr>db = Database_init ''notes.json'', disk = [''notes.json'' \<mapsto> Undecodable], out = [Welcome]\<rparr>)"
  using main_undecodable_file_crashes [of "[''notes.json'' \<mapsto> Undecodable]" 5 "\<lambda>_. t0" "[Line ''0'']"]
  by simp

text \<open>C21. A notes file that holds valid JSON without a length (a number,
  \<^verbatim>\<open>true\<close>, \<^verbatim>\<open>null\<close>): \<^verbatim>\<open>load()\<close> accepts it, and the count printed at
  start-up, \<^verbatim>\<open>len(self.notes)\<close>, raises outside any \<^verbatim>\<open>try\<close>, so the
  program stops with a traceback. The spec has the file hold a JSON array and
  says nothing of other values.\<close>

theorem main_scalar_file_crashes:
  assumes "d ''notes.json'' = Some (Regular txt)" and "json_loads txt = Some v"
    and "py_len v = Inl e"
  shows "main_prog n clock ins d =
           Some (Crashed e, \<lparr>db = \<lparr>filename = ''notes.json'', db_notes = v\<rparr>, disk = d, out = [Welcome]\<rparr>)"
  using assms
  by (simp add: main_prog_def db_load_def Database_init_def db_get_notes_count_def print_msg_def
                set_notes_def)

theorem main_scalar_file_crashes_witness:
  "[''notes.json'' \<mapsto> Regular ''5''] ''notes.json'' = Some (Regular ''5'') \<and>
   json_loads ''5'' = Some (JInt 5) \<and> py_len (JInt 5) = Inl TypeError \<and>
   main_prog 5 (\<lambda>_. t0) [Line ''0''] [''notes.json'' \<mapsto> Regular ''5''] =
     Some (Crashed TypeError, \<lparr>db = \<lparr>filename = ''notes.json'', db_notes = JInt 5\<rparr>,
                              disk = [''notes.json'' \<mapsto> Regular ''5''], out = [Welcome]\<rparr>)"
proof -
  have j: "json_loads ''5'' = Some (JInt 5)"
    by (simp add: json_eval)
  show ?thesis
    using j main_scalar_file_crashes [of "[''notes.json'' \<mapsto> Regular ''5'']" "''5''" "JInt 5" TypeError 5
                                         "\<lambda>_. t0" "[Line ''0'']"]
    by simp
qed

text \<open>C22. Spec section 8, loading: with no notes file, with a file that
  cannot be opened, or with a file that is not valid JSON (one without a
  \<^verbatim>\<open>\uXXXX\<close> escape above U+00FF, see \<open>wide_escape\<close>), the program
  starts with the empty store (after printing the load warning in the last
  two cases), reports 0 notes and enters the menu loop.\<close>

theorem main_starts_empty:
  assumes "d ''notes.json'' = None \<or> d ''notes.json'' = Some NoAccess \<or>
           (\<exists>t. d ''notes.json'' = Some (Regular t) \<and> json_loads t = None \<and> \<not> wide_escape t)"
  shows "\<exists>ms. main_prog n clock ins d =
                 menu_loop n clock 0 ins \<lparr>db = Database_init ''notes.json'', disk = d,
                                          out = Welcome # ms @ [LoadedCount 0]\<rparr> \<and>
               ms \<in> {[], [LoadFailed IOError], [LoadFailed JSONDecodeError]}"
proof -
  from assms consider "d ''notes.json'' = None" | "d ''notes.json'' = Some NoAccess"
    | t where "d ''notes.json'' = Some (Regular t)" "json_loads t = None" by metis
  then show ?thesis
  proof cases
    case 1
    then show ?thesis
      by (intro exI [of _ "[]"])
         (simp add: main_prog_def db_load_def Database_init_def db_get_notes_count_def print_msg_def
                    set_notes_def)
  next
    case 2
    then show ?thesis
      by (intro exI [of _ "[LoadFailed IOError]"])
         (simp add: main_prog_def db_load_def Database_init_def db_get_notes_count_def print_msg_def
                    set_notes_def)
  next
    case 3
    then show ?thesis
      by (intro exI [of _ "[LoadFailed JSONDecodeError]"])
         (simp add: main_prog_def db_load_def Database_init_def db_get_notes_count_def print_msg_def
                    set_notes_def)
  qed
qed

theorem main_starts_empty_witness:
  "[''notes.json'' \<mapsto> Regular ''[1,]''] ''notes.json'' = Some (Regular ''[1,]'') \<and>
   json_loads ''[1,]'' = None \<and> \<not> wide_escape ''[1,]'' \<and>
   main_prog 3 (\<lambda>_. t0) [Line ''0''] [''notes.json'' \<mapsto> Regular ''[1,]''] =
     menu_loop 3 (\<lambda>_. t0) 0 [Line ''0'']
       \<lparr>db = Database_init ''notes.json'', disk = [''notes.json'' \<mapsto> Regular ''[1,]''],
        out = [Welcome, LoadFailed JSONDecodeError, LoadedCount 0]\<rparr>"
proof -
  have j: "json_loads ''[1,]'' = None" by (simp add: json_eval)
  have w: "\<not> wide_escape ''[1,]''" by simp
  have "json_loads ''[1,]'' = None \<and> \<not> wide_escape ''[1,]''" using j w ..
  then obtain ms where
    "main_prog 3 (\<lambda>_. t0) [Line ''0''] [''notes.json'' \<mapsto> Regular ''[1,]''] =
       menu_loop 3 (\<lambda>_. t0) 0 [Line ''0'']
         \<lparr>db = Database_init ''notes.json'', disk = [''notes.json'' \<mapsto> Regular ''[1,]''],
          out = Welcome # ms @ [LoadedCount 0]\<rparr>"
    "ms \<in> {[], [LoadFailed IOError], [LoadFailed JSONDecodeError]}"
    using main_starts_empty [of "[''notes.json'' \<mapsto> Regular ''[1,]'']" 3 "\<lambda>_. t0" "[Line ''0'']"] by auto
  moreover have "main_prog 3 (\<lambda>_. t0) [Line ''0''] [''notes.json'' \<mapsto> Regular ''[1,]''] =
       menu_loop 3 (\<lambda>_. t0) 0 [Line ''0'']
         \<lparr>db = Database_init ''notes.json'', disk = [''notes.json'' \<mapsto> Regular ''[1,]''],
          out = [Welcome, LoadFailed JSONDecodeError, LoadedCount 0]\<rparr>"
    using j by (simp add: main_prog_def db_load_def Database_init_def db_get_notes_count_def print_msg_def
                          set_notes_def)
  ultimately show ?thesis using j w by simp
qed

lemma errs_simps [simp]:
  "errs (print_msg m p) = errs p @ err_of m"
  "errs (prints ms p) = errs p @ concat (map err_of ms)"
  "errs (set_notes v p) = errs p"
  "errs (snd (db_save p)) = errs p"
  by (simp_all add: errs_def print_msg_def prints_def set_notes_def db_save_def)

lemma errs_print_items: "print_items xs p = (r, q) \<Longrightarrow> errs q = errs p"
  by (induction xs p arbitrary: r rule: print_items.induct) (auto split: sum.splits)

lemma errs_utils:
  "errs (snd (add_note s now p)) = errs p"
  "errs (snd (show_all_notes p)) = errs p"
  "errs (snd (delete_note k p)) = errs p"
  "errs (snd (display_search_results rs p)) = errs p"
  by (auto simp: add_note_def db_add_note_def db_get_notes_count_def show_all_notes_def Let_def
                 delete_note_def db_remove_note_def display_search_results_def
           split: sum.split prod.split json.split bool.split dest!: errs_print_items)

lemma py_input_exc: "py_input ins = (Inl e, ins') \<Longrightarrow> e = EOFError \<or> e = KeyboardInterrupt"
  by (cases ins rule: py_input.cases) auto

lemma errs_utils_eq:
  "add_note s now p = (r, q) \<Longrightarrow> errs q = errs p"
  "show_all_notes p = (r', q) \<Longrightarrow> errs q = errs p"
  "delete_note k p = (r, q) \<Longrightarrow> errs q = errs p"
  "display_search_results rs p = (r', q) \<Longrightarrow> errs q = errs p"
  by (metis errs_utils snd_conv)+

lemma handlers_errs:
  "errs (snd (snd (handle_add_note now ins p))) = errs p"
  "errs (snd (snd (handle_show_notes ins p))) = errs p"
  "errs (snd (snd (handle_delete_note ins p))) = errs p"
  "errs (snd (snd (handle_search_notes ins p))) = errs p"
  by (auto simp: handle_add_note_def handle_show_notes_def handle_delete_note_def delete_catch_def
                 handle_search_notes_def Let_def
           split: prod.split sum.split option.split if_split dest!: errs_utils_eq)

lemma store_ok_out [simp]:
  "store_ok (print_msg m p) = store_ok p" "store_ok (prints ms p) = store_ok p"
  by (simp_all add: store_ok_def)

lemma handle_add_note_ok:
  assumes "store_ok p"
  shows "store_ok (snd (snd (handle_add_note now ins p))) \<and> input_exc (fst (handle_add_note now ins p))"
proof (cases "py_input ins")
  case (Pair r ins')
  show ?thesis
  proof (cases r)
    case (Inl e)
    then show ?thesis using Pair assms py_input_exc [of ins e ins']
      by (auto simp: handle_add_note_def input_exc_def)
  next
    case (Inr s)
    obtain vs where vs: "db_notes (db p) = JArray vs" using store_ok_JArray [OF assms] by blast
    have a: "notes_abs (print_msg AddHeading p) \<noteq> None" using assms by (simp add: store_ok_iff)
    have "store_ok (snd (add_note (py_strip s) now (print_msg AddHeading p)))"
      using a notes_abs_add_note by (auto simp: store_ok_iff)
    moreover have "\<not> isl (fst (add_note (py_strip s) now (print_msg AddHeading p)))"
      using vs by (auto simp: add_note_def db_add_note_JArray db_get_notes_count_def)
    ultimately show ?thesis using Pair Inr
      by (auto simp: handle_add_note_def input_exc_def split: prod.split sum.split)
  qed
qed

lemma handle_show_notes_ok:
  assumes "store_ok p"
  shows "store_ok (snd (snd (handle_show_notes ins p))) \<and> input_exc (fst (handle_show_notes ins p))"
proof -
  obtain vs where "db_notes (db p) = JArray vs" "list_all note_ok vs" using store_ok_JArray [OF assms] by blast
  then have "fst (show_all_notes p) = Inr ()" using show_all_notes_eq by simp
  moreover have "store_ok (snd (show_all_notes p))"
    using assms show_all_notes_frame store_ok_db_eq by blast
  ultimately show ?thesis by (cases "show_all_notes p") (simp add: handle_show_notes_def input_exc_def)
qed

lemma handle_search_notes_ok:
  assumes "store_ok p"
  shows "store_ok (snd (snd (handle_search_notes ins p))) \<and> input_exc (fst (handle_search_notes ins p))"
proof (cases "py_input ins")
  case (Pair r ins')
  show ?thesis
  proof (cases r)
    case (Inl e)
    then show ?thesis using Pair assms py_input_exc [of ins e ins']
      by (auto simp: handle_search_notes_def input_exc_def)
  next
    case (Inr s)
    let ?p1 = "print_msg SearchHeading p"
    obtain vs where vs: "db_notes (db ?p1) = JArray vs" "list_all note_ok vs"
      using store_ok_JArray assms by fastforce
    let ?rs = "filter (\<lambda>x. matches (py_strip s) (snd x)) (enumerate 1 vs)"
    have "list_all note_ok (map snd ?rs)" using vs(2) by (rule list_all_filter_map_snd)
    then have "fst (display_search_results ?rs ?p1) = Inr ()"
      using print_items_ok by (simp add: display_search_results_def)
    moreover have "store_ok (snd (display_search_results ?rs ?p1))"
      using assms display_search_results_frame store_ok_db_eq store_ok_out(1) by metis
    ultimately show ?thesis using Pair Inr assms search_notes_eq [OF vs, of "py_strip s"]
      by (auto simp: handle_search_notes_def input_exc_def Let_def split: prod.split)
  qed
qed

lemma handle_delete_note_ok:
  assumes "store_ok p"
  shows "store_ok (snd (snd (handle_delete_note ins p))) \<and> input_exc (fst (handle_delete_note ins p))"
proof -
  obtain ns where ns: "notes_abs p = Some ns" using assms by (auto simp: store_ok_iff)
  show ?thesis
  proof (cases "ns = []")
    case True
    obtain vs where "db_notes (db p) = JArray vs" "list_all note_ok vs" "vs = []"
      using ns True by (auto simp: notes_abs_Some)
    then show ?thesis using assms
      by (simp add: handle_delete_note_def show_all_notes_eq db_get_notes_count_def input_exc_def)
  next
    case False
    obtain p1 where p1: "db p1 = db p" and
      h: "handle_delete_note ins p =
           (case py_input ins of
             (Inl e, ins') \<Rightarrow> delete_catch e ins' p1
           | (Inr s, ins') \<Rightarrow>
               (case py_int (py_strip s) of
                 None \<Rightarrow> delete_catch ValueError ins' p1
               | Some k \<Rightarrow>
                   (case delete_note k p1 of
                     (Inl e, p2) \<Rightarrow> delete_catch e ins' p2
                   | (Inr _, p2) \<Rightarrow> (Inr (), ins', p2))))"
      using handle_delete_note_prompt [OF ns False] by blast
    have ok1: "store_ok p1" using assms p1 store_ok_db_eq by blast
    have n1: "notes_abs p1 = Some ns" using ns p1 by (simp add: notes_abs_def)
    show ?thesis
    proof (cases "py_input ins")
      case (Pair r ins')
      show ?thesis
      proof (cases r)
        case (Inl e)
        then show ?thesis using Pair h ok1 py_input_exc [of ins e ins']
          by (auto simp: delete_catch_def input_exc_def)
      next
        case (Inr s)
        show ?thesis
        proof (cases "py_int (py_strip s)")
          case None
          then show ?thesis using Pair Inr h ok1 by (simp add: delete_catch_def input_exc_def)
        next
          case (Some k)
          obtain q where "delete_note k p1 = (Inr (1 \<le> k \<and> k \<le> int (length ns)), q)"
            "notes_abs q = Some (spec_delete k ns)"
            using delete_note_abs [OF n1] by blast
          then show ?thesis using Pair Inr Some h by (simp add: input_exc_def store_ok_iff)
        qed
      qed
    qed
  qed
qed

lemma step_ok_simps [simp]:
  "step_ok E (Stop st q) \<longleftrightarrow> st = Exited 0 \<and> store_ok q \<and> set (errs q) \<subseteq> set E \<union> {EOFError}"
  "step_ok E (Continue ins q) \<longleftrightarrow> store_ok q \<and> set (errs q) \<subseteq> set E \<union> {EOFError}"
  by (simp_all add: step_ok_def)

lemma after_handler_ok:
  assumes "store_ok (snd (snd h))" and "input_exc (fst h)" and "errs (snd (snd h)) = E"
  shows "step_ok E (after_handler h)"
  using assms
  by (cases h) (auto simp: after_handler_def loop_catch_def input_exc_def step_ok_def)

lemma menu_step_ok:
  assumes "store_ok p"
  shows "step_ok (errs p) (menu_step now ins p)"
proof (cases "py_input ins")
  case (Pair r ins')
  have ok1: "store_ok (print_menu p)" and e1: "errs (print_menu p) = errs p"
    using assms by (simp_all add: print_menu_def)
  show ?thesis
  proof (cases r)
    case (Inl e)
    then show ?thesis using Pair ok1 e1 py_input_exc [of ins e ins']
      by (auto simp: menu_step_def loop_catch_def)
  next
    case (Inr s)
    have h: "step_ok (errs p) (after_handler (handle_add_note now ins' (print_menu p)))"
      "step_ok (errs p) (after_handler (handle_show_notes ins' (print_menu p)))"
      "step_ok (errs p) (after_handler (handle_delete_note ins' (print_menu p)))"
      "step_ok (errs p) (after_handler (handle_search_notes ins' (print_menu p)))"
      using handle_add_note_ok [OF ok1] handle_show_notes_ok [OF ok1] handle_delete_note_ok [OF ok1]
            handle_search_notes_ok [OF ok1] handlers_errs e1
      by (auto intro!: after_handler_ok)
    show ?thesis using Pair Inr h ok1 e1 by (auto simp: menu_step_def Let_def)
  qed
qed

text \<open>C9. Safety of the shell (spec section 7): started on a store of notes,
  the loop ends, when it ends, by \<^verbatim>\<open>sys.exit(0)\<close> and never by an
  exception; the store it leaves is still a list of notes; and the only error
  it reports through its \<^verbatim>\<open>except Exception\<close> clause is the end of the input
  (\<^verbatim>\<open>EOFError\<close>): no operation of utils.py or Database raises.\<close>

theorem menu_loop_safe:
  assumes "store_ok p" and "menu_loop n clock k ins p = Some (st, q)"
  shows "st = Exited 0 \<and> store_ok q \<and> set (errs q) \<subseteq> set (errs p) \<union> {EOFError}"
  using assms
proof (induction n arbitrary: k ins p)
  case (Suc n)
  have s: "step_ok (errs p) (menu_step (clock k) ins p)" by (rule menu_step_ok [OF Suc.prems(1)])
  show ?case
  proof (cases "menu_step (clock k) ins p")
    case (Continue ins' p')
    then have "store_ok p'" "set (errs p') \<subseteq> set (errs p) \<union> {EOFError}"
      and "menu_loop n clock (Suc k) ins' p' = Some (st, q)"
      using s Suc.prems(2) by (simp_all add: step_ok_def)
    then show ?thesis using Suc.IH by blast
  next
    case (Stop st' p')
    then show ?thesis using s Suc.prems(2) by (simp add: step_ok_def)
  qed
qed simp

theorem menu_loop_safe_witness:
  "store_ok (demo_proc Map.empty []) \<and>
   menu_loop 3 (\<lambda>_. t0) 0 [CtrlD, Line ''5'', Line ''0''] (demo_proc Map.empty []) =
     Some (Exited 0, prints [MenuText, ErrorOccurred EOFError, MenuText, BadChoice, MenuText, Goodbye]
                        (demo_proc Map.empty [])) \<and>
   set (errs (prints [MenuText, ErrorOccurred EOFError, MenuText, BadChoice, MenuText, Goodbye]
                (demo_proc Map.empty []))) \<subseteq> set (errs (demo_proc Map.empty [])) \<union> {EOFError}"
proof -
  let ?p = "demo_proc Map.empty []"
  let ?q = "prints [MenuText, ErrorOccurred EOFError, MenuText, BadChoice, MenuText, Goodbye] ?p"
  have ok: "store_ok ?p" by (simp add: store_ok_def)
  have r: "menu_loop 3 (\<lambda>_. t0) 0 [CtrlD, Line ''5'', Line ''0''] ?p = Some (Exited 0, ?q)"
    by (simp add: eval_nat_numeral menu_step_def loop_catch_def print_menu_def print_msg_def prints_def
                  py_strip_def py_isspace_def)
  show ?thesis using ok r menu_loop_safe [OF ok r] by simp
qed

end
