(* ===== verification/Persistence.thy ===== *)
theory Persistence
  imports Menu
begin

text \<open>
  Durability across runs (spec sections 3 and 9: the store is durable after
  every successful mutating call). \<open>reload p\<close> is what
  \<^verbatim>\<open>Database(filename).load()\<close> returns in a new process started on the disk
  \<open>p\<close> leaves; \<open>durable p\<close> says the file can be written and that a reload
  gives back the list in memory. Every method, every function of utils.py,
  every handler and every pass of the menu loop keeps \<open>durable\<close>, so a run
  that ends by the menu's exit leaves a file from which the next run starts
  with the same notes.
\<close>

definition reload :: "proc \<Rightarrow> json py_result" where
  "reload p = fst (db_load \<lparr>db = Database_init (filename (db p)), disk = disk p, out = []\<rparr>)"

definition durable :: "proc \<Rightarrow> bool" where
  "durable p \<longleftrightarrow> writable p \<and> reload p = Inr (db_notes (db p))"

fun step_proc :: "step_result \<Rightarrow> proc" where
  "step_proc (Stop st q) = q"
| "step_proc (Continue ins q) = q"

section \<open>Lemmas\<close>

lemma db_load_fst_cong:
  "disk q = disk p \<Longrightarrow> filename (db q) = filename (db p) \<Longrightarrow> fst (db_load q) = fst (db_load p)"
  by (simp add: db_load_def split: option.splits fentry.splits)

lemma durable_cong: "db q = db p \<Longrightarrow> disk q = disk p \<Longrightarrow> durable q \<longleftrightarrow> durable p"
  by (simp add: durable_def writable_def reload_def)

lemma durable_out [simp]:
  "durable (print_msg m p) \<longleftrightarrow> durable p" "durable (prints ms p) \<longleftrightarrow> durable p"
  by (simp_all add: durable_def writable_def reload_def print_msg_def prints_def)

lemma durable_json_ok: "durable p \<Longrightarrow> json_ok (db_notes (db p))"
  using db_load_Inr [of "\<lparr>db = Database_init (filename (db p)), disk = disk p, out = []\<rparr>"]
  by (auto simp: durable_def reload_def prod_eq_iff)

lemma durable_save:
  "writable p \<Longrightarrow> json_ok v \<Longrightarrow> durable (snd (db_save (set_notes v p)))"
  by (simp add: db_save_set_notes durable_def reload_def db_load_def Database_init_def writable_def
                json_loads_dump)

lemma set_pop_at: "set (pop_at xs i) \<subseteq> set xs"
  using set_take_subset [of i xs] set_drop_subset [of "Suc i" xs] by (auto simp: pop_at_def)

lemma durable_writable: "durable p \<Longrightarrow> writable p"
  by (simp add: durable_def)

lemma durable_db_add_note:
  assumes "durable p" and "json_ok n"
  shows "durable (snd (db_add_note n p))"
proof (cases "db_notes (db p)")
  case (JArray vs)
  then have "json_ok (JArray (vs @ [n]))" using durable_json_ok [OF assms(1)] assms(2) by auto
  then show ?thesis using JArray durable_save [OF durable_writable [OF assms(1)]] by (simp add: db_add_note_def)
qed (use assms in \<open>simp_all add: db_add_note_def\<close>)

lemma durable_db_remove_note:
  assumes "durable p"
  shows "durable (snd (db_remove_note i p))"
proof (cases "db_notes (db p)")
  case (JArray vs)
  then have "json_ok (JArray (pop_at vs k))" for k using durable_json_ok [OF assms] set_pop_at by fastforce
  then show ?thesis using JArray assms durable_save [OF durable_writable [OF assms]]
    by (simp add: db_remove_note_def split: sum.splits)
qed (use assms in \<open>simp_all add: db_remove_note_def split: sum.splits\<close>)

lemma db_load_frame: "db_load p = (r, q) \<Longrightarrow> disk q = disk p \<and> filename (db q) = filename (db p)"
  by (auto simp: db_load_def print_msg_def split: option.splits fentry.splits)

lemma durable_after_load:
  assumes "db_load p = (Inr v, q)" and "writable p"
  shows "durable q"
proof -
  have f: "disk q = disk p" "filename (db q) = filename (db p)" using db_load_frame [OF assms(1)] by auto
  have "reload q = fst (db_load p)"
    unfolding reload_def by (rule db_load_fst_cong) (simp_all add: f Database_init_def)
  then show ?thesis using assms db_load_Inr [OF assms(1)] f by (simp add: durable_def writable_def)
qed

lemma durable_utils:
  assumes "durable p"
  shows "durable (snd (add_note s now p))" "durable (snd (delete_note k p))"
    "durable (snd (show_all_notes p))" "durable (snd (display_search_results rs p))"
proof -
  have a: "durable (snd (db_add_note (create_note s now) p))"
    using durable_db_add_note [OF assms json_ok_create] .
  have d: "durable (snd (db_remove_note (k - 1) p))" using durable_db_remove_note [OF assms] .
  show "durable (snd (add_note s now p))" using assms a
    by (auto simp: add_note_def split: prod.split sum.split)
  show "durable (snd (delete_note k p))" using d
    by (auto simp: delete_note_def split: prod.split sum.split bool.split)
  show "durable (snd (show_all_notes p))"
    using assms show_all_notes_frame durable_cong by blast
  show "durable (snd (display_search_results rs p))"
    using assms display_search_results_frame durable_cong by blast
qed

lemma durable_utils_eq:
  "add_note s now p = (r, q) \<Longrightarrow> durable p \<Longrightarrow> durable q"
  "delete_note k p = (r, q) \<Longrightarrow> durable p \<Longrightarrow> durable q"
  "show_all_notes p = (r', q) \<Longrightarrow> durable p \<Longrightarrow> durable q"
  "display_search_results rs p = (r', q) \<Longrightarrow> durable p \<Longrightarrow> durable q"
  by (metis durable_utils snd_conv)+

lemma durable_handlers:
  assumes "durable p"
  shows "durable (snd (snd (handle_add_note now ins p)))"
    "durable (snd (snd (handle_show_notes ins p)))"
    "durable (snd (snd (handle_delete_note ins p)))"
    "durable (snd (snd (handle_search_notes ins p)))"
  using assms
  by (auto simp: handle_add_note_def handle_show_notes_def handle_delete_note_def delete_catch_def
                 handle_search_notes_def Let_def
           split: prod.split sum.split option.split if_split dest: durable_utils_eq)

lemma durable_after_handler: "durable (snd (snd h)) \<Longrightarrow> durable (step_proc (after_handler h))"
  by (cases h) (auto simp: after_handler_def loop_catch_def split: sum.split)

lemma durable_menu_step: "durable p \<Longrightarrow> durable (step_proc (menu_step now ins p))"
  using durable_handlers [of "print_menu p"]
  by (auto simp: menu_step_def print_menu_def loop_catch_def Let_def
           split: prod.split sum.split intro!: durable_after_handler)

lemma durable_menu_loop:
  "menu_loop n clock k ins p = Some (st, q) \<Longrightarrow> durable p \<Longrightarrow> durable q"
proof (induction n arbitrary: k ins p)
  case (Suc n)
  show ?case
  proof (cases "menu_step (clock k) ins p")
    case (Stop st' q')
    then show ?thesis using Suc.prems durable_menu_step [of p "clock k" ins] by simp
  next
    case (Continue ins' q')
    then show ?thesis using Suc durable_menu_step [of p "clock k" ins] by simp
  qed
qed simp

lemma durable_main:
  assumes "main_prog n clock ins d = Some (Exited 0, q)" and "d ''notes.json'' \<noteq> Some NoAccess"
  shows "durable q"
proof -
  let ?p0 = "print_msg Welcome \<lparr>db = Database_init ''notes.json'', disk = d, out = []\<rparr>"
  obtain r p1 where l: "db_load ?p0 = (r, p1)" by fastforce
  have w: "writable ?p0" using assms(2) by (simp add: writable_def print_msg_def Database_init_def)
  show ?thesis
  proof (cases r)
    case (Inl e)
    then show ?thesis using assms(1) l by (simp add: main_prog_def)
  next
    case (Inr v)
    have d1: "durable p1" using durable_after_load [OF _ w] l Inr by simp
    obtain c where c: "db_get_notes_count p1 = Inr c"
      using assms(1) l Inr by (cases "db_get_notes_count p1") (auto simp: main_prog_def)
    have "menu_loop n clock 0 ins (print_msg (LoadedCount c) p1) = Some (Exited 0, q)"
      using assms(1) l Inr c by (simp add: main_prog_def)
    then show ?thesis using durable_menu_loop d1 by simp
  qed
qed

text \<open>C14. Durability across runs (spec sections 3 and 9): when a run of
  the program ends by the menu's exit and the notes file could be opened for
  writing, a new \<^verbatim>\<open>Database\<close> on the same file loads exactly the notes the
  run ended with: every change the run made was saved, and a run that
  changed nothing leaves a file that loads to what it loaded.\<close>

theorem main_restart_reloads:
  assumes "main_prog n clock ins d = Some (Exited 0, q)" and "d ''notes.json'' \<noteq> Some NoAccess"
  shows "fst (db_load \<lparr>db = Database_init (filename (db q)), disk = disk q, out = []\<rparr>) = Inr (db_notes (db q))"
  using durable_main [OF assms] by (simp add: durable_def reload_def)

theorem main_restart_reloads_witness:
  "\<exists>q. main_prog 3 (\<lambda>_. t0) [Line ''1'', Line ''Buy milk'', Line ''0''] Map.empty = Some (Exited 0, q) \<and>
       db_notes (db q) = JArray [create_note ''Buy milk'' t0] \<and>
       fst (db_load \<lparr>db = Database_init (filename (db q)), disk = disk q, out = []\<rparr>) =
         Inr (JArray [create_note ''Buy milk'' t0])"
proof -
  let ?q = "\<lparr>db = \<lparr>filename = ''notes.json'', db_notes = JArray [create_note ''Buy milk'' t0]\<rparr>,
            disk = [''notes.json'' \<mapsto> Regular (json_dump (JArray [create_note ''Buy milk'' t0]))],
            out = [Welcome, LoadedCount 0, MenuText, AddHeading, Added 1, MenuText, Goodbye]\<rparr>"
  have b: "py_strip ''Buy milk'' = ''Buy milk''" by (simp add: py_strip_def py_isspace_def)
  have m: "main_prog 3 (\<lambda>_. t0) [Line ''1'', Line ''Buy milk'', Line ''0''] Map.empty = Some (Exited 0, ?q)"
    using b
    by (simp add: main_prog_def db_load_def Database_init_def db_get_notes_count_def print_msg_def
                  set_notes_def menu_step_def print_menu_def py_strip_choices handle_add_note_def
                  add_note_def db_add_note_def db_save_def after_handler_def numeral_3_eq_3)
  have "(Map.empty :: disk) ''notes.json'' \<noteq> Some NoAccess" by simp
  then show ?thesis using main_restart_reloads [OF m] m by simp
qed

end
