(* ===== verification/Notes_Format.thy ===== *)
theory Notes_Format
  imports Notes
begin

text \<open>
  \<^verbatim>\<open>format_note(note, index)\<close>, utils.py lines 96-107, and the part of
  Python's \<^verbatim>\<open>str()\<close> its f-string applies to the two fields: a field that is a
  string is copied, any other value is printed by \<^verbatim>\<open>repr()\<close>, which quotes and
  escapes the strings inside lists and dicts. \<^verbatim>\<open>repr()\<close> of a float is the
  shortest decimal that reads back to the same double; it is not modelled
  here and enters every definition as the parameter \<open>fr\<close>, so the lemmas
  hold for every float printer. The section after the definitions reads a
  printed string back (\<^verbatim>\<open>eval(repr(s)) == s\<close>).
\<close>

section \<open>\<^verbatim>\<open>repr()\<close> of a string\<close>

text \<open>\<^verbatim>\<open>Py_UNICODE_ISPRINTABLE\<close> on U+0000..U+00FF: the ASCII graphic
  characters and the space, and U+00A1..U+00FF except the soft hyphen
  U+00AD (category Cf). The C0 and C1 controls, DEL and the no-break space
  U+00A0 (category Zs) are not printable.\<close>

definition py_printable :: "char \<Rightarrow> bool" where
  "py_printable c \<longleftrightarrow>
     (let n = of_char c :: nat in (32 \<le> n \<and> n < 127) \<or> (161 \<le> n \<and> n \<noteq> 173))"

text \<open>\<^verbatim>\<open>unicode_repr\<close> (Objects/unicodeobject.c) picks the single quote
  unless the string holds a single quote and no double quote.\<close>

definition repr_quote :: "string \<Rightarrow> char" where
  "repr_quote s = (if CHR 0x27 \<in> set s \<and> CHR 0x22 \<notin> set s then CHR 0x22 else CHR 0x27)"

text \<open>One character inside the quotes: the quote and the backslash get a
  backslash, tab, newline and carriage return their short escapes, a
  printable character is copied and every other one becomes
  \<^verbatim>\<open>\xhh\<close> with lower-case hex digits.\<close>

definition repr_char :: "char \<Rightarrow> char \<Rightarrow> string" where
  "repr_char q c =
     (let n = of_char c :: nat in
      if c = q \<or> c = CHR 0x5C then [CHR 0x5C, c]
      else if n = 9 then [CHR 0x5C, CHR ''t'']
      else if n = 10 then [CHR 0x5C, CHR ''n'']
      else if n = 13 then [CHR 0x5C, CHR ''r'']
      else if py_printable c then [c]
      else [CHR 0x5C, CHR ''x'', hex_char (n div 16), hex_char (n mod 16)])"

definition py_repr_str :: "string \<Rightarrow> string" where
  "py_repr_str s = (let q = repr_quote s in q # concat (map (repr_char q) s) @ [q])"

section \<open>\<^verbatim>\<open>str()\<close> and \<^verbatim>\<open>repr()\<close> of a decoded value\<close>

text \<open>\<^verbatim>\<open>repr()\<close> of the objects \<^verbatim>\<open>json.load\<close> builds: \<^verbatim>\<open>None\<close>,
  \<^verbatim>\<open>True\<close>/\<^verbatim>\<open>False\<close>, the decimal of an int, \<open>fr\<close> of a float token, the
  quoted string, and lists and dicts with their items separated by
  \<^verbatim>\<open>", "\<close> and a dict's keys and values by \<^verbatim>\<open>": "\<close>.\<close>

fun py_repr :: "(string \<Rightarrow> string) \<Rightarrow> json \<Rightarrow> string" where
  "py_repr fr JNull = ''None''"
| "py_repr fr (JBool b) = (if b then ''True'' else ''False'')"
| "py_repr fr (JInt i) = int_str i"
| "py_repr fr (JFloat f) = fr f"
| "py_repr fr (JStr s) = py_repr_str s"
| "py_repr fr (JArray vs) = ''['' @ py_join '', '' (map (py_repr fr) vs) @ '']''"
| "py_repr fr (JObject kvs) =
     ''{'' @ py_join '', '' (map (\<lambda>kv. py_repr_str (fst kv) @ '': '' @ py_repr fr (snd kv)) kvs) @ ''}''"

text \<open>\<^verbatim>\<open>format(v, '')\<close>, what \<^verbatim>\<open>{v}\<close> in an f-string calls: \<^verbatim>\<open>str(v)\<close>,
  the string itself for a string and \<^verbatim>\<open>repr(v)\<close> for the other values.\<close>

definition py_str :: "(string \<Rightarrow> string) \<Rightarrow> json \<Rightarrow> string" where
  "py_str fr v = (case v of JStr s \<Rightarrow> s | _ \<Rightarrow> py_repr fr v)"

section \<open>\<^verbatim>\<open>format_note\<close>\<close>

text \<open>\<^verbatim>\<open>f"[{index}] {note['created']} - {note['text']}"\<close>: the fields are
  read left to right, so a note without \<^verbatim>\<open>'created'\<close> raises
  \<^verbatim>\<open>KeyError\<close> before \<^verbatim>\<open>'text'\<close> is looked at, and a value that is not a
  dict raises \<^verbatim>\<open>TypeError\<close>.\<close>

definition format_note :: "(string \<Rightarrow> string) \<Rightarrow> json \<Rightarrow> int \<Rightarrow> string py_result" where
  "format_note fr note index =
     (case py_getitem note ''created'' of
       Inl e \<Rightarrow> Inl e
     | Inr c \<Rightarrow>
         (case py_getitem note ''text'' of
           Inl e \<Rightarrow> Inl e
         | Inr t \<Rightarrow> Inr (''['' @ int_str index @ ''] '' @ py_str fr c @ '' - '' @ py_str fr t)))"

section \<open>Reading a printed string back\<close>

text \<open>The reader of a Python string literal, for the escapes
  \<^verbatim>\<open>repr()\<close> writes: \<open>unesc q\<close> reads the body up to the closing quote \<open>q\<close>,
  which must end the text.\<close>

fun unesc :: "char \<Rightarrow> string \<Rightarrow> string option" where
  "unesc q [] = None"
| "unesc q (c # r) =
     (if c = q then (if r = [] then Some [] else None)
      else if c = CHR 0x5C then
        (case r of
          [] \<Rightarrow> None
        | d # r' \<Rightarrow>
            if d = CHR ''t'' then map_option (Cons (CHR 0x09)) (unesc q r')
            else if d = CHR ''n'' then map_option (Cons (CHR 0x0A)) (unesc q r')
            else if d = CHR ''r'' then map_option (Cons (CHR 0x0D)) (unesc q r')
            else if d = CHR ''x'' then
              (case r' of
                h1 # h2 # r'' \<Rightarrow>
                  (case (hex_val h1, hex_val h2) of
                    (Some a, Some b) \<Rightarrow> map_option (Cons (char_of (16 * a + b))) (unesc q r'')
                  | _ \<Rightarrow> None)
              | _ \<Rightarrow> None)
            else if d \<in> {CHR 0x5C, CHR 0x27, CHR 0x22} then map_option (Cons d) (unesc q r')
            else None)
      else map_option (Cons c) (unesc q r))"

definition py_unrepr :: "string \<Rightarrow> string option" where
  "py_unrepr s = (case s of q # r \<Rightarrow> if q \<in> {CHR 0x27, CHR 0x22} then unesc q r else None | [] \<Rightarrow> None)"

section \<open>Lemmas\<close>

lemma hex_char_printable: "d < 16 \<Longrightarrow> py_printable (hex_char d)"
  by (simp add: hex_char_def py_printable_def)

lemma of_char_div16: "of_char c div 16 < (16::nat)"
  using of_char_less_256 [of c] less_mult_imp_div_less [of "of_char c" 16 16] by simp

lemma repr_char_printable:
  assumes "py_printable q"
  shows "\<forall>x \<in> set (repr_char q c). py_printable x"
proof -
  have "py_printable (CHR 0x5C)" "py_printable (CHR ''t'')" "py_printable (CHR ''n'')"
    "py_printable (CHR ''r'')" "py_printable (CHR ''x'')"
    by (simp_all add: py_printable_def)
  moreover have "c = q \<Longrightarrow> py_printable c" using assms by simp
  ultimately show ?thesis
    using hex_char_printable [OF of_char_div16 [of c]] hex_char_printable [of "of_char c mod 16"]
    by (auto simp: repr_char_def Let_def)
qed

lemma repr_quote_cases: "repr_quote s = CHR 0x27 \<or> repr_quote s = CHR 0x22"
  by (simp add: repr_quote_def)

lemma repr_quote_printable: "py_printable (repr_quote s)"
  using repr_quote_cases [of s] by (auto simp: py_printable_def)

lemma length_repr_char: "1 \<le> length (repr_char q c) \<and> length (repr_char q c) \<le> 4"
  by (simp add: repr_char_def Let_def)

lemma length_concat_repr:
  "length xs \<le> length (concat (map (repr_char q) xs)) \<and>
   length (concat (map (repr_char q) xs)) \<le> 4 * length xs"
proof (induction xs)
  case (Cons a xs)
  then show ?case using length_repr_char [of q a] by simp
qed simp

lemma unesc_repr_char:
  assumes q: "q = CHR 0x27 \<or> q = CHR 0x22"
  shows "unesc q (repr_char q c @ X) = map_option (Cons c) (unesc q X)"
proof -
  let ?n = "of_char c :: nat"
  have lit: "c = d \<longleftrightarrow> ?n = of_char d" for d by simp
  have bs: "CHR 0x5C \<noteq> q" using q by auto
  consider (esc) "c = q \<or> c = CHR 0x5C" | (tab) "c \<noteq> q" "c \<noteq> CHR 0x5C" "?n = 9"
    | (nl) "c \<noteq> q" "c \<noteq> CHR 0x5C" "?n = 10" | (cr) "c \<noteq> q" "c \<noteq> CHR 0x5C" "?n = 13"
    | (plain) "c \<noteq> q" "c \<noteq> CHR 0x5C" "?n \<notin> {9, 10, 13}" "py_printable c"
    | (hex) "c \<noteq> q" "c \<noteq> CHR 0x5C" "?n \<notin> {9, 10, 13}" "\<not> py_printable c"
    by blast
  then show ?thesis
  proof cases
    case esc
    then have "repr_char q c = [CHR 0x5C, c]" by (auto simp: repr_char_def)
    moreover have "c \<in> {CHR 0x5C, CHR 0x27, CHR 0x22}" "c \<notin> {CHR ''t'', CHR ''n'', CHR ''r'', CHR ''x''}"
      using esc q by auto
    ultimately show ?thesis using bs by simp
  next
    case tab
    then have "c = CHR 0x09" by (simp add: lit)
    then show ?thesis using tab bs by (simp add: repr_char_def)
  next
    case nl
    then have "c = CHR 0x0A" by (simp add: lit)
    then show ?thesis using nl bs by (simp add: repr_char_def)
  next
    case cr
    then have "c = CHR 0x0D" by (simp add: lit)
    then show ?thesis using cr bs by (simp add: repr_char_def)
  next
    case plain
    then show ?thesis by (simp add: repr_char_def Let_def)
  next
    case hex
    have h: "hex_val (hex_char (?n div 16)) = Some (?n div 16)"
      "hex_val (hex_char (?n mod 16)) = Some (?n mod 16)"
      using hex_val_hex_char of_char_div16 [of c] by simp_all
    have ch: "char_of (16 * (?n div 16) + ?n mod 16) = c" by simp
    have "repr_char q c = [CHR 0x5C, CHR ''x'', hex_char (?n div 16), hex_char (?n mod 16)]"
      using hex by (simp add: repr_char_def Let_def)
    then show ?thesis using bs h ch by simp
  qed
qed

lemma unesc_concat_repr:
  assumes "q = CHR 0x27 \<or> q = CHR 0x22"
  shows "unesc q (concat (map (repr_char q) s) @ [q]) = Some s"
  using unesc_repr_char [OF assms] by (induction s) simp_all

lemma set_py_join: "set (py_join sep xs) \<subseteq> set sep \<union> \<Union> (set ` set xs)"
  by (induction sep xs rule: py_join.induct) auto

lemma is_digit_printable: "is_digit c \<Longrightarrow> py_printable c"
  by (simp add: is_digit_def py_printable_def)

lemma int_str_printable: "\<forall>c \<in> set (int_str i). py_printable c"
proof -
  have d: "\<forall>c \<in> set (nat_str k). py_printable c" for k
    using nat_str_digits [of k] is_digit_printable by (simp add: list_all_iff del: nat_str.simps)
  have "py_printable (CHR ''-'')" by (simp add: py_printable_def)
  then show ?thesis using d [of "nat i"] d [of "nat (- i)"] by (simp add: int_str_def del: nat_str.simps)
qed

lemma py_repr_str_printable: "\<forall>c \<in> set (py_repr_str s). py_printable c"
  using repr_quote_printable [of s] repr_char_printable [OF repr_quote_printable [of s]]
  by (auto simp: py_repr_str_def Let_def)

lemma literal_printable:
  "s \<in> {''None'', ''True'', ''False'', '', '', '': '', ''['', '']'', ''{'', ''}''} \<Longrightarrow>
   \<forall>c \<in> set s. py_printable c"
  by (auto simp: py_printable_def)

lemma py_join_printable:
  "\<forall>x \<in> set xs. \<forall>c \<in> set x. py_printable c \<Longrightarrow> \<forall>c \<in> set (py_join '', '' xs). py_printable c"
  using set_py_join [of "'', ''" xs] literal_printable [of "'', ''"] by blast

lemma py_repr_printable:
  assumes fr: "\<forall>f. \<forall>c \<in> set (fr f). py_printable c"
  shows "\<forall>c \<in> set (py_repr fr v). py_printable c"
  using fr
proof (induction fr v rule: py_repr.induct)
  case (6 fr vs)
  then have "\<forall>c \<in> set (py_join '', '' (map (py_repr fr) vs)). py_printable c"
    by (intro py_join_printable) simp
  then show ?case using literal_printable [of "''[''"] literal_printable [of "'']''"] by auto
next
  case (7 fr kvs)
  have "\<forall>x \<in> set (map (\<lambda>kv. py_repr_str (fst kv) @ '': '' @ py_repr fr (snd kv)) kvs).
          \<forall>c \<in> set x. py_printable c"
    using 7 py_repr_str_printable literal_printable [of "'': ''"] by fastforce
  then have "\<forall>c \<in> set (py_join '', '' (map (\<lambda>kv. py_repr_str (fst kv) @ '': '' @ py_repr fr (snd kv)) kvs)).
               py_printable c"
    by (rule py_join_printable)
  then show ?case using literal_printable [of "''{''"] literal_printable [of "''}''"] by auto
next
  case (2 fr b)
  then show ?case using literal_printable [of "''True''"] literal_printable [of "''False''"] by simp
qed (use int_str_printable py_repr_str_printable literal_printable [of "''None''"] in simp_all)

lemma newline_not_printable: "\<not> py_printable (CHR 0x0A)"
  by (simp add: py_printable_def)

lemma py_str_lines:
  assumes "\<forall>f. \<forall>c \<in> set (fr f). py_printable c"
  shows "CHR 0x0A \<in> set (py_str fr v) \<longleftrightarrow> (\<exists>s. v = JStr s \<and> CHR 0x0A \<in> set s)"
  using py_repr_printable [OF assms, of v] newline_not_printable
  by (cases v) (auto simp: py_str_def)

lemma format_note_Inr:
  "format_note fr n i = Inr line \<Longrightarrow>
   \<exists>c t. py_getitem n ''created'' = Inr c \<and> py_getitem n ''text'' = Inr t \<and>
         line = ''['' @ int_str i @ ''] '' @ py_str fr c @ '' - '' @ py_str fr t"
  by (auto simp: format_note_def split: sum.splits)

text \<open>C16. \<^verbatim>\<open>format_note\<close> on a note dict: the line is
  \<^verbatim>\<open>[index] created - text\<close> with the two strings as stored.\<close>

theorem format_note_note:
  "json_note n = Some e \<Longrightarrow>
   format_note fr n i = Inr (''['' @ int_str i @ ''] '' @ note_created e @ '' - '' @ note_text e)"
  by (cases n rule: json_note.cases)
     (auto simp: format_note_def py_str_def split: option.splits json.splits)

theorem format_note_note_witness:
  "json_note (create_note ''Buy milk'' t0) = Some \<lparr>note_text = ''Buy milk'', note_created = strftime_ts t0\<rparr> \<and>
   format_note (\<lambda>_. ''0.0'') (create_note ''Buy milk'' t0) 1 = Inr (''[1] '' @ strftime_ts t0 @ '' - Buy milk'')"
  using format_note_note [of "create_note ''Buy milk'' t0" "\<lparr>note_text = ''Buy milk'', note_created = strftime_ts t0\<rparr>"
                            "\<lambda>_. ''0.0''" 1]
  by (simp add: int_str_def digit_char_def char_of_nat_eq_iff)

text \<open>C17. Errors of \<^verbatim>\<open>format_note\<close>: it raises exactly when the note is
  not a dict (\<^verbatim>\<open>TypeError\<close>) or is a dict without \<^verbatim>\<open>'created'\<close> or without
  \<^verbatim>\<open>'text'\<close> (\<^verbatim>\<open>KeyError\<close>).\<close>

theorem format_note_error:
  "format_note fr n i = Inl e \<longleftrightarrow>
   (case n of
     JObject kvs \<Rightarrow> e = KeyError \<and> (''created'' \<notin> fst ` set kvs \<or> ''text'' \<notin> fst ` set kvs)
   | _ \<Rightarrow> e = TypeError)"
  by (cases n) (auto simp: format_note_def split: option.splits
                     simp flip: dom_map_of_conv_image_fst)

theorem format_note_error_witness:
  "format_note (\<lambda>_. ''0.0'') (JObject [(''created'', JStr ''2024-03-07 09:05:00'')]) 1 = Inl KeyError \<and>
   format_note (\<lambda>_. ''0.0'') (JStr ''Buy milk'') 1 = Inl TypeError"
  using format_note_error [of "\<lambda>_. ''0.0''" "JObject [(''created'', JStr ''2024-03-07 09:05:00'')]" 1 KeyError]
        format_note_error [of "\<lambda>_. ''0.0''" "JStr ''Buy milk''" 1 TypeError]
  by simp

text \<open>C18. Spec section 4 calls the result of \<^verbatim>\<open>format(note, index)\<close> a
  single line. The line breaks where a field that is a string holds a line
  feed, and only there: values of any other type, and the strings nested in
  them, are printed by \<^verbatim>\<open>repr()\<close>, which escapes every control character
  (for any float printer whose output is printable).\<close>

theorem format_note_lines:
  assumes "format_note fr n i = Inr line" and "\<forall>f. \<forall>c \<in> set (fr f). py_printable c"
  shows "CHR 0x0A \<in> set line \<longleftrightarrow>
         (\<exists>s. (py_getitem n ''created'' = Inr (JStr s) \<or> py_getitem n ''text'' = Inr (JStr s)) \<and>
              CHR 0x0A \<in> set s)"
proof -
  obtain c t where c: "py_getitem n ''created'' = Inr c" and t: "py_getitem n ''text'' = Inr t"
    and line: "line = ''['' @ int_str i @ ''] '' @ py_str fr c @ '' - '' @ py_str fr t"
    using format_note_Inr [OF assms(1)] by blast
  have "CHR 0x0A \<notin> set (int_str i)" using int_str_printable [of i] newline_not_printable by blast
  then show ?thesis using line c t py_str_lines [OF assms(2)] by auto
qed

theorem format_note_lines_witness:
  "format_note (\<lambda>_. ''0.0'') (JObject [(''created'', JInt 5), (''text'', JStr (''a'' @ [CHR 0x0A] @ ''b''))]) 1 =
     Inr (''[1] 5 - a'' @ [CHR 0x0A] @ ''b'') \<and>
   CHR 0x0A \<in> set (''[1] 5 - a'' @ [CHR 0x0A] @ ''b'')"
proof -
  have f: "format_note (\<lambda>_. ''0.0'') (JObject [(''created'', JInt 5), (''text'', JStr (''a'' @ [CHR 0x0A] @ ''b''))]) 1 =
     Inr (''[1] 5 - a'' @ [CHR 0x0A] @ ''b'')"
    by (simp add: format_note_def py_str_def int_str_def digit_char_def char_of_nat_eq_iff)
  have p: "\<forall>f. \<forall>c \<in> set ((\<lambda>_::string. ''0.0'') f). py_printable c" by (simp add: py_printable_def)
  show ?thesis using format_note_lines [OF f p] f p by simp
qed

text \<open>Round trip of \<^verbatim>\<open>repr()\<close> on strings: the Python literal it
  prints reads back to the same string (\<^verbatim>\<open>eval(repr(s)) == s\<close>), so two
  different field values never print the same.\<close>

lemma py_unrepr_repr: "py_unrepr (py_repr_str s) = Some s"
  using unesc_concat_repr [OF repr_quote_cases [of s]] repr_quote_cases [of s]
  by (auto simp: py_unrepr_def py_repr_str_def Let_def)

text \<open>Bounds of \<^verbatim>\<open>repr()\<close> on strings: every character it prints is
  printable, and the literal is the two quotes plus one to four characters
  for each character of the string.\<close>

lemma py_repr_str_bounds:
  "(\<forall>c \<in> set (py_repr_str s). py_printable c) \<and>
   length s + 2 \<le> length (py_repr_str s) \<and> length (py_repr_str s) \<le> 4 * length s + 2"
  using py_repr_str_printable [of s] length_concat_repr [of s "repr_quote s"]
  by (simp add: py_repr_str_def Let_def)

end
