(* ===== verification/Spec2Isabelle.thy ===== *)
theory Spec2Isabelle
  imports Persistence Notes_Format
begin

text \<open>
  \<^bold>\<open>A verification model of the note manager (src/database.py, src/utils.py,
  src/main.py).\<close>

  \<^bold>\<open>The program.\<close> A command-line note manager. The class \<^verbatim>\<open>Database\<close>
  (src/database.py) holds the notes in memory as a Python list and rewrites the
  whole list to one JSON file after every change. The functions of
  src/utils.py create, add, list, delete and search notes through one
  \<^verbatim>\<open>Database\<close> object. src/main.py loads the file once and runs a menu loop
  that reads lines from standard input and calls the functions of utils.py.

  \<^bold>\<open>The theories.\<close>
  \<^item> \<open>Prelude\<close>: the Python exceptions (\<open>py_exc\<close>), results that may raise
    (\<open>py_result\<close>), \<^verbatim>\<open>list.pop(i)\<close> (\<open>pop_at\<close>), \<^verbatim>\<open>dict(pairs)\<close>
    (\<open>dict_of_pairs\<close>), the collections \<open>model_simps\<close> and \<open>wf_intros\<close>.
  \<^item> \<open>PyStr\<close>: the string built-ins the code calls, \<^verbatim>\<open>str.strip\<close>
    (\<open>py_strip\<close>), \<^verbatim>\<open>str.lower\<close> (\<open>py_lower\<close>), \<^verbatim>\<open>in\<close> (\<open>py_in\<close>, shown
    equal to \<open>sublist\<close>), \<^verbatim>\<open>str.join\<close> and \<^verbatim>\<open>int()\<close> (\<open>py_int\<close>).
  \<^item> \<open>Json\<close>: the values the store holds (\<open>json\<close>), the Python operations
    on them that can raise (\<^verbatim>\<open>len\<close>, truth value, \<^verbatim>\<open>v[key]\<close>, iteration,
    \<^verbatim>\<open>.lower()\<close>), and \<^verbatim>\<open>json.dump(..., ensure_ascii=False, indent=2)\<close>
    (\<open>json_dump\<close>).
  \<^item> \<open>Json_Parse\<close>: \<^verbatim>\<open>json.loads\<close> after CPython's C scanner (\<open>json_loads\<close>),
    with fuel.
  \<^item> \<open>Json_Fuel\<close>: every scanning step consumes input; the fuel
    \<open>json_loads\<close> gives is enough on every text (the decoder is total), and
    more fuel never changes a result.
  \<^item> \<open>Json_Tokens\<close>, \<open>Json_Roundtrip\<close>: the decoder reads back what the encoder
    writes, token by token (strings, integers, where a number ends) and then
    for whole values in the indented layout: \<open>json_loads (json_dump v) = Some v\<close>
    for every \<open>v\<close> of \<open>json_ok\<close>; and every value the decoder returns
    is of \<open>json_ok\<close> (no duplicate keys, float tokens that scan back alone),
    so a file that loads survives a save and a reload.
  \<^item> \<open>World\<close>: files (\<open>fentry\<close>) and printed lines (\<open>msg\<close>, one
    constructor per \<^verbatim>\<open>print\<close> of src/).
  \<^item> \<open>Database\<close>: the record \<open>database\<close> (\<^verbatim>\<open>filename\<close>, \<^verbatim>\<open>notes\<close>) inside
    the process state \<open>proc\<close> (database, disk, output), and one definition per
    method: \<open>Database_init\<close>, \<open>db_load\<close>, \<open>db_save\<close>, \<open>db_get_all_notes\<close>,
    \<open>db_add_note\<close>, \<open>db_remove_note\<close>, \<open>db_clear_all\<close>,
    \<open>db_get_notes_count\<close>. Its lemmas give each method on every branch, the
    save/load round trip, and the count along any sequence of additions and
    removals (\<open>db_run\<close> over a list of \<open>db_op\<close>).
  \<^item> \<open>Notes\<close>: the functions of utils.py, \<open>create_note\<close> (with the timestamp
    format \<open>strftime_ts\<close>), \<open>add_note\<close>, \<open>show_all_notes\<close>,
    \<open>delete_note\<close>, \<open>search_notes\<close>, \<open>display_search_results\<close> and the shared
    printing loop \<open>print_items\<close>, with their behaviour on a store of notes.
  \<^item> \<open>Notes_Format\<close>: \<open>format_note\<close> (utils.py, which main.py never calls)
    and the \<^verbatim>\<open>str()\<close> its f-string applies: \<open>py_str\<close>, \<open>py_repr\<close> and
    \<^verbatim>\<open>repr()\<close> of a string (\<open>py_repr_str\<close>, after CPython's
    \<^verbatim>\<open>unicode_repr\<close>). Its lemmas give the line of a note, the errors, where
    the line breaks, and that \<^verbatim>\<open>repr()\<close> of a string is printable and reads
    back (\<open>py_unrepr\<close>, a reader of Python string literals).
  \<^item> \<open>Notes_Spec\<close>: the abstract store (a list of \<open>note_entry\<close>), the
    operations it promises (\<open>spec_add\<close>, \<open>spec_delete\<close>, \<open>spec_search\<close>), the
    refinement lemma under \<open>notes_abs\<close>, the reachable states
    (\<open>notes_reach\<close>, an inductive predicate) and their invariants, and the
    restart property: a new process loads the notes the old one left.
  \<^item> \<open>Menu\<close>: main.py. The input is a list of user actions (\<open>inp\<close>: a line,
    end of input, Ctrl-C) read by \<^verbatim>\<open>input()\<close> (\<open>py_input\<close>); the handlers
    \<open>handle_add_note\<close>, \<open>handle_show_notes\<close>, \<open>handle_delete_note\<close>,
    \<open>handle_search_notes\<close>; one pass of the loop \<open>menu_step\<close>, the loop
    \<open>menu_loop\<close> and \<^verbatim>\<open>main()\<close> (\<open>main_prog\<close>), which ends with
    \<open>Exited\<close> status or \<open>Crashed\<close> by an uncaught exception. Its lemmas give
    each menu choice, the interrupt and end-of-input behaviour, the start-up
    on every kind of file, termination within the input and safety of the
    loop on a store of notes.
  \<^item> \<open>Persistence\<close>: durability across runs. \<open>reload\<close> is what a new
    \<^verbatim>\<open>Database\<close> on the same file would load and \<open>durable\<close> says it is the
    list in memory and the file can be written; every method, function of
    utils.py, handler and pass of the loop keeps it, so a run that exits from
    the menu leaves a file from which the next run starts with its notes.

  \<^bold>\<open>State and effects.\<close> A method is a function \<open>proc \<Rightarrow> result \<times> proc\<close>;
  an exception is \<open>Inl\<close> of the result, with the state as it was when it was
  raised (Python keeps mutations made before a raise). The disk maps a path to
  UTF-8 text, to undecodable bytes or to a path that cannot be opened; output
  is the list of printed messages. \<^verbatim>\<open>datetime.now()\<close> is an argument of the
  note operations; the shell reads it once per pass from a clock function of
  the pass number. The shell's handlers also take and return the rest of the
  input.

  \<^bold>\<open>Characters.\<close> An Isabelle \<open>char\<close> stands for the code points U+0000 to
  U+00FF; \<^verbatim>\<open>strip\<close>, \<^verbatim>\<open>lower\<close>, \<^verbatim>\<open>int()\<close> and the JSON escapes follow
  Python on that range. Text outside it (Cyrillic, for instance) is not
  representable, and a \<^verbatim>\<open>\uXXXX\<close> escape above U+00FF is a decode failure of
  the model where Python accepts it; \<open>wide_escape\<close> (Json_Parse) marks the
  texts that hold one, and the lemmas about files that fail to decode
  exclude them.

  \<^bold>\<open>Fuel.\<close> The JSON scanner recurses into nested arrays and objects; its
  functions take fuel, and \<open>json_loads\<close> gives \<open>2 * length s + 1\<close>, which
  Json_Fuel shows is always enough: every element and nesting level costs one
  unit and consumes at least two characters. The shell's loop takes as fuel
  the number of passes; a run that ends does so within the number of input
  actions plus one, and with a closed input it never ends, so \<open>None\<close> for
  every fuel there is the program's non-termination, not a lack of fuel.

  \<^bold>\<open>Not modelled.\<close> Python's recursion limit in the decoder (a file nested
  some thousand levels deep raises \<^verbatim>\<open>RecursionError\<close>); a write that fails
  half way (the model's write either happens or fails at \<^verbatim>\<open>open\<close>); the
  text of the messages (only which \<^verbatim>\<open>print\<close> ran, with its values); the
  \<^verbatim>\<open>repr\<close> of a float read from the file: \<^verbatim>\<open>json.dump\<close> writes the
  token back as it was spelled where Python prints the shortest decimal of
  the double (so \<^verbatim>\<open>1.50\<close> stays \<^verbatim>\<open>1.50\<close> in the model and becomes
  \<^verbatim>\<open>1.5\<close> in Python, the same number), and \<open>format_note\<close> takes the float
  printer as a parameter \<open>fr\<close> on which its lemmas make no assumption
  beyond printable output; Ctrl-C anywhere but at an \<^verbatim>\<open>input()\<close> prompt.
\<close>

end
